(* ===== verification/Rmw_Prelude.thy ===== *)
theory Rmw_Prelude
  imports Main "HOL-Library.Monad_Syntax" "HOL-Library.Word" "HOL-Library.Sublist"
begin

text \<open>
  Shared vocabulary of the development: the return codes of the RMW interface, the error values of
  the implementation classes, the part of the process state every function may touch (the
  thread's error message and the iceoryx2 runtime), the error-chaining macro, and the string
  functions of the C++ standard library the code uses.

  Conventions:
  \<^item> \<open>None\<close> of an operation is a terminated process (a panic, the access to an empty optional,
    the use of a dangling pointer);
  \<^item> \<open>iox::expected\<close> is a sum, \<open>Inl\<close> the error;
  \<^item> an operation takes the state last and returns its result and the new state.
\<close>

named_theorems rmw_defs \<open>definitions of operations, unfolded to compute\<close>
named_theorems frame \<open>what an operation leaves unchanged\<close>

section \<open>Basic types\<close>

type_synonym u8 = "8 word"
type_synonym u32 = "32 word"
type_synonym u64 = "64 word"
type_synonym ptr = nat

abbreviation (input) nullptr :: ptr where "nullptr \<equiv> 0"

datatype rmw_ret = RMW_RET_OK | RMW_RET_ERROR | RMW_RET_TIMEOUT | RMW_RET_UNSUPPORTED
  | RMW_RET_BAD_ALLOC | RMW_RET_INVALID_ARGUMENT | RMW_RET_INCORRECT_RMW_IMPLEMENTATION

text \<open>
  Implementation identifiers are compared as pointers (\<open>ensure.hpp\<close>): the null pointer, the one
  pointer \<open>rmw_get_implementation_identifier\<close> returns, or any other.
\<close>

datatype ident = NullIdent | Iox2Ident | OtherIdent nat

definition rmw_get_implementation_identifier :: ident where
  "rmw_get_implementation_identifier = Iox2Ident"

datatype MemoryError = ALLOCATION | CONSTRUCTION | CAST

datatype HandleError = INVALID_INSTANCE_NAME | ICEORYX_HANDLE_CREATION_FAILURE

datatype ContextError = Context_INVARIANT_VIOLATION | Context_HANDLE_CREATION_FAILURE

datatype NodeError = Node_INVARIANT_VIOLATION | Node_HANDLE_CREATION_FAILURE
  | GRAPH_GUARD_CONDITION_CREATION_FAILURE

datatype GuardConditionError = GC_INVARIANT_VIOLATION | GC_SERVICE_NAME_CREATION_FAILURE
  | GC_SERVICE_CREATION_FAILURE | GC_NOTIFIER_CREATION_FAILURE | GC_NOTIFICATION_FAILURE

datatype SampleRegistryError = SampleRegistry_INVALID_PAYLOAD

datatype PublisherError = Pub_INVARIANT_VIOLATION | Pub_SERVICE_NAME_CREATION_FAILURE
  | Pub_SERVICE_CREATION_FAILURE | PUBLISHER_CREATION_FAILURE | Pub_NOTIFIER_CREATION_FAILURE
  | LOAN_FAILURE | SEND_FAILURE | Pub_NOTIFICATION_FAILURE | Pub_INVALID_PAYLOAD

datatype SubscriberError = Sub_INVARIANT_VIOLATION | Sub_SERVICE_NAME_CREATION_FAILURE
  | Sub_SERVICE_CREATION_FAILURE | SUBSCRIBER_CREATION_FAILURE | RECV_FAILURE | Sub_INVALID_PAYLOAD

datatype WaitSetError = WS_INVARIANT_VIOLATION | WAITSET_CREATION_FAILURE
  | WS_SERVICE_NAME_CREATION_FAILURE | WS_SERVICE_CREATION_FAILURE | LISTENER_CREATION_FAILURE
  | INVALID_WAITABLE_TYPE | INVALID_STORAGE_INDEX | ATTACHMENT_FAILURE | LISTENER_FAILURE
  | WAIT_FAILURE

section \<open>The process state and the error-chaining macro\<close>

text \<open>
  \<open>errmsg\<close> is the calling thread's rcutils error (\<open>None\<close>: not set), kept as the text the code
  asks rcutils to store; \<open>iox\<close> is the state of the iceoryx2 runtime, of a type the model leaves
  open. The record is extended with the heap of the RMW layer later.
\<close>

record 'i sys =
  errmsg :: "string option"
  iox :: 'i

definition chain :: "string \<Rightarrow> ('i, 'z) sys_scheme \<Rightarrow> ('i, 'z) sys_scheme" where
  "chain msg w =
     (case errmsg w of
        Some old \<Rightarrow> w\<lparr>errmsg := Some (msg @ '': '' @ old)\<rparr>
      | None \<Rightarrow> w\<lparr>errmsg := Some msg\<rparr>)"

text \<open>A call into the runtime: the library function's result, and the runtime's new state.\<close>

definition call :: "('i \<Rightarrow> 'a \<times> 'i) \<Rightarrow> ('i, 'z) sys_scheme \<Rightarrow> 'a \<times> ('i, 'z) sys_scheme" where
  "call f w = (case f (iox w) of (r, i) \<Rightarrow> (r, w\<lparr>iox := i\<rparr>))"

definition run_iox :: "('i \<Rightarrow> 'i) \<Rightarrow> ('i, 'z) sys_scheme \<Rightarrow> ('i, 'z) sys_scheme" where
  "run_iox f w = w\<lparr>iox := f (iox w)\<rparr>"

text \<open>The early return of the \<open>RMW_IOX2_ENSURE_*\<close> macros and of the error branches.\<close>

definition fail :: "'r \<Rightarrow> string \<Rightarrow> ('i, 'z) sys_scheme \<Rightarrow> ('r \<times> ('i, 'z) sys_scheme) option" where
  "fail r msg w = Some (r, chain msg w)"

lemma iox_chain [simp, frame]: "iox (chain msg w) = iox w"
  by (simp add: chain_def split: option.split)

lemma errmsg_chain [simp]: "errmsg (chain msg w) \<noteq> None"
  by (simp add: chain_def split: option.split)

lemma errmsg_chain_Some [simp]: "\<exists>y. errmsg (chain msg w) = Some y"
  using errmsg_chain by blast

lemma more_iox [simp]: "sys.more (w\<lparr>iox := j\<rparr>) = sys.more w"
  by (metis sys.select_convs(3) sys.surjective sys.update_convs(2))

lemma more_chain [simp, frame]: "sys.more (chain msg w) = sys.more w"
  by (simp add: chain_def split: option.split)

lemma chain_mentions: "\<exists>rest. errmsg (chain msg w) = Some (msg @ rest)"
  by (auto simp: chain_def split: option.split)

lemma chain_keeps_cause:
  "errmsg w = Some old \<Longrightarrow> errmsg (chain msg w) = Some (msg @ '': '' @ old)"
  by (simp add: chain_def)

lemma call_result: "call f w = (r, w') \<longleftrightarrow> f (iox w) = (r, iox w') \<and> w' = w\<lparr>iox := iox w'\<rparr>"
  by (cases w) (auto simp: call_def split: prod.split)

lemma fst_call [simp]: "fst (call f w) = fst (f (iox w))"
  by (simp add: call_def split: prod.split)

lemma iox_snd_call [simp]: "iox (snd (call f w)) = snd (f (iox w))"
  by (simp add: call_def split: prod.split)

lemma errmsg_snd_call [simp, frame]: "errmsg (snd (call f w)) = errmsg w"
  by (simp add: call_def split: prod.split)

lemma more_snd_call [simp, frame]: "sys.more (snd (call f w)) = sys.more w"
  by (simp add: call_def split: prod.split)

lemma call_more: "call f w = (r, w') \<Longrightarrow> sys.more w' = sys.more w"
  by (metis more_snd_call snd_conv)

lemma call_errmsg: "call f w = (r, w') \<Longrightarrow> errmsg w' = errmsg w"
  by (metis errmsg_snd_call snd_conv)

lemma run_iox_simps [simp]:
  "iox (run_iox f w) = f (iox w)" "errmsg (run_iox f w) = errmsg w"
  "sys.more (run_iox f w) = sys.more w"
  by (simp_all add: run_iox_def)

text \<open>An expected without a value either holds an error or is the one success.\<close>

lemma not_Inl_unit [simp]: "(\<forall>e. r \<noteq> Inl e) \<longleftrightarrow> r = Inr ()" for r :: "'e + unit"
  by (cases r) auto

lemma bind_if_distrib: "Option.bind (if b then x else y) f = (if b then Option.bind x f else Option.bind y f)"
  by simp

section \<open>Strings of the C++ standard library\<close>

text \<open>\<open>std::to_string\<close> of an unsigned number.\<close>

definition digit :: "nat \<Rightarrow> char" where
  "digit d = char_of (48 + d)"

fun to_string :: "nat \<Rightarrow> string" where
  "to_string n = (if n < 10 then [digit n] else to_string (n div 10) @ [digit (n mod 10)])"

declare to_string.simps [simp del]

definition is_digit :: "char \<Rightarrow> bool" where
  "is_digit c \<longleftrightarrow> (48::nat) \<le> of_char c \<and> of_char c < (58::nat)"

lemma of_char_digit: "d < 10 \<Longrightarrow> of_char (digit d) = (48 + d :: nat)"
  by (simp add: digit_def)

lemma is_digit_digit: "d < 10 \<Longrightarrow> is_digit (digit d)"
  by (simp add: is_digit_def of_char_digit)

lemma to_string_digits: "\<forall>c \<in> set (to_string n). is_digit c"
proof (induction n rule: to_string.induct)
  case (1 n)
  then show ?case
    by (subst to_string.simps) (auto simp: is_digit_digit)
qed

lemma to_string_nonempty [simp]: "to_string n \<noteq> []"
  by (subst to_string.simps) simp

lemma slash_not_digit: "\<not> is_digit (CHR ''/'')"
  by (simp add: is_digit_def)

lemma slash_notin_to_string [simp]: "CHR ''/'' \<notin> set (to_string n)"
  using to_string_digits slash_not_digit by blast

text \<open>Reading the digits back shows that \<open>to_string\<close> loses nothing.\<close>

definition digits_value :: "string \<Rightarrow> nat" where
  "digits_value s = foldl (\<lambda>v c. 10 * v + (of_char c - 48)) 0 s"

lemma digits_value_to_string: "digits_value (to_string n) = n"
proof (induction n rule: to_string.induct)
  case (1 n)
  then show ?case
    by (subst to_string.simps) (auto simp: digits_value_def of_char_digit)
qed

lemma to_string_inject [simp]: "to_string m = to_string n \<longleftrightarrow> m = n"
  by (metis digits_value_to_string)

text \<open>
  \<open>std::string_view\<close>: \<open>substr(0, n)\<close> is \<open>take n\<close>, \<open>substr(n)\<close> is \<open>drop n\<close>; \<open>find\<close> returns the
  position of the first occurrence, \<open>find_last_of\<close> the position of the last occurrence of a
  character, both \<open>None\<close> for \<open>npos\<close>.
\<close>

fun str_find :: "string \<Rightarrow> string \<Rightarrow> nat option" where
  "str_find pat [] = (if pat = [] then Some 0 else None)"
| "str_find pat (c # s) =
     (if take (length pat) (c # s) = pat then Some 0 else map_option Suc (str_find pat s))"

fun find_last_of :: "char \<Rightarrow> string \<Rightarrow> nat option" where
  "find_last_of c [] = None"
| "find_last_of c (x # s) =
     (case find_last_of c s of
        Some i \<Rightarrow> Some (Suc i)
      | None \<Rightarrow> (if x = c then Some 0 else None))"

lemma find_last_of_None: "find_last_of c s = None \<longleftrightarrow> c \<notin> set s"
  by (induction s) (auto split: option.splits)

lemma find_last_of_split:
  "c \<notin> set t \<Longrightarrow> find_last_of c (s @ c # t) = Some (length s)"
  by (induction s) (auto simp: find_last_of_None [THEN iffD2])

lemma split_at_unique:
  "c \<notin> set u \<Longrightarrow> c \<notin> set v \<Longrightarrow> u @ c # s = v @ c # t \<longleftrightarrow> u = v \<and> s = t"
proof (induction u arbitrary: v)
  case Nil
  then show ?case by (cases v) auto
next
  case (Cons x u)
  then show ?case by (cases v) auto
qed

lemma find_last_of_Some:
  "find_last_of c s = Some i \<Longrightarrow> i < length s \<and> s ! i = c \<and> c \<notin> set (drop (Suc i) s)"
  by (induction s arbitrary: i) (auto simp: find_last_of_None split: option.splits if_splits)

lemma drop_at: "n = length u \<Longrightarrow> drop n (u @ v) = v"
  by simp

lemma str_find_here: "str_find pat (pat @ s) = Some 0"
  by (cases pat; cases s) (auto)

text \<open>A position is skipped when the text there differs from the pattern's start.\<close>

lemma str_find_skip:
  "pat \<noteq> [] \<Longrightarrow> (\<And>c. c \<in> set u \<Longrightarrow> c \<noteq> hd pat) \<Longrightarrow>
   str_find pat (u @ s) = map_option (\<lambda>i. length u + i) (str_find pat s)"
proof (induction u)
  case Nil
  then show ?case by (simp add: option.map_ident)
next
  case (Cons c u)
  then have "take (length pat) (c # u @ s) \<noteq> pat"
    by (cases pat) auto
  with Cons show ?case by (simp add: option.map_comp comp_def)
qed

section \<open>\<open>std::find_if\<close> over a vector\<close>

text \<open>The index of the first element that satisfies the predicate, \<open>None\<close> for \<open>end()\<close>.\<close>

fun find_index :: "('a \<Rightarrow> bool) \<Rightarrow> 'a list \<Rightarrow> nat option" where
  "find_index P [] = None"
| "find_index P (x # xs) = (if P x then Some 0 else map_option Suc (find_index P xs))"

lemma find_index_None [simp]: "find_index P xs = None \<longleftrightarrow> (\<forall>x \<in> set xs. \<not> P x)"
  by (induction xs) auto

lemma find_index_Some: "find_index P xs = Some i \<Longrightarrow> i < length xs \<and> P (xs ! i)"
  by (induction xs arbitrary: i) (auto split: if_splits)

lemma find_index_least: "find_index P xs = Some i \<Longrightarrow> j < i \<Longrightarrow> \<not> P (xs ! j)"
proof (induction xs arbitrary: i j)
  case Nil
  then show ?case by simp
next
  case (Cons x xs)
  then show ?case by (cases j) (auto split: if_splits)
qed

lemma find_index_append_Some: "find_index P xs = Some i \<Longrightarrow> find_index P (xs @ ys) = Some i"
  by (induction xs arbitrary: i) (auto split: if_splits)

lemma find_index_append_None:
  "\<forall>x \<in> set xs. \<not> P x \<Longrightarrow>
   find_index P (xs @ ys) = map_option (\<lambda>i. length xs + i) (find_index P ys)"
proof (induction xs)
  case Nil
  show ?case by (cases "find_index P ys") (simp_all add: option.map_ident)
next
  case (Cons x xs)
  then show ?case by (cases "find_index P ys") (simp_all del: find_index_None)
qed

lemma set_subseq: "subseq xs ys \<Longrightarrow> set xs \<subseteq> set ys"
  by (induction rule: list_emb.induct) auto

lemma find_SomeD: "find P xs = Some x \<Longrightarrow> x \<in> set xs \<and> P x"
  by (induction xs) (auto split: if_splits)

lemma find_index_exists: "x \<in> set xs \<Longrightarrow> P x \<Longrightarrow> \<exists>i. find_index P xs = Some i"
  using find_index_None [of P xs] by (cases "find_index P xs") auto

end
