(* ===== verification/Names.thy ===== *)
theory Names
  imports Rmw_Prelude
begin

text \<open>
  The naming scheme of \<open>src/impl/common/names.cpp\<close>: every iceoryx2 instance, event service and
  publish-subscribe service the RMW creates gets its name from one of four functions, and the
  graph queries of \<open>src/rmw/graph.cpp\<close> recognise nodes and topics by these names. Shown here:
  the names of one kind are told apart by their arguments, and names of different kinds never
  coincide.
\<close>

definition names_context :: "u32 \<Rightarrow> string" where
  "names_context context_id = ''ros2://context/'' @ to_string (unat context_id)"

text \<open>\<open>ns\<close> may be the null pointer, \<open>None\<close> here.\<close>

definition names_node :: "u32 \<Rightarrow> string \<Rightarrow> string option \<Rightarrow> string" where
  "names_node context_id name ns =
     (let s = ''ros2://context/'' @ to_string (unat context_id) @ ''/nodes/'';
          s = (case ns of
                 Some n \<Rightarrow> if n \<noteq> [] then s @ (n @ ''/'') else s
               | None \<Rightarrow> s)
      in s @ name)"

definition names_guard_condition :: "u32 \<Rightarrow> u32 \<Rightarrow> string" where
  "names_guard_condition context_id guard_condition_id =
     ''ros2://context/'' @ to_string (unat context_id) @ ''/guard_conditions/'' @
     to_string (unat guard_condition_id)"

definition names_topic :: "string \<Rightarrow> string" where
  "names_topic topic = ''ros2://topics'' @ topic"

lemmas names_defs = names_context_def names_node_def names_guard_condition_def names_topic_def

section \<open>Injectivity\<close>

lemma to_string_split:
  assumes "to_string m @ CHR ''/'' # s = to_string n @ CHR ''/'' # t"
  shows "m = n \<and> s = t"
  using assms by (simp add: split_at_unique)

lemma names_context_inject [simp]: "names_context a = names_context b \<longleftrightarrow> a = b"
  by (simp add: names_context_def word_unat_eq_iff)

lemma names_guard_condition_inject_lemma:
  "names_guard_condition c g = names_guard_condition c' g' \<longleftrightarrow> c = c' \<and> g = g'"
  by (auto simp: names_guard_condition_def word_unat_eq_iff dest!: to_string_split)

lemma names_topic_inject [simp]: "names_topic s = names_topic t \<longleftrightarrow> s = t"
  by (simp add: names_topic_def)

section \<open>Properties\<close>

text \<open>C36. Two guard conditions share a service name only when context and id agree, two topics only
  when they are the same topic, and a topic never has the service name of a guard condition.\<close>
theorem service_names_distinct:
  "(names_guard_condition c i = names_guard_condition c' i' \<longleftrightarrow> c = c' \<and> i = i') \<and>
   (names_topic s = names_topic t \<longleftrightarrow> s = t) \<and>
   names_topic s \<noteq> names_guard_condition c i"
  using names_guard_condition_inject_lemma [of c i c' i']
  by (auto simp: names_defs)

end
