(* ===== verification/Ordered_Set.thy ===== *)
theory Ordered_Set
  imports Rmw_Prelude
begin

text \<open>
  \<open>std::set\<close> as the code uses it: \<open>emplace\<close> into a set ordered by \<open>operator<\<close>, then iteration in
  order. The set is the list its iteration yields.
\<close>

fun set_emplace :: "'a::linorder \<Rightarrow> 'a list \<Rightarrow> 'a list" where
  "set_emplace x [] = [x]"
| "set_emplace x (y # ys) =
     (if x < y then x # y # ys
      else if y < x then y # set_emplace x ys
      else y # ys)"

lemma set_set_emplace [simp]: "set (set_emplace x ys) = insert x (set ys)"
  by (induction ys) auto

lemma sorted_set_emplace: "sorted_wrt (<) ys \<Longrightarrow> sorted_wrt (<) (set_emplace x ys)"
  by (induction ys) (auto intro: less_trans)

lemma sorted_list_of_set_unique:
  "sorted_wrt (<) (xs :: 'a::linorder list) \<Longrightarrow> sorted_list_of_set (set xs) = xs"
  by (metis sorted_list_of_set.idem_if_sorted_distinct strict_sorted_iff)

end
