(* ===== verification/Graph_Names.thy ===== *)
theory Graph_Names
  imports Names Ordered_Set "HOL-Library.List_Lexorder" "HOL-Library.Char_ord"
begin

text \<open>
  The helper classes \<open>NodeName\<close> and \<open>TopicDetails\<close> of \<open>src/rmw/graph.cpp\<close>: the parsers that
  recover ROS nodes and topics from iceoryx2 names, and the orders \<open>std::set\<close> keeps them in.
  The parsers invert the naming scheme of theory Names on the names it produces; the interface
  between the two is the locale \<open>name_codec\<close>.
\<close>

section \<open>NodeName\<close>

datatype node_name = NodeName (node_ns: string) (node_nm: string)

definition node_name_less :: "node_name \<Rightarrow> node_name \<Rightarrow> bool" where
  "node_name_less a b =
     (if node_ns a \<noteq> node_ns b then node_ns a < node_ns b else node_nm a < node_nm b)"

definition parse_name :: "string \<Rightarrow> node_name option" where
  "parse_name full_name =
     (let ROS2_PREFIX = ''ros2://context/'' in
      if take (length ROS2_PREFIX) full_name \<noteq> ROS2_PREFIX then None
      else
        let NODES_MARKER = ''/nodes/'' in
        case str_find NODES_MARKER full_name of
          None \<Rightarrow> None
        | Some nodes_pos \<Rightarrow>
            let node_part = drop (nodes_pos + length NODES_MARKER) full_name in
            if node_part = [] then None
            else case find_last_of (CHR ''/'') node_part of
                   None \<Rightarrow> Some (NodeName [] node_part)
                 | Some last_slash \<Rightarrow>
                     Some (NodeName (take last_slash node_part) (drop (Suc last_slash) node_part)))"

section \<open>TopicDetails\<close>

datatype topic_details = TopicDetails (topic_name: string) (topic_type: string)

definition topic_details_less :: "topic_details \<Rightarrow> topic_details \<Rightarrow> bool" where
  "topic_details_less a b =
     (if topic_name a \<noteq> topic_name b then topic_name a < topic_name b
      else topic_type a < topic_type b)"

definition parse_topic_name :: "string \<Rightarrow> string option" where
  "parse_topic_name full_name =
     (let ROS2_PREFIX = ''ros2://topics'' in
      if take (length ROS2_PREFIX) full_name \<noteq> ROS2_PREFIX then None
      else
        let topic_part = drop (length ROS2_PREFIX) full_name in
        if topic_part = [] then None else Some topic_part)"

section \<open>The orders are linear\<close>

text \<open>
  \<open>std::set\<close> needs a strict weak order; both comparisons are linear orders, so the sets hold
  exactly the distinct values.
\<close>

instantiation node_name :: linorder
begin
definition less_node_name :: "node_name \<Rightarrow> node_name \<Rightarrow> bool" where
  "less_node_name = node_name_less"
definition less_eq_node_name :: "node_name \<Rightarrow> node_name \<Rightarrow> bool" where
  "less_eq_node_name a b \<longleftrightarrow> node_name_less a b \<or> a = b"
instance
proof (standard, goal_cases)
  case (1 x y)
  show ?case by (cases x; cases y) (auto simp: less_node_name_def less_eq_node_name_def node_name_less_def)
next
  case (2 x)
  show ?case by (simp add: less_eq_node_name_def)
next
  case (3 x y z)
  then show ?case
    by (cases x; cases y; cases z) (auto simp: less_eq_node_name_def node_name_less_def split: if_splits)
next
  case (4 x y)
  then show ?case
    by (cases x; cases y) (auto simp: less_eq_node_name_def node_name_less_def split: if_splits)
next
  case (5 x y)
  show ?case by (cases x; cases y) (auto simp: less_eq_node_name_def node_name_less_def)
qed
end

instantiation topic_details :: linorder
begin
definition less_topic_details :: "topic_details \<Rightarrow> topic_details \<Rightarrow> bool" where
  "less_topic_details = topic_details_less"
definition less_eq_topic_details :: "topic_details \<Rightarrow> topic_details \<Rightarrow> bool" where
  "less_eq_topic_details a b \<longleftrightarrow> topic_details_less a b \<or> a = b"
instance
proof (standard, goal_cases)
  case (1 x y)
  show ?case by (cases x; cases y) (auto simp: less_topic_details_def less_eq_topic_details_def topic_details_less_def)
next
  case (2 x)
  show ?case by (simp add: less_eq_topic_details_def)
next
  case (3 x y z)
  then show ?case
    by (cases x; cases y; cases z) (auto simp: less_eq_topic_details_def topic_details_less_def split: if_splits)
next
  case (4 x y)
  then show ?case
    by (cases x; cases y) (auto simp: less_eq_topic_details_def topic_details_less_def split: if_splits)
next
  case (5 x y)
  show ?case by (cases x; cases y) (auto simp: less_eq_topic_details_def topic_details_less_def)
qed
end

section \<open>Parsing the names the RMW creates\<close>

lemma nodes_marker_position:
  assumes "\<forall>c \<in> set d. is_digit c" and "d \<noteq> []"
  shows "str_find ''/nodes/'' (''ros2://context/'' @ d @ ''/nodes/'' @ rest) = Some (15 + length d)"
proof -
  obtain x d' where d: "d = x # d'" using assms(2) by (cases d) auto
  have x: "x \<noteq> CHR ''n''" using assms(1) d by (auto simp: is_digit_def)
  have "str_find ''/nodes/'' (d @ ''/nodes/'' @ rest) =
      map_option (\<lambda>i. length d + i) (str_find ''/nodes/'' (''/nodes/'' @ rest))"
    using assms(1) slash_not_digit by (intro str_find_skip) auto
  then have "str_find ''/nodes/'' (d @ ''/nodes/'' @ rest) = Some (length d)"
    by (simp add: str_find_here del: append.simps)
  with x d show ?thesis by simp
qed

lemma parse_names_node:
  assumes "name \<noteq> []" and "CHR ''/'' \<notin> set name"
  shows "parse_name (names_node ctx name ns) =
    Some (NodeName (case ns of Some n \<Rightarrow> n | None \<Rightarrow> []) name)"
proof -
  let ?d = "to_string (unat ctx)"
  let ?mid = "case ns of Some n \<Rightarrow> if n = [] then [] else n @ ''/'' | None \<Rightarrow> []"
  let ?full = "names_node ctx name ns"
  have full: "?full = ''ros2://context/'' @ ?d @ ''/nodes/'' @ ?mid @ name"
    by (simp add: names_node_def Let_def split: option.split)
  have prefix: "take (length ''ros2://context/'') ?full = ''ros2://context/''"
    by (simp add: full)
  have pos: "str_find ''/nodes/'' ?full = Some (15 + length ?d)"
    unfolding full by (rule nodes_marker_position [OF to_string_digits to_string_nonempty])
  have full': "?full = (''ros2://context/'' @ ?d @ ''/nodes/'') @ (?mid @ name)"
    unfolding full by (simp only: append_assoc)
  have part: "drop (15 + length ?d + length ''/nodes/'') ?full = ?mid @ name"
    unfolding full' by (rule drop_at) simp
  have "parse_name ?full =
      (if ?mid @ name = [] then None
       else case find_last_of (CHR ''/'') (?mid @ name) of
              None \<Rightarrow> Some (NodeName [] (?mid @ name))
            | Some k \<Rightarrow> Some (NodeName (take k (?mid @ name)) (drop (Suc k) (?mid @ name))))"
    unfolding parse_name_def Let_def prefix pos option.case part by simp
  also have "\<dots> = Some (NodeName (case ns of Some n \<Rightarrow> n | None \<Rightarrow> []) name)"
    using assms by (auto simp: find_last_of_None [THEN iffD2] find_last_of_split split: option.split)
  finally show ?thesis .
qed

lemma parse_names_topic: "topic \<noteq> [] \<Longrightarrow> parse_topic_name (names_topic topic) = Some topic"
  by (simp add: parse_topic_name_def names_topic_def)

section \<open>The codec interface\<close>

text \<open>
  What the graph functions rely on: a name that was encoded for an admissible value decodes to the
  part of the value they report (its \<open>view\<close>).
\<close>

locale name_codec =
  fixes enc :: "'a \<Rightarrow> string" and dec :: "string \<Rightarrow> 'b option"
    and ok :: "'a \<Rightarrow> bool" and view :: "'a \<Rightarrow> 'b"
  assumes dec_enc: "ok x \<Longrightarrow> dec (enc x) = Some (view x)"
begin

lemma enc_view: "ok x \<Longrightarrow> ok y \<Longrightarrow> enc x = enc y \<Longrightarrow> view x = view y"
  using dec_enc [of x] dec_enc [of y] by simp

text \<open>Decoding names among which are the encodings of admissible values finds all of those.\<close>

lemma decoded_complete:
  "ok x \<Longrightarrow> enc x \<in> N \<Longrightarrow> \<exists>n \<in> N. dec n = Some (view x)"
  using dec_enc by blast

lemma decode_all: "\<forall>x \<in> set xs. ok x \<Longrightarrow> map (dec \<circ> enc) xs = map (Some \<circ> view) xs"
  by (simp add: dec_enc)

end

type_synonym node_key = "u32 \<times> string \<times> string option"

definition encode_node :: "node_key \<Rightarrow> string" where
  "encode_node = (\<lambda>(ctx, name, ns). names_node ctx name ns)"

definition node_key_ok :: "node_key \<Rightarrow> bool" where
  "node_key_ok = (\<lambda>(ctx, name, ns). name \<noteq> [] \<and> CHR ''/'' \<notin> set name)"

definition node_key_view :: "node_key \<Rightarrow> node_name" where
  "node_key_view = (\<lambda>(ctx, name, ns). NodeName (case ns of Some n \<Rightarrow> n | None \<Rightarrow> []) name)"

interpretation node_codec: name_codec encode_node parse_name node_key_ok node_key_view
  by unfold_locales
    (auto simp: encode_node_def node_key_ok_def node_key_view_def parse_names_node split: prod.splits)

interpretation topic_codec: name_codec names_topic parse_topic_name "\<lambda>t. t \<noteq> []" "\<lambda>t. t"
  by unfold_locales (rule parse_names_topic)

lemma parse_topic_name_iff: "parse_topic_name s = Some t \<longleftrightarrow> t \<noteq> [] \<and> s = names_topic t"
proof
  assume r: "parse_topic_name s = Some t"
  then have "take (length ''ros2://topics'') s = ''ros2://topics''"
    and t: "t = drop (length ''ros2://topics'') s" "t \<noteq> []"
    unfolding parse_topic_name_def Let_def by (simp_all only: option.inject split: if_splits) simp_all
  then have "s = ''ros2://topics'' @ t" by (metis append_take_drop_id)
  with t show "t \<noteq> [] \<and> s = names_topic t" by (simp add: names_topic_def)
next
  assume "t \<noteq> [] \<and> s = names_topic t"
  then show "parse_topic_name s = Some t" using topic_codec.dec_enc [of t] by simp
qed

section \<open>Properties\<close>

text \<open>C34. The name the RMW gives the iceoryx2 instance of a node is read back as the node's name and
  namespace by the graph queries, for every context id, every namespace, and every name that is not
  empty and has no slash in it (which valid ROS node names are).\<close>
theorem node_name_round_trip:
  assumes "name \<noteq> []" and "CHR ''/'' \<notin> set name"
  shows "parse_name (names_node ctx name ns) = Some (NodeName (case ns of Some n \<Rightarrow> n | None \<Rightarrow> []) name)"
  using node_codec.dec_enc [of "(ctx, name, ns)"] assms
  by (simp add: encode_node_def node_key_ok_def node_key_view_def)

text \<open>The node \<open>talker\<close> in \<open>/demo\<close>.\<close>
theorem node_name_round_trip_witness:
  "parse_name (names_node 42 ''talker'' (Some ''/demo'')) = Some (NodeName ''/demo'' ''talker'')"
  by (simp add: node_name_round_trip)

text \<open>C35. The service name of a topic is read back as the topic's name by the graph queries, and no
  name outside the scheme is taken for a topic: what is read is exactly what was encoded.\<close>
theorem topic_name_round_trip:
  "parse_topic_name s = Some t \<longleftrightarrow> t \<noteq> [] \<and> s = names_topic t"
  by (rule parse_topic_name_iff)

end
