(* ===== verification/Iox2_Api.thy ===== *)
theory Iox2_Api
  imports Rmw_Prelude
begin

text \<open>
  The iceoryx2 C++ bindings, which are not part of the repository: the record \<open>iox2\<close> has one field
  for every library function the code calls, over a runtime state \<open>'i\<close> the model leaves open, and
  every definition that calls the library takes the record as an argument. Ports, services, node
  instances, wait sets and guards are handles (numbers); an \<open>iox::expected\<close> error is the text
  \<open>iox::into<const char*>\<close> gives for it. The destructors of library values with an effect (a sample
  returns its memory, a guard detaches, a port or instance closes) are library functions too; the
  short-lived service factories a constructor obtains its ports from have no such effect here.

  The contracts below state documented behaviour of the library, for the theorems that need it:
  how loaned samples are accounted for, and what a valid service name is.
\<close>

datatype service_type = Local | Ipc

text \<open>The settings of a publish-subscribe service; \<open>None\<close> is a setter that is not called.\<close>

record pubsub_config =
  max_publishers :: "nat option"
  max_subscribers :: "nat option"
  history_size :: "nat option"
  subscriber_max_buffer_size :: "nat option"
  payload_alignment :: "nat option"

definition default_pubsub_config :: pubsub_config where
  "default_pubsub_config =
     \<lparr>max_publishers = None, max_subscribers = None, history_size = None,
      subscriber_max_buffer_size = None, payload_alignment = None\<rparr>"

text \<open>A sample: the address and length of its payload, and the library's own key for it.\<close>

record sample =
  smp_data :: ptr
  smp_len :: nat
  smp_key :: nat

datatype messaging_pattern = PublishSubscribe | Event | OtherPattern

text \<open>What \<open>Node::list\<close> reports: the name of a node that is alive and has readable details.\<close>

datatype node_state = NodeAlive "string option" | NodeNotAlive

record service_details =
  static_name :: string
  static_pattern :: messaging_pattern

datatype log_level = Log_Trace | Log_Debug | Log_Info | Log_Warn | Log_Error | Log_Fatal

record 'i iox2 =
  node_name_create :: "string \<Rightarrow> string + string"
  node_create :: "service_type \<Rightarrow> string \<Rightarrow> 'i \<Rightarrow> (string + nat) \<times> 'i"
  node_drop :: "nat \<Rightarrow> 'i \<Rightarrow> 'i"
  service_name_create :: "string \<Rightarrow> string + string"
  event_open_or_create :: "nat \<Rightarrow> string \<Rightarrow> 'i \<Rightarrow> (string + nat) \<times> 'i"
  pubsub_open_or_create :: "nat \<Rightarrow> string \<Rightarrow> pubsub_config \<Rightarrow> 'i \<Rightarrow> (string + nat) \<times> 'i"
  notifier_create :: "nat \<Rightarrow> 'i \<Rightarrow> (string + nat) \<times> 'i"
  listener_create :: "nat \<Rightarrow> 'i \<Rightarrow> (string + nat) \<times> 'i"
  publisher_create :: "nat \<Rightarrow> nat \<Rightarrow> 'i \<Rightarrow> (string + nat) \<times> 'i"
  subscriber_create :: "nat \<Rightarrow> 'i \<Rightarrow> (string + nat) \<times> 'i"
  port_drop :: "nat \<Rightarrow> 'i \<Rightarrow> 'i"
  port_id_bytes :: "nat \<Rightarrow> u8 list option"
  notify :: "nat \<Rightarrow> nat option \<Rightarrow> 'i \<Rightarrow> (string + nat) \<times> 'i"
  loan_slice_uninit :: "nat \<Rightarrow> nat \<Rightarrow> 'i \<Rightarrow> (string + sample) \<times> 'i"
  sample_send :: "sample \<Rightarrow> 'i \<Rightarrow> (string + nat) \<times> 'i"
  sample_drop :: "sample \<Rightarrow> 'i \<Rightarrow> 'i"
  send_slice_copy :: "nat \<Rightarrow> u8 list \<Rightarrow> 'i \<Rightarrow> (string + nat) \<times> 'i"
  receive :: "nat \<Rightarrow> 'i \<Rightarrow> (string + sample option) \<times> 'i"
  read_bytes :: "ptr \<Rightarrow> nat \<Rightarrow> 'i \<Rightarrow> u8 list"
  write_bytes :: "ptr \<Rightarrow> u8 list \<Rightarrow> 'i \<Rightarrow> 'i"
  waitset_create :: "'i \<Rightarrow> (string + nat) \<times> 'i"
  waitset_drop :: "nat \<Rightarrow> 'i \<Rightarrow> 'i"
  attach_notification :: "nat \<Rightarrow> nat \<Rightarrow> 'i \<Rightarrow> (string + nat) \<times> 'i"
  attach_interval :: "nat \<Rightarrow> nat \<Rightarrow> 'i \<Rightarrow> (string + nat) \<times> 'i"
  attachment_from_guard :: "nat \<Rightarrow> nat"
  guard_drop :: "nat \<Rightarrow> 'i \<Rightarrow> 'i"
  wait_once :: "nat \<Rightarrow> nat option \<Rightarrow> 'i \<Rightarrow> (string + nat list) \<times> 'i"
  try_wait_all :: "nat \<Rightarrow> 'i \<Rightarrow> (string + nat) \<times> 'i"
  duration_from_seconds :: "u64 \<Rightarrow> nat"
  duration_from_nanoseconds :: "u64 \<Rightarrow> nat"
  duration_add :: "nat \<Rightarrow> nat \<Rightarrow> nat"
  node_list :: "'i \<Rightarrow> string + node_state list"
  service_list :: "'i \<Rightarrow> string + service_details list"
  set_log_level :: "log_level \<Rightarrow> 'i \<Rightarrow> 'i"

text \<open>The payload of a sample is \<open>read_bytes\<close> of its slice of the shared memory.\<close>

definition payload_bytes :: "'i iox2 \<Rightarrow> sample \<Rightarrow> 'i \<Rightarrow> u8 list" where
  "payload_bytes api s i = read_bytes api (smp_data s) (smp_len s) i"

section \<open>Contracts\<close>

text \<open>
  Loans of the publisher port \<open>port\<close>. \<open>loaned i\<close> is the set of payload addresses of its samples that
  are out in state \<open>i\<close>. A new loan has an address that is not null and not out already; sending or
  dropping a sample ends its loan; copying, notifying and writing into a payload leave the loans
  alone, and so does closing a port.
\<close>

definition loan_contract :: "'i iox2 \<Rightarrow> nat \<Rightarrow> ('i \<Rightarrow> ptr set) \<Rightarrow> bool" where
  "loan_contract api port loaned \<longleftrightarrow>
     (\<forall>n i s i'. loan_slice_uninit api port n i = (Inr s, i') \<longrightarrow>
        smp_data s \<noteq> nullptr \<and> smp_data s \<notin> loaned i \<and> loaned i' = insert (smp_data s) (loaned i)) \<and>
     (\<forall>n i e i'. loan_slice_uninit api port n i = (Inl e, i') \<longrightarrow> loaned i' = loaned i) \<and>
     (\<forall>s i. loaned (snd (sample_send api s i)) = loaned i - {smp_data s}) \<and>
     (\<forall>s i. loaned (sample_drop api s i) = loaned i - {smp_data s}) \<and>
     (\<forall>p bs i. loaned (snd (send_slice_copy api p bs i)) = loaned i) \<and>
     (\<forall>p e i. loaned (snd (notify api p e i)) = loaned i) \<and>
     (\<forall>a bs i. loaned (write_bytes api a bs i) = loaned i) \<and>
     (\<forall>p i. loaned (port_drop api p i) = loaned i)"

text \<open>
  Received samples of the subscriber port \<open>port\<close>: the same accounting for the samples \<open>receive\<close>
  hands out.
\<close>

definition receive_contract :: "'i iox2 \<Rightarrow> nat \<Rightarrow> ('i \<Rightarrow> ptr set) \<Rightarrow> bool" where
  "receive_contract api port held \<longleftrightarrow>
     (\<forall>i s i'. receive api port i = (Inr (Some s), i') \<longrightarrow>
        smp_data s \<noteq> nullptr \<and> smp_data s \<notin> held i \<and> held i' = insert (smp_data s) (held i)) \<and>
     (\<forall>i i'. receive api port i = (Inr None, i') \<longrightarrow> held i' = held i) \<and>
     (\<forall>i e i'. receive api port i = (Inl e, i') \<longrightarrow> held i' = held i) \<and>
     (\<forall>s i. held (sample_drop api s i) = held i - {smp_data s}) \<and>
     (\<forall>p i. held (port_drop api p i) = held i) \<and>
     (\<forall>a bs i. held (write_bytes api a bs i) = held i)"

lemma loan_contractD:
  assumes "loan_contract api port loaned"
  shows "loan_slice_uninit api port n i = (Inr s, i') \<Longrightarrow> smp_data s \<noteq> nullptr"
    and "loan_slice_uninit api port n i = (Inr s, i') \<Longrightarrow> smp_data s \<notin> loaned i"
    and "loan_slice_uninit api port n i = (Inr s, i') \<Longrightarrow> loaned i' = insert (smp_data s) (loaned i)"
    and "loan_slice_uninit api port n i = (Inl e, i') \<Longrightarrow> loaned i' = loaned i"
    and "loaned (snd (sample_send api s i)) = loaned i - {smp_data s}"
    and "loaned (sample_drop api s i) = loaned i - {smp_data s}"
    and "loaned (snd (send_slice_copy api p bs i)) = loaned i"
    and "loaned (snd (notify api p ev i)) = loaned i"
    and "loaned (write_bytes api a bs i) = loaned i"
    and "loaned (port_drop api p i) = loaned i"
  using assms unfolding loan_contract_def by (elim conjE; simp)+

lemma receive_contractD:
  assumes "receive_contract api port held"
  shows "receive api port i = (Inr (Some s), i') \<Longrightarrow> smp_data s \<noteq> nullptr"
    and "receive api port i = (Inr (Some s), i') \<Longrightarrow> smp_data s \<notin> held i"
    and "receive api port i = (Inr (Some s), i') \<Longrightarrow> held i' = insert (smp_data s) (held i)"
    and "receive api port i = (Inr None, i') \<Longrightarrow> held i' = held i"
    and "receive api port i = (Inl e, i') \<Longrightarrow> held i' = held i"
    and "held (sample_drop api s i) = held i - {smp_data s}"
    and "held (port_drop api p i) = held i"
    and "held (write_bytes api a bs i) = held i"
  using assms unfolding receive_contract_def by (elim conjE; metis)+

text \<open>
  Guards of the iceoryx2 wait set: \<open>guards i\<close> is the set of guards that are out in state \<open>i\<close>.
  Attaching hands out a new guard or fails; dropping a guard detaches; waiting, draining and
  reporting leave the guards alone.
\<close>

definition guard_contract :: "'i iox2 \<Rightarrow> nat \<Rightarrow> ('i \<Rightarrow> nat set) \<Rightarrow> bool" where
  "guard_contract api waitset guards \<longleftrightarrow>
     (\<forall>l i g i'. attach_notification api waitset l i = (Inr g, i') \<longrightarrow>
        g \<notin> guards i \<and> guards i' = insert g (guards i)) \<and>
     (\<forall>l i e i'. attach_notification api waitset l i = (Inl e, i') \<longrightarrow> guards i' = guards i) \<and>
     (\<forall>t i g i'. attach_interval api waitset t i = (Inr g, i') \<longrightarrow>
        g \<notin> guards i \<and> guards i' = insert g (guards i)) \<and>
     (\<forall>t i e i'. attach_interval api waitset t i = (Inl e, i') \<longrightarrow> guards i' = guards i) \<and>
     (\<forall>g i. guards (guard_drop api g i) = guards i - {g}) \<and>
     (\<forall>t i. guards (snd (wait_once api waitset t i)) = guards i) \<and>
     (\<forall>l i. guards (snd (try_wait_all api l i)) = guards i)"

lemma guard_contractD:
  assumes "guard_contract api waitset guards"
  shows "attach_notification api waitset l i = (Inr g, i') \<Longrightarrow> g \<notin> guards i"
    and "attach_notification api waitset l i = (Inr g, i') \<Longrightarrow> guards i' = insert g (guards i)"
    and "attach_notification api waitset l i = (Inl e, i') \<Longrightarrow> guards i' = guards i"
    and "attach_interval api waitset t i = (Inr g, i') \<Longrightarrow> g \<notin> guards i"
    and "attach_interval api waitset t i = (Inr g, i') \<Longrightarrow> guards i' = insert g (guards i)"
    and "attach_interval api waitset t i = (Inl e, i') \<Longrightarrow> guards i' = guards i"
    and "guards (guard_drop api g i) = guards i - {g}"
    and "guards (snd (wait_once api waitset tm i)) = guards i"
    and "guards (snd (try_wait_all api l i)) = guards i"
  using assms unfolding guard_contract_def by (elim conjE; metis)+

end
