(* ===== verification/Creation.thy ===== *)
theory Creation
  imports Iox2_Api
begin

text \<open>
  The creation pattern of \<open>impl/common/create.hpp\<close>: constructors do not throw, they report failure
  through an \<open>iox::optional\<close> out-parameter and leave a partly built object behind; \<open>create\<close> and
  \<open>create_in_place\<close> turn that into an \<open>iox::expected\<close>. The creation lock that keeps other code from
  calling the constructors is a compile-time access check and has no counterpart here.

  A constructor is a function of the state that returns the object, the error it reported and the
  new state. The contract every class of the runtime meets is the locale \<open>fallible_class\<close>: it is
  interpreted for each of them in the theory of the class.
\<close>

type_synonym ('s, 't, 'e) ctor = "'s \<Rightarrow> (('t \<times> 'e option) \<times> 's) option"

text \<open>\<open>create\<close>: the object is moved out on success and destroyed on failure.\<close>

definition create_object :: "('s, 't, 'e) ctor \<Rightarrow> 's \<Rightarrow> (('e + 't) \<times> 's) option" where
  "create_object ctor w =
     do { ((obj, error), w) \<leftarrow> ctor w;
          Some (case error of
                  Some e \<Rightarrow> (Inl e, w)
                | None \<Rightarrow> (Inr obj, w)) }"

text \<open>
  \<open>create_in_place\<close> into an \<open>iox::optional\<close>: the storage holds the object afterwards, also when
  construction failed.
\<close>

definition create_in_place :: "('s, 't, 'e) ctor \<Rightarrow> 's \<Rightarrow> (('e + unit) \<times> 't option \<times> 's) option" where
  "create_in_place ctor w =
     do { ((obj, error), w) \<leftarrow> ctor w;
          Some (case error of
                  Some e \<Rightarrow> (Inl e, Some obj, w)
                | None \<Rightarrow> (Inr (), Some obj, w)) }"

section \<open>The contract of a fallible constructor\<close>

text \<open>
  What a constructor call must come to: it returns; without a reported error the object is complete
  (\<open>good\<close>), and with one the state carries an error message (\<open>err\<close> reads it).
\<close>

definition ctor_ok :: "('t \<Rightarrow> bool) \<Rightarrow> ('s \<Rightarrow> string option) \<Rightarrow> (('t \<times> 'e option) \<times> 's) option \<Rightarrow> bool" where
  "ctor_ok good err r =
     (case r of
        None \<Rightarrow> False
      | Some ((obj, None), s) \<Rightarrow> good obj
      | Some ((obj, Some e), s) \<Rightarrow> err s \<noteq> None)"

lemma ctor_ok_simps [simp]:
  "\<not> ctor_ok good err None"
  "ctor_ok good err (Some ((obj, None), s)) = good obj"
  "ctor_ok good err (Some ((obj, Some e), s)) = (err s \<noteq> None)"
  by (simp_all add: ctor_ok_def)

lemma ctor_okE:
  assumes "ctor_ok good err r"
  obtains obj s where "r = Some ((obj, None), s)" "good obj"
  | obj e s where "r = Some ((obj, Some e), s)" "err s \<noteq> None"
  using assms by (auto simp: ctor_ok_def split: option.splits prod.splits)

locale fallible_class =
  fixes ctor :: "('s, 't, 'e) ctor"
    and pre :: "'s \<Rightarrow> bool"
    and good :: "'t \<Rightarrow> bool"
    and err :: "'s \<Rightarrow> string option"
  assumes outcome: "pre s \<Longrightarrow> ctor_ok good err (ctor s)"
begin

lemma create_in_place_cases:
  assumes "pre s"
  obtains e obj s' where "create_in_place ctor s = Some (Inl e, Some obj, s')" "err s' \<noteq> None"
  | obj s' where "create_in_place ctor s = Some (Inr (), Some obj, s')" "good obj"
  using outcome [OF assms] by (elim ctor_okE) (auto simp: create_in_place_def intro: that)

lemma create_in_place_returns: "pre s \<Longrightarrow> create_in_place ctor s \<noteq> None"
  by (rule create_in_place_cases [of s]) auto

lemma create_in_place_complete:
  "pre s \<Longrightarrow> create_in_place ctor s = Some (Inr u, st, s') \<Longrightarrow> \<exists>obj. st = Some obj \<and> good obj"
  by (rule create_in_place_cases [of s]) auto

lemma create_in_place_message:
  "pre s \<Longrightarrow> create_in_place ctor s = Some (Inl e, st, s') \<Longrightarrow> err s' \<noteq> None"
  by (rule create_in_place_cases [of s]) auto

lemma create_object_cases:
  assumes "pre s"
  obtains e s' where "create_object ctor s = Some (Inl e, s')" "err s' \<noteq> None"
  | obj s' where "create_object ctor s = Some (Inr obj, s')" "good obj"
  using outcome [OF assms] by (elim ctor_okE) (auto simp: create_object_def intro: that)

end

lemma create_in_place_ctor:
  "create_in_place ctor s = Some (Inl e, Some obj, s') \<Longrightarrow> ctor s = Some ((obj, Some e), s')"
  "create_in_place ctor s = Some (Inr u, Some obj, s') \<Longrightarrow> ctor s = Some ((obj, None), s')"
  by (auto simp: create_in_place_def split: Option.bind_splits option.splits)

end
