(* ===== verification/Ros_Env.thy ===== *)
theory Ros_Env
  imports Rmw_Prelude
begin

text \<open>
  The ROS libraries the code calls and that are not part of the repository: rosidl type supports,
  the name validators of the rmw package, and the allocator behind \<open>rmw_allocate\<close>. A message in
  user memory is a value of a type \<open>'m\<close> the model leaves open.
\<close>

section \<open>Introspection data\<close>

text \<open>
  The description rosidl generates for a message type. The C and C++ structures have the same
  fields. \<open>members_ptr\<close> is \<open>member->members_\<close>, a type support pointer: \<open>None\<close> when it is null,
  \<open>Some None\<close> when its \<open>data\<close> is null. \<open>members_\<close> with \<open>member_count_\<close> is a list.
\<close>

datatype ros_type = ROS_TYPE_STRING | ROS_TYPE_WSTRING | ROS_TYPE_MESSAGE | ROS_TYPE_PRIMITIVE nat

datatype message_members = MessageMembers (size_of: nat) (members: "message_member list")
  and message_member = MessageMember (type_id: ros_type) (is_array: bool) (array_size: nat)
    (is_upper_bound: bool) (members_ptr: "message_members option option")

section \<open>Quality of service\<close>

text \<open>
  A \<open>rmw_qos_profile_t\<close>: the four policies the code inspects, each unknown or one of the values the
  rmw package lists, and the flag for topic names outside the ROS conventions.
\<close>

datatype qos_policy = POLICY_UNKNOWN | POLICY nat

record rmw_qos_profile =
  qos_history :: qos_policy
  qos_reliability :: qos_policy
  qos_durability :: qos_policy
  qos_liveliness :: qos_policy
  qos_avoid_ros_namespace_conventions :: bool

section \<open>The libraries\<close>

text \<open>
  The callbacks of the Fast-CDR type support. \<open>cdr_serialize\<close> gets the message and the capacity of
  the buffer, and says whether it finished without throwing and what it has written until then;
  \<open>cdr_deserialize\<close> gets the buffer and the message to overwrite, and says whether it finished
  without throwing. The flag they return when they do not throw is ignored by the code.
\<close>

record 'm callbacks =
  get_serialized_size :: "'m \<Rightarrow> u32"
  cdr_serialize :: "'m \<Rightarrow> nat \<Rightarrow> bool \<times> u8 list"
  cdr_deserialize :: "u8 list \<Rightarrow> 'm \<Rightarrow> bool \<times> 'm"

text \<open>
  \<open>get_message_typesupport_handle\<close>, one field for each identifier it is called with: \<open>Inl m\<close> is a
  null handle, after the library set the error message to \<open>m\<close> if there is one; \<open>Inr d\<close> is a handle
  with \<open>data\<close> field \<open>d\<close> (\<open>None\<close>: null). Type supports are pointers. The validators return \<open>Inl\<close> when
  the call itself fails and otherwise the reason why a name is invalid, if any. \<open>alloc_ok n\<close> says
  whether the \<open>n\<close>-th request to the allocator succeeds, and \<open>fresh_ptr n\<close> is what a pointer in the
  memory it returns holds before the code writes it (null with a zeroing allocator). \<open>string_array_init n size\<close> is the failure of \<open>rcutils_string_array_init\<close>, if any, when it makes that
  request: the code after conversion to the RMW's and the message. An
  \<open>rcutils_allocator_t\<close> is a number; \<open>allocator_is_valid\<close> is the check of rcutils. The last three
  are constants of the rmw package.
\<close>

type_synonym 'd ts_handle = "string option + 'd option"

record 'm ros_env =
  introspection_cpp :: "ptr \<Rightarrow> message_members ts_handle"
  introspection_c :: "ptr \<Rightarrow> message_members ts_handle"
  fastrtps_cpp :: "ptr \<Rightarrow> 'm callbacks ts_handle"
  fastrtps_c :: "ptr \<Rightarrow> unit ts_handle"
  service_fastrtps_cpp :: "ptr \<Rightarrow> unit ts_handle"
  service_fastrtps_c :: "ptr \<Rightarrow> unit ts_handle"
  ts_data :: "ptr \<Rightarrow> ptr"
  msg_bytes :: "'m \<Rightarrow> nat \<Rightarrow> u8 list"
  msg_write :: "u8 list \<Rightarrow> 'm \<Rightarrow> 'm"
  validate_node_name :: "string \<Rightarrow> unit + string option"
  validate_namespace :: "string \<Rightarrow> unit + string option"
  validate_full_topic_name :: "string \<Rightarrow> unit + string option"
  alloc_ok :: "nat \<Rightarrow> bool"
  fresh_ptr :: "nat \<Rightarrow> ptr"
  allocator_is_valid :: "nat \<Rightarrow> bool"
  string_array_init :: "nat \<Rightarrow> nat \<Rightarrow> (rmw_ret \<times> string) option"
  qos_profile_default :: rmw_qos_profile
  qos_profile_services_default :: rmw_qos_profile
  gid_storage_size :: nat

definition typesupport_handle ::
  "'d ts_handle \<Rightarrow> ('i, 'z) sys_scheme \<Rightarrow> 'd option option \<times> ('i, 'z) sys_scheme" where
  "typesupport_handle h w =
     (case h of
        Inl None \<Rightarrow> (None, w)
      | Inl (Some msg) \<Rightarrow> (None, w\<lparr>errmsg := Some msg\<rparr>)
      | Inr d \<Rightarrow> (Some d, w))"

lemma iox_typesupport_handle [simp, frame]: "iox (snd (typesupport_handle h w)) = iox w"
  by (simp add: typesupport_handle_def split: sum.split option.split)

lemma more_typesupport_handle [simp, frame]: "sys.more (snd (typesupport_handle h w)) = sys.more w"
  by (simp add: typesupport_handle_def split: sum.split option.split)

end
