(* ===== verification/Sim_Middleware.thy ===== *)
theory Sim_Middleware
  imports Iox2_Api Ros_Env
begin

text \<open>
  A small concrete middleware and ROS environment. The theorems of the development hold for every
  library that meets the contracts of \<open>Iox2_Api\<close>; this one does, so the contracts can be met, and
  the witnesses of the theorems run on it. It hands out payload and guard addresses that are not in
  use (odd ones, apart from the objects of the process), receives \<open>sim_inbox\<close> many samples, and reports every attached guard as triggered.
\<close>

record sim =
  sim_loans :: "nat list"
  sim_held :: "nat list"
  sim_guards :: "nat list"
  sim_inbox :: nat
  sim_sent :: "nat list"

definition fresh :: "nat list \<Rightarrow> nat" where
  "fresh xs = Suc (2 * sum_list xs)"

lemma fresh_notin [simp]: "fresh xs \<notin> set xs"
  using member_le_sum_list [of "fresh xs" xs] by (auto simp: fresh_def)

lemma fresh_pos [simp]: "fresh xs \<noteq> 0" "0 < fresh xs" "odd (fresh xs)"
  by (simp_all add: fresh_def)

definition sim_remove :: "nat \<Rightarrow> sim \<Rightarrow> sim" where
  "sim_remove a i = i\<lparr>sim_loans := filter (\<lambda>x. x \<noteq> a) (sim_loans i),
                      sim_held := filter (\<lambda>x. x \<noteq> a) (sim_held i)\<rparr>"

definition sim_loan :: "nat \<Rightarrow> sim \<Rightarrow> (string + sample) \<times> sim" where
  "sim_loan n i =
     (let a = fresh (sim_loans i) in
      (Inr \<lparr>smp_data = a, smp_len = n, smp_key = a\<rparr>, i\<lparr>sim_loans := a # sim_loans i\<rparr>))"

definition sim_receive :: "sim \<Rightarrow> (string + sample option) \<times> sim" where
  "sim_receive i =
     (if sim_inbox i = 0 then (Inr None, i)
      else let a = fresh (sim_held i) in
        (Inr (Some \<lparr>smp_data = a, smp_len = 2, smp_key = a\<rparr>),
         i\<lparr>sim_held := a # sim_held i, sim_inbox := sim_inbox i - 1\<rparr>))"

definition sim_attach :: "sim \<Rightarrow> (string + nat) \<times> sim" where
  "sim_attach i = (let g = fresh (sim_guards i) in (Inr g, i\<lparr>sim_guards := g # sim_guards i\<rparr>))"

definition sim_api :: "sim iox2" where
  "sim_api =
     \<lparr>node_name_create = Inr, node_create = (\<lambda>t n i. (Inr 1, i)), node_drop = (\<lambda>n i. i),
      service_name_create = Inr, event_open_or_create = (\<lambda>n s i. (Inr 2, i)),
      pubsub_open_or_create = (\<lambda>n s c i. (Inr 3, i)), notifier_create = (\<lambda>s i. (Inr 4, i)),
      listener_create = (\<lambda>s i. (Inr 5, i)), publisher_create = (\<lambda>s n i. (Inr 6, i)),
      subscriber_create = (\<lambda>s i. (Inr 7, i)), port_drop = (\<lambda>p i. i),
      port_id_bytes = (\<lambda>p. Some [of_nat p, 1]),
      notify = (\<lambda>p e i. (Inr 1, i)),
      loan_slice_uninit = (\<lambda>p n i. sim_loan n i),
      sample_send = (\<lambda>s i. (Inr 1, (sim_remove (smp_data s) i)\<lparr>sim_sent := sim_sent i @ [smp_key s]\<rparr>)),
      sample_drop = (\<lambda>s i. sim_remove (smp_data s) i),
      send_slice_copy = (\<lambda>p bs i. (Inr 1, i\<lparr>sim_sent := sim_sent i @ [length bs]\<rparr>)),
      receive = (\<lambda>p i. sim_receive i), read_bytes = (\<lambda>a n i. [7, 8]), write_bytes = (\<lambda>a bs i. i),
      waitset_create = (\<lambda>i. (Inr 9, i)), waitset_drop = (\<lambda>n i. i),
      attach_notification = (\<lambda>ws l i. sim_attach i), attach_interval = (\<lambda>ws t i. sim_attach i),
      attachment_from_guard = (\<lambda>g. g), guard_drop = (\<lambda>g i. i\<lparr>sim_guards := filter (\<lambda>x. x \<noteq> g) (sim_guards i)\<rparr>),
      wait_once = (\<lambda>ws t i. (Inr (rev (sim_guards i)), i)), try_wait_all = (\<lambda>l i. (Inr 1, i)),
      duration_from_seconds = (\<lambda>s. 1000000000 * unat s), duration_from_nanoseconds = unat,
      duration_add = (+),
      node_list = (\<lambda>i. Inr [NodeAlive (Some ''ros2://context/0/nodes/demo/talker''),
                           NodeNotAlive, NodeAlive (Some ''other'')]),
      service_list = (\<lambda>i. Inr [\<lparr>static_name = ''ros2://topics/chatter'', static_pattern = PublishSubscribe\<rparr>]),
      set_log_level = (\<lambda>l i. i)\<rparr>"

definition sim_start :: sim where
  "sim_start = \<lparr>sim_loans = [], sim_held = [], sim_guards = [], sim_inbox = 1, sim_sent = []\<rparr>"

definition sim_sys :: "sim sys" where
  "sim_sys = \<lparr>errmsg = None, iox = sim_start\<rparr>"

text \<open>Type support 1 is self-contained (8 bytes); type support 2 holds a string.\<close>

definition sim_members :: "ptr \<Rightarrow> message_members" where
  "sim_members ts =
     MessageMembers 8 [MessageMember (if ts = 1 then ROS_TYPE_PRIMITIVE 1 else ROS_TYPE_STRING) False 0 False None]"

definition sim_qos :: rmw_qos_profile where
  "sim_qos = \<lparr>qos_history = POLICY 1, qos_reliability = POLICY 1, qos_durability = POLICY 2,
     qos_liveliness = POLICY 1, qos_avoid_ros_namespace_conventions = False\<rparr>"

definition sim_env :: "u8 list ros_env" where
  "sim_env =
     \<lparr>introspection_cpp = (\<lambda>ts. Inr (Some (sim_members ts))),
      introspection_c = (\<lambda>ts. Inr (Some (sim_members ts))),
      fastrtps_cpp = (\<lambda>ts. Inr (Some \<lparr>get_serialized_size = (\<lambda>m. of_nat (length m)),
        cdr_serialize = (\<lambda>m n. (length m \<le> n, take n m)), cdr_deserialize = (\<lambda>bs m. (True, bs))\<rparr>)),
      fastrtps_c = (\<lambda>ts. Inl None), service_fastrtps_cpp = (\<lambda>ts. Inr (Some ())),
      service_fastrtps_c = (\<lambda>ts. Inl None), ts_data = (\<lambda>ts. 1),
      msg_bytes = (\<lambda>m n. take n m), msg_write = (\<lambda>bs m. bs),
      validate_node_name = (\<lambda>s. Inr None), validate_namespace = (\<lambda>s. Inr None),
      validate_full_topic_name = (\<lambda>s. Inr None), alloc_ok = (\<lambda>n. True), fresh_ptr = (\<lambda>n. 0),
      allocator_is_valid = (\<lambda>a. True), string_array_init = (\<lambda>n size. None),
      qos_profile_default = sim_qos, qos_profile_services_default = sim_qos, gid_storage_size = 2\<rparr>"

section \<open>It meets the contracts\<close>

lemma sim_loan_contract: "loan_contract sim_api port (\<lambda>i. set (sim_loans i))"
  by (auto simp: loan_contract_def sim_api_def sim_loan_def sim_remove_def Let_def)

lemma sim_receive_contract: "receive_contract sim_api port (\<lambda>i. set (sim_held i))"
  by (auto simp: receive_contract_def sim_api_def sim_receive_def sim_remove_def Let_def split: if_splits)

lemma sim_guard_contract: "guard_contract sim_api port (\<lambda>i. set (sim_guards i))"
  by (auto simp: guard_contract_def sim_api_def sim_attach_def Let_def)

end
