(* ===== verification/Iceoryx2_Handle.thy ===== *)
theory Iceoryx2_Handle
  imports Creation Sim_Middleware
begin

text \<open>
  \<open>impl/middleware/iceoryx2\<close>: the class \<open>Iceoryx2\<close> owns two iceoryx2 instances, one for entities of
  this process and one for inter-process entities, under one name. A handle is complete when both
  exist; the accessors terminate the process otherwise.
\<close>

record iceoryx2 =
  m_local :: "nat option"
  m_ipc :: "nat option"

definition iceoryx2_wf :: "iceoryx2 \<Rightarrow> bool" where
  "iceoryx2_wf h \<longleftrightarrow> m_local h \<noteq> None \<and> m_ipc h \<noteq> None"

definition Iceoryx2_ctor ::
  "'i iox2 \<Rightarrow> string \<Rightarrow> (('i, 'z) sys_scheme, iceoryx2, HandleError) ctor" where
  "Iceoryx2_ctor api instance_name w =
     (let this = \<lparr>m_local = None, m_ipc = None\<rparr> in
      case node_name_create api instance_name of
        Inl e \<Rightarrow> Some ((this, Some INVALID_INSTANCE_NAME), chain e w)
      | Inr iox2_name \<Rightarrow>
        (case call (node_create api Local iox2_name) w of
           (Inl e, w) \<Rightarrow> Some ((this, Some ICEORYX_HANDLE_CREATION_FAILURE), chain e w)
         | (Inr local_node, w) \<Rightarrow>
           (let this = this\<lparr>m_local := Some local_node\<rparr> in
            case call (node_create api Ipc iox2_name) w of
              (Inl e, w) \<Rightarrow> Some ((this, Some ICEORYX_HANDLE_CREATION_FAILURE), chain e w)
            | (Inr ipc_node, w) \<Rightarrow> Some ((this\<lparr>m_ipc := Some ipc_node\<rparr>, None), w))))"

definition Iceoryx2_local :: "iceoryx2 \<Rightarrow> nat option" where
  "Iceoryx2_local h = (case m_local h of None \<Rightarrow> None | Some l \<Rightarrow> Some l)"

definition Iceoryx2_ipc :: "iceoryx2 \<Rightarrow> nat option" where
  "Iceoryx2_ipc h = (case m_ipc h of None \<Rightarrow> None | Some l \<Rightarrow> Some l)"

text \<open>
  The template \<open>service_builder\<close> validates the service name, ignores a failure of the validation
  and reads the name's value: an invalid name terminates the process. The result is the instance
  and the name the builder is made for.
\<close>

definition Iceoryx2_service_builder ::
  "'i iox2 \<Rightarrow> service_type \<Rightarrow> iceoryx2 \<Rightarrow> string \<Rightarrow> (nat \<times> string) option" where
  "Iceoryx2_service_builder api S h service_name =
     do { name \<leftarrow> (case service_name_create api service_name of Inl _ \<Rightarrow> None | Inr n \<Rightarrow> Some n);
          inst \<leftarrow> (case S of Local \<Rightarrow> Iceoryx2_local h | Ipc \<Rightarrow> Iceoryx2_ipc h);
          Some (inst, name) }"

text \<open>The implicit destructor closes the instances, in the reverse order of their declaration.\<close>

definition drop_opt :: "('a \<Rightarrow> 'i \<Rightarrow> 'i) \<Rightarrow> 'a option \<Rightarrow> 'i \<Rightarrow> 'i" where
  "drop_opt f x i = (case x of None \<Rightarrow> i | Some v \<Rightarrow> f v i)"

definition Iceoryx2_dtor :: "'i iox2 \<Rightarrow> iceoryx2 \<Rightarrow> 'i \<Rightarrow> 'i" where
  "Iceoryx2_dtor api h i = drop_opt (node_drop api) (m_local h) (drop_opt (node_drop api) (m_ipc h) i)"

lemma Iceoryx2_local_ipc [simp]:
  "Iceoryx2_local h = m_local h" "Iceoryx2_ipc h = m_ipc h"
  by (simp_all add: Iceoryx2_local_def Iceoryx2_ipc_def split: option.split)

lemma iceoryx2_wfE:
  assumes "iceoryx2_wf h"
  obtains l p where "m_local h = Some l" "m_ipc h = Some p"
  using assms by (auto simp: iceoryx2_wf_def)

lemma Iceoryx2_ctor_ok: "ctor_ok iceoryx2_wf errmsg (Iceoryx2_ctor api name w)"
  by (simp add: Iceoryx2_ctor_def Let_def iceoryx2_wf_def split: sum.split prod.split)

interpretation iceoryx2: fallible_class "Iceoryx2_ctor api name" "\<lambda>_. True" iceoryx2_wf errmsg
  for api :: "'i iox2" and name :: string
  by unfold_locales (rule Iceoryx2_ctor_ok)

lemma Iceoryx2_service_builder_returns:
  assumes "iceoryx2_wf h" and "service_name_create api s = Inr n"
  shows "\<exists>inst. Iceoryx2_service_builder api S h s = Some (inst, n)"
  using assms by (cases S) (auto simp: Iceoryx2_service_builder_def elim!: iceoryx2_wfE)

section \<open>On the concrete middleware\<close>

definition sim_handle :: iceoryx2 where
  "sim_handle = \<lparr>m_local = Some 1, m_ipc = Some 1\<rparr>"

lemma sim_handle_wf [simp]: "iceoryx2_wf sim_handle"
  by (simp add: iceoryx2_wf_def sim_handle_def)

end
