(* ===== verification/Context.thy ===== *)
theory Context
  imports Iceoryx2_Handle Names
begin

text \<open>
  \<open>impl/runtime/context\<close>: the implementation object of an RMW context. It owns the iceoryx2 handle
  for guard conditions and hands out guard condition ids from a 32-bit counter.
\<close>

record rmw_context_impl =
  ctx_id :: u32
  ctx_iox2 :: "iceoryx2 option"
  ctx_guard_condition_counter :: u32

definition context_wf :: "rmw_context_impl \<Rightarrow> bool" where
  "context_wf c \<longleftrightarrow> (\<exists>h. ctx_iox2 c = Some h \<and> iceoryx2_wf h)"

definition Context_ctor ::
  "'i iox2 \<Rightarrow> u32 \<Rightarrow> (('i, 'z) sys_scheme, rmw_context_impl, ContextError) ctor" where
  "Context_ctor api context_id w =
     do { (result, storage, w) \<leftarrow> create_in_place (Iceoryx2_ctor api (names_context context_id)) w;
          let this = \<lparr>ctx_id = context_id, ctx_iox2 = storage, ctx_guard_condition_counter = 0\<rparr>;
          case result of
            Inl _ \<Rightarrow> Some ((this, Some Context_HANDLE_CREATION_FAILURE),
                           chain ''failed to create Handle'' w)
          | Inr _ \<Rightarrow> Some ((this, None), w) }"

text \<open>\<open>iox2()\<close> reads the optional's value.\<close>

definition Context_iox2 :: "rmw_context_impl \<Rightarrow> iceoryx2 option" where
  "Context_iox2 c = ctx_iox2 c"

text \<open>\<open>generate_guard_condition_id\<close>: the post-increment of an atomic \<open>uint32_t\<close>.\<close>

definition generate_guard_condition_id :: "rmw_context_impl \<Rightarrow> u32 \<times> rmw_context_impl" where
  "generate_guard_condition_id c =
     (ctx_guard_condition_counter c,
      c\<lparr>ctx_guard_condition_counter := ctx_guard_condition_counter c + 1\<rparr>)"

definition Context_dtor :: "'i iox2 \<Rightarrow> rmw_context_impl \<Rightarrow> 'i \<Rightarrow> 'i" where
  "Context_dtor api c i = drop_opt (Iceoryx2_dtor api) (ctx_iox2 c) i"

lemma Context_ctor_ok: "ctor_ok context_wf errmsg (Context_ctor api i w)"
  by (rule iceoryx2.create_in_place_cases [where s = w and api = api and name = "names_context i"])
    (simp_all add: Context_ctor_def context_wf_def)

interpretation ctx: fallible_class "Context_ctor api i" "\<lambda>_. True" context_wf errmsg
  for api :: "'i iox2" and i :: u32
  by unfold_locales (rule Context_ctor_ok)

lemma Context_ctor_initial:
  "Context_ctor api i w = Some ((c, e), w') \<Longrightarrow> ctx_id c = i \<and> ctx_guard_condition_counter c = 0"
  by (auto simp: Context_ctor_def bind_eq_Some_conv Let_def split: sum.splits)

section \<open>Guard condition ids\<close>

text \<open>The ids of \<open>n\<close> guard conditions created one after the other in a context.\<close>

fun generate_ids :: "nat \<Rightarrow> rmw_context_impl \<Rightarrow> u32 list \<times> rmw_context_impl" where
  "generate_ids 0 c = ([], c)"
| "generate_ids (Suc n) c =
     (let (i, c) = generate_guard_condition_id c; (is, c) = generate_ids n c in (i # is, c))"

lemma generate_ids_closed:
  "generate_ids n c =
     (map (\<lambda>k. ctx_guard_condition_counter c + of_nat k) [0..<n],
      c\<lparr>ctx_guard_condition_counter := ctx_guard_condition_counter c + of_nat n\<rparr>)"
proof (induction n arbitrary: c)
  case 0
  then show ?case by simp
next
  case (Suc n)
  have "map (\<lambda>k. g (Suc k)) [0..<n] = map g [Suc 0..<Suc n]" for g :: "nat \<Rightarrow> u32"
    by (simp add: map_Suc_upt [symmetric] del: upt_Suc)
  from this [of "\<lambda>k. ctx_guard_condition_counter c + of_nat k"] show ?case
    by (simp add: generate_guard_condition_id_def Suc upt_conv_Cons algebra_simps del: upt_Suc)
qed

lemma of_nat_inj_u32: "m < 2 ^ 32 \<Longrightarrow> n < 2 ^ 32 \<Longrightarrow> (of_nat m :: u32) = of_nat n \<longleftrightarrow> m = n"
  by (simp add: word_of_nat_eq_iff take_bit_nat_def)

section \<open>On the concrete middleware\<close>

definition sim_context :: rmw_context_impl where
  "sim_context = \<lparr>ctx_id = 0, ctx_iox2 = Some sim_handle, ctx_guard_condition_counter = 0\<rparr>"

lemma sim_context_wf [simp]: "context_wf sim_context"
  by (simp add: context_wf_def sim_context_def)

section \<open>Properties\<close>

text \<open>C37. The ids a context gives to the guard conditions created in it one after the other are
  distinct exactly as long as there are at most \<open>2 ^ 32\<close> of them; then the counter wraps around.\<close>
theorem guard_condition_ids_distinct:
  "distinct (fst (generate_ids n c)) \<longleftrightarrow> n \<le> 2 ^ 32"
proof
  assume "distinct (fst (generate_ids n c))"
  then have inj: "inj_on (\<lambda>k. ctx_guard_condition_counter c + of_nat k) {0..<n}"
    by (simp add: generate_ids_closed distinct_map)
  show "n \<le> 2 ^ 32"
  proof (rule ccontr)
    assume "\<not> n \<le> 2 ^ 32"
    then have "(0::nat) = 2 ^ 32" by (intro inj_onD [OF inj]) auto
    then show False by simp
  qed
next
  assume "n \<le> 2 ^ 32"
  then show "distinct (fst (generate_ids n c))"
    by (auto simp: generate_ids_closed distinct_map inj_on_def of_nat_inj_u32)
qed

end
