(* ===== verification/Guard_Condition.thy ===== *)
theory Guard_Condition
  imports Context
begin

text \<open>
  \<open>impl/runtime/guard_condition\<close>: a guard condition is an iceoryx2 notifier on an event service of
  its own, named after the context and the id the context generated for it. The constructor works on
  the context (whose counter it advances) and the process state, a pair here.
\<close>

record guard_condition =
  gc_trigger_id :: u32
  gc_service_name :: string
  gc_unique_id :: "nat option"
  gc_notifier :: "nat option"

text \<open>
  A complete guard condition has its notifier, and the name the scheme gives its id. Nothing is
  asked of \<open>gc_unique_id\<close>: no code sets it.
\<close>

definition guard_condition_wf :: "guard_condition \<Rightarrow> bool" where
  "guard_condition_wf g \<longleftrightarrow>
     gc_notifier g \<noteq> None \<and> (\<exists>c. gc_service_name g = names_guard_condition c (gc_trigger_id g))"

definition GuardCondition_ctor ::
  "'i iox2 \<Rightarrow> (rmw_context_impl \<times> ('i, 'z) sys_scheme, guard_condition, GuardConditionError) ctor"
where
  "GuardCondition_ctor api s =
     (let (ctx, w) = s;
          (trigger_id, ctx) = generate_guard_condition_id ctx;
          service_name = names_guard_condition (ctx_id ctx) trigger_id;
          this = \<lparr>gc_trigger_id = trigger_id, gc_service_name = service_name,
                  gc_unique_id = None, gc_notifier = None\<rparr> in
      case service_name_create api service_name of
        Inl e \<Rightarrow> Some ((this, Some GC_SERVICE_NAME_CREATION_FAILURE), ctx, chain e w)
      | Inr iox2_service_name \<Rightarrow> do {
          handle \<leftarrow> Context_iox2 ctx;
          loc \<leftarrow> Iceoryx2_local handle;
          case call (event_open_or_create api loc iox2_service_name) w of
            (Inl e, w) \<Rightarrow> Some ((this, Some GC_SERVICE_CREATION_FAILURE), ctx, chain e w)
          | (Inr service, w) \<Rightarrow>
            (case call (notifier_create api service) w of
               (Inl e, w) \<Rightarrow> Some ((this, Some GC_NOTIFIER_CREATION_FAILURE), ctx, chain e w)
             | (Inr notifier, w) \<Rightarrow> Some ((this\<lparr>gc_notifier := Some notifier\<rparr>, None), ctx, w)) })"

text \<open>\<open>unique_id\<close> reads an optional that the constructor leaves empty.\<close>

definition GuardCondition_unique_id :: "'i iox2 \<Rightarrow> guard_condition \<Rightarrow> u8 list option option" where
  "GuardCondition_unique_id api g =
     (case gc_unique_id g of None \<Rightarrow> None | Some port \<Rightarrow> Some (port_id_bytes api port))"

definition GuardCondition_trigger ::
  "'i iox2 \<Rightarrow> guard_condition \<Rightarrow> ('i, 'z) sys_scheme \<Rightarrow>
   ((GuardConditionError + unit) \<times> ('i, 'z) sys_scheme) option" where
  "GuardCondition_trigger api g w =
     do { notifier \<leftarrow> gc_notifier g;
          case call (notify api notifier (Some (unat (gc_trigger_id g)))) w of
            (Inl e, w) \<Rightarrow> Some (Inl GC_NOTIFICATION_FAILURE, chain e w)
          | (Inr _, w) \<Rightarrow> Some (Inr (), w) }"

definition GuardCondition_dtor :: "'i iox2 \<Rightarrow> guard_condition \<Rightarrow> 'i \<Rightarrow> 'i" where
  "GuardCondition_dtor api g i = drop_opt (port_drop api) (gc_notifier g) i"

section \<open>Construction\<close>

lemma GuardCondition_ctor_ok:
  "context_wf (fst s) \<Longrightarrow> ctor_ok guard_condition_wf (errmsg \<circ> snd) (GuardCondition_ctor api s)"
  by (auto simp: GuardCondition_ctor_def Let_def context_wf_def Context_iox2_def guard_condition_wf_def
      generate_guard_condition_id_def elim!: iceoryx2_wfE split: sum.split prod.split)

interpretation gc: fallible_class "GuardCondition_ctor api" "\<lambda>s. context_wf (fst s)"
  guard_condition_wf "errmsg \<circ> snd"
  for api :: "'i iox2"
  by unfold_locales (rule GuardCondition_ctor_ok)

text \<open>Every construction, also a failing one, uses up one id of the context and nothing else of it.\<close>

lemma GuardCondition_ctor_context:
  "GuardCondition_ctor api (c, w) = Some ((g, e), c', w') \<Longrightarrow>
   c' = c\<lparr>ctx_guard_condition_counter := ctx_guard_condition_counter c + 1\<rparr> \<and>
   gc_trigger_id g = ctx_guard_condition_counter c \<and>
   gc_service_name g = names_guard_condition (ctx_id c) (ctx_guard_condition_counter c) \<and>
   gc_unique_id g = None"
  by (auto simp: GuardCondition_ctor_def generate_guard_condition_id_def Let_def
      split: Option.bind_splits sum.splits prod.splits)

lemma GuardCondition_ctor_context_wf [intro]:
  "GuardCondition_ctor api (c, w) = Some (r, c', w') \<Longrightarrow> context_wf c \<Longrightarrow> context_wf c'"
  by (cases r) (auto dest!: GuardCondition_ctor_context simp: context_wf_def)

lemma GuardCondition_trigger_returns:
  "guard_condition_wf g \<Longrightarrow> GuardCondition_trigger api g w \<noteq> None"
  by (auto simp: GuardCondition_trigger_def guard_condition_wf_def split: sum.split prod.split)

section \<open>On the concrete middleware\<close>

definition sim_guard :: guard_condition where
  "sim_guard = \<lparr>gc_trigger_id = 0, gc_service_name = names_guard_condition 0 0, gc_unique_id = None,
                gc_notifier = Some 4\<rparr>"

lemma sim_guard_wf [simp]: "guard_condition_wf sim_guard"
  by (auto simp: guard_condition_wf_def sim_guard_def)

end
