(* ===== verification/Node.thy ===== *)
theory Node
  imports Guard_Condition
begin

text \<open>
  \<open>impl/runtime/node\<close>: the implementation object of an RMW node. It owns an iceoryx2 handle for the
  publishers and subscribers created through it and the guard condition for graph events.
\<close>

record node_impl =
  nd_name :: string
  nd_iox2 :: "iceoryx2 option"
  nd_graph_guard_condition :: "guard_condition option"

definition node_wf :: "node_impl \<Rightarrow> bool" where
  "node_wf n \<longleftrightarrow>
     (\<exists>h. nd_iox2 n = Some h \<and> iceoryx2_wf h) \<and>
     (\<exists>g. nd_graph_guard_condition n = Some g \<and> guard_condition_wf g)"

definition Node_ctor ::
  "'i iox2 \<Rightarrow> string \<Rightarrow> string option \<Rightarrow>
   (rmw_context_impl \<times> ('i, 'z) sys_scheme, node_impl, NodeError) ctor" where
  "Node_ctor api name ns s =
     (let (ctx, w) = s;
          this = \<lparr>nd_name = name, nd_iox2 = None, nd_graph_guard_condition = None\<rparr> in
      do { (result, storage, w) \<leftarrow>
             create_in_place (Iceoryx2_ctor api (names_node (ctx_id ctx) name ns)) w;
           let this = this\<lparr>nd_iox2 := storage\<rparr>;
           case result of
             Inl _ \<Rightarrow> Some ((this, Some Node_HANDLE_CREATION_FAILURE), ctx,
                            chain ''failed to create Handle'' w)
           | Inr _ \<Rightarrow> do {
               (result, storage, ctx, w) \<leftarrow> create_in_place (GuardCondition_ctor api) (ctx, w);
               let this = this\<lparr>nd_graph_guard_condition := storage\<rparr>;
               case result of
                 Inl _ \<Rightarrow> Some ((this, Some GRAPH_GUARD_CONDITION_CREATION_FAILURE), ctx,
                                chain ''failed to create GuardCondition'' w)
               | Inr _ \<Rightarrow> Some ((this, None), ctx, w) } })"

text \<open>The accessors \<open>iox2()\<close> and \<open>graph_guard_condition()\<close> read optionals.\<close>

definition Node_iox2 :: "node_impl \<Rightarrow> iceoryx2 option" where
  "Node_iox2 n = nd_iox2 n"

definition Node_graph_guard_condition :: "node_impl \<Rightarrow> guard_condition option" where
  "Node_graph_guard_condition n = nd_graph_guard_condition n"

definition Node_dtor :: "'i iox2 \<Rightarrow> node_impl \<Rightarrow> 'i \<Rightarrow> 'i" where
  "Node_dtor api n i =
     drop_opt (Iceoryx2_dtor api) (nd_iox2 n)
       (drop_opt (GuardCondition_dtor api) (nd_graph_guard_condition n) i)"

lemma Node_ctor_ok:
  assumes "context_wf (fst s)"
  shows "ctor_ok node_wf (errmsg \<circ> snd) (Node_ctor api name ns s)"
proof -
  obtain c w where s: "s = (c, w)" by (cases s)
  show ?thesis
  proof (rule iceoryx2.create_in_place_cases
      [where s = w and api = api and name = "names_node (ctx_id c) name ns"])
    fix h w1
    assume h: "create_in_place (Iceoryx2_ctor api (names_node (ctx_id c) name ns)) w = Some (Inr (), Some h, w1)"
      and "iceoryx2_wf h"
    then show ?thesis
      by (rule_tac gc.create_in_place_cases [where s = "(c, w1)" and api = api])
        (use assms s in \<open>auto simp: Node_ctor_def node_wf_def\<close>)
  qed (auto simp: s Node_ctor_def)
qed

interpretation nd: fallible_class "Node_ctor api name ns" "\<lambda>s. context_wf (fst s)"
  node_wf "errmsg \<circ> snd"
  for api :: "'i iox2" and name :: string and ns :: "string option"
  by unfold_locales (rule Node_ctor_ok)

text \<open>A node takes at most one id from the context and leaves the rest of it unchanged.\<close>

lemma Node_ctor_context:
  "Node_ctor api name ns (c, w) = Some ((n, e), c', w') \<Longrightarrow>
   nd_name n = name \<and>
   (c' = c \<or> c' = c\<lparr>ctx_guard_condition_counter := ctx_guard_condition_counter c + 1\<rparr>)"
  by (auto simp: Node_ctor_def Let_def bind_eq_Some_conv create_in_place_def
      dest!: GuardCondition_ctor_context split: sum.splits option.splits)

lemma Node_ctor_context_wf [intro]:
  "Node_ctor api name ns (c, w) = Some (r, c', w') \<Longrightarrow> context_wf c \<Longrightarrow> context_wf c'"
  by (cases r) (auto dest!: Node_ctor_context simp: context_wf_def)

section \<open>On the concrete middleware\<close>

definition sim_node :: node_impl where
  "sim_node = \<lparr>nd_name = ''talker'', nd_iox2 = Some sim_handle, nd_graph_guard_condition = Some sim_guard\<rparr>"

lemma sim_node_wf [simp]: "node_wf sim_node"
  by (simp add: node_wf_def sim_node_def)

section \<open>Properties\<close>

text \<open>Creating a node in a complete context returns: either an error, with the thread's error
  message set, or a complete node, with both iceoryx2 instances and a working graph guard condition.
  The context stays complete, and at most one guard condition id of it is used up.\<close>
lemma node_creation:
  assumes "context_wf c"
  shows "\<exists>r n c' w'. create_in_place (Node_ctor api name ns) (c, w) = Some (r, Some n, c', w') \<and>
    (case r of Inl _ \<Rightarrow> errmsg w' \<noteq> None | Inr _ \<Rightarrow> node_wf n \<and> nd_name n = name) \<and>
    context_wf c' \<and> (c' = c \<or> c' = snd (generate_guard_condition_id c))"
proof (rule nd.create_in_place_cases [of "(c, w)" api name ns])
  show "context_wf (fst (c, w))" using assms by simp
next
  fix e n s'
  assume r: "create_in_place (Node_ctor api name ns) (c, w) = Some (Inl e, Some n, s')"
    and m: "(errmsg \<circ> snd) s' \<noteq> None"
  obtain c' w' where s': "s' = (c', w')" by (cases s')
  with r have "Node_ctor api name ns (c, w) = Some ((n, Some e), c', w')" by (simp add: create_in_place_ctor)
  from Node_ctor_context [OF this] Node_ctor_context_wf [OF this assms] r m s' show ?thesis
    by (auto simp: generate_guard_condition_id_def)
next
  fix n s'
  assume r: "create_in_place (Node_ctor api name ns) (c, w) = Some (Inr (), Some n, s')" and g: "node_wf n"
  obtain c' w' where s': "s' = (c', w')" by (cases s')
  with r have "Node_ctor api name ns (c, w) = Some ((n, None), c', w')" by (simp add: create_in_place_ctor)
  from Node_ctor_context [OF this] Node_ctor_context_wf [OF this assms] r g s' show ?thesis
    by (auto simp: generate_guard_condition_id_def)
qed

text \<open>A node \<open>talker\<close> in a new context.\<close>
lemma node_creation_witness:
  "\<exists>r n c' w'. create_in_place (Node_ctor sim_api ''talker'' None) (sim_context, sim_sys) = Some (r, Some n, c', w') \<and>
    (case r of Inl _ \<Rightarrow> errmsg w' \<noteq> None | Inr _ \<Rightarrow> node_wf n \<and> nd_name n = ''talker'') \<and>
    context_wf c' \<and> (c' = sim_context \<or> c' = snd (generate_guard_condition_id sim_context))"
  by (rule node_creation) simp

end
