(* ===== verification/Introspection.thy ===== *)
theory Introspection
  imports Sim_Middleware
begin

text \<open>
  \<open>impl/message/introspection\<close>: whether a message type is self-contained, so that it can be copied
  and loaned as plain bytes, and the sizes of a message. The predicates are overloaded for the C
  and the C++ structures; both overloads are defined here and shown equal.
\<close>

section \<open>The predicates of a member\<close>

definition is_message_c :: "message_member \<Rightarrow> bool" where
  "is_message_c m \<longleftrightarrow> type_id m = ROS_TYPE_MESSAGE"

definition is_fixed_array_c :: "message_member \<Rightarrow> bool" where
  "is_fixed_array_c m \<longleftrightarrow> is_array m \<and> array_size m > 0 \<and> \<not> is_upper_bound m"

definition is_dynamic_array_c :: "message_member \<Rightarrow> bool" where
  "is_dynamic_array_c m \<longleftrightarrow> is_array m \<and> (array_size m = 0 \<or> is_upper_bound m)"

definition is_dynamic_string_c :: "message_member \<Rightarrow> bool" where
  "is_dynamic_string_c m \<longleftrightarrow> type_id m = ROS_TYPE_STRING"

definition is_message :: "message_member \<Rightarrow> bool" where
  "is_message m \<longleftrightarrow> type_id m = ROS_TYPE_MESSAGE"

definition is_fixed_array :: "message_member \<Rightarrow> bool" where
  "is_fixed_array m \<longleftrightarrow> is_array m \<and> array_size m > 0 \<and> \<not> is_upper_bound m"

definition is_dynamic_array :: "message_member \<Rightarrow> bool" where
  "is_dynamic_array m \<longleftrightarrow> is_array m \<and> (array_size m = 0 \<or> is_upper_bound m)"

definition is_dynamic_string :: "message_member \<Rightarrow> bool" where
  "is_dynamic_string m \<longleftrightarrow> type_id m = ROS_TYPE_STRING"

section \<open>Self-contained message types\<close>

text \<open>
  The loop over the members, with its early returns; the recursion follows the nesting of message
  types. The argument of \<open>is_pod\<close> is a pointer.
\<close>

fun is_pod_loop_c :: "message_member list \<Rightarrow> bool" where
  "is_pod_loop_c [] = True"
| "is_pod_loop_c (MessageMember t a n u p # ms) =
     (let member = MessageMember t a n u p in
      if is_dynamic_array_c member \<or> is_dynamic_string_c member then False
      else if is_message_c member then
        (case p of
           None \<Rightarrow> False
         | Some None \<Rightarrow> False
         | Some (Some (MessageMembers sz sub)) \<Rightarrow>
             if \<not> is_pod_loop_c sub then False else is_pod_loop_c ms)
      else is_pod_loop_c ms)"

definition is_pod_c :: "message_members option \<Rightarrow> bool" where
  "is_pod_c mm = (case mm of None \<Rightarrow> False | Some (MessageMembers sz ms) \<Rightarrow> is_pod_loop_c ms)"

fun is_pod_loop :: "message_member list \<Rightarrow> bool" where
  "is_pod_loop [] = True"
| "is_pod_loop (MessageMember t a n u p # ms) =
     (let member = MessageMember t a n u p in
      if is_dynamic_array member \<or> is_dynamic_string member then False
      else if is_message member then
        (case p of
           None \<Rightarrow> False
         | Some None \<Rightarrow> False
         | Some (Some (MessageMembers sz sub)) \<Rightarrow>
             if \<not> is_pod_loop sub then False else is_pod_loop ms)
      else is_pod_loop ms)"

definition is_pod :: "message_members option \<Rightarrow> bool" where
  "is_pod mm = (case mm of None \<Rightarrow> False | Some (MessageMembers sz ms) \<Rightarrow> is_pod_loop ms)"

text \<open>The overload for a type support looks only for the C++ introspection data.\<close>

definition is_pod_typesupport ::
  "'m ros_env \<Rightarrow> ptr \<Rightarrow> ('i, 'z) sys_scheme \<Rightarrow> bool \<times> ('i, 'z) sys_scheme" where
  "is_pod_typesupport env type_support w =
     (case typesupport_handle (introspection_cpp env type_support) w of
        (Some data, w) \<Rightarrow> (is_pod data, w)
      | (None, w) \<Rightarrow> (False, w))"

definition pod_type :: "'m ros_env \<Rightarrow> ptr \<Rightarrow> bool" where
  "pod_type env ts = (case introspection_cpp env ts of Inr data \<Rightarrow> is_pod data | Inl _ \<Rightarrow> False)"

lemma is_pod_typesupport_result:
  "\<exists>w'. is_pod_typesupport env ts w = (pod_type env ts, w') \<and> sys.more w' = sys.more w \<and> iox w' = iox w"
  by (auto simp: is_pod_typesupport_def pod_type_def typesupport_handle_def split: sum.split option.split)

section \<open>Sizes\<close>

text \<open>\<open>message_size\<close> reads through \<open>handle->data\<close> without a check: \<open>None\<close> when it is null.\<close>

definition message_size ::
  "'m ros_env \<Rightarrow> ptr \<Rightarrow> ('i, 'z) sys_scheme \<Rightarrow> (nat \<times> ('i, 'z) sys_scheme) option" where
  "message_size env type_support w =
     (case typesupport_handle (introspection_cpp env type_support) w of
        (Some data, w) \<Rightarrow> do { mm \<leftarrow> data; Some (size_of mm, w) }
      | (None, w) \<Rightarrow>
        (case typesupport_handle (introspection_c env type_support) w of
           (Some data, w) \<Rightarrow> do { mm \<leftarrow> data; Some (size_of mm, w) }
         | (None, w) \<Rightarrow> Some (0, chain ''failed to determine message size'' w)))"

text \<open>
  \<open>serialized_message_size\<close>: the sum of 4 and the \<open>uint32_t\<close> of the callback is computed in 32
  bits before it becomes a \<open>size_t\<close>.
\<close>

definition serialized_message_size ::
  "'m ros_env \<Rightarrow> 'm \<Rightarrow> ptr \<Rightarrow> ('i, 'z) sys_scheme \<Rightarrow> (nat \<times> ('i, 'z) sys_scheme) option" where
  "serialized_message_size env ros_message type_support w =
     (if type_support = nullptr \<or> ts_data env type_support = nullptr then Some (0, w)
      else
        case typesupport_handle (fastrtps_cpp env type_support) w of
          (Some data, w) \<Rightarrow> do { cb \<leftarrow> data; Some (unat (4 + get_serialized_size cb ros_message), w) }
        | (None, w) \<Rightarrow> Some (0, w))"

section \<open>Properties\<close>

lemma overloads_agree:
  "is_message_c = is_message" "is_fixed_array_c = is_fixed_array"
  "is_dynamic_array_c = is_dynamic_array" "is_dynamic_string_c = is_dynamic_string"
  by (simp_all add: fun_eq_iff is_message_c_def is_message_def is_fixed_array_c_def
      is_fixed_array_def is_dynamic_array_c_def is_dynamic_array_def is_dynamic_string_c_def
      is_dynamic_string_def)

lemma is_pod_loop_c_eq: "is_pod_loop_c ms = is_pod_loop ms"
  by (induction ms rule: is_pod_loop.induct)
    (auto simp: overloads_agree Let_def split: option.split message_members.split)

lemma is_pod_c_eq: "is_pod_c mm = is_pod mm"
  by (simp add: is_pod_c_def is_pod_def is_pod_loop_c_eq split: option.split message_members.split)

text \<open>
  The members a message type contains: its own, and those of the types of its message members.
\<close>

inductive contains_member :: "message_member list \<Rightarrow> message_member \<Rightarrow> bool" where
  own: "m \<in> set ms \<Longrightarrow> contains_member ms m"
| nested: "m \<in> set ms \<Longrightarrow> type_id m = ROS_TYPE_MESSAGE \<Longrightarrow> members_ptr m = Some (Some sub) \<Longrightarrow>
     contains_member (members sub) x \<Longrightarrow> contains_member ms x"

text \<open>
  What rosidl's introspection data means, apart from the predicates of the code: a member holds a single value, an
  array of a fixed number of elements, or a sequence, which is an array without a size or with one that is only an
  upper bound. A message is self-contained when no member it contains is a sequence or has elements that are strings,
  of narrow or of wide characters, and the types of its message members can be inspected.
\<close>

definition fixed_length :: "message_member \<Rightarrow> bool" where
  "fixed_length m \<longleftrightarrow> (is_array m \<longrightarrow> 0 < array_size m \<and> \<not> is_upper_bound m)"

definition inline_member :: "message_member \<Rightarrow> bool" where
  "inline_member m \<longleftrightarrow>
     fixed_length m \<and>
     (case type_id m of
        ROS_TYPE_STRING \<Rightarrow> False
      | ROS_TYPE_WSTRING \<Rightarrow> False
      | ROS_TYPE_MESSAGE \<Rightarrow> \<exists>sub. members_ptr m = Some (Some sub)
      | ROS_TYPE_PRIMITIVE _ \<Rightarrow> True)"

definition self_contained :: "message_members option \<Rightarrow> bool" where
  "self_contained mm \<longleftrightarrow> (\<exists>sz ms. mm = Some (MessageMembers sz ms) \<and> (\<forall>m. contains_member ms m \<longrightarrow> inline_member m))"

text \<open>What the code lets pass.\<close>

definition flat_member :: "message_member \<Rightarrow> bool" where
  "flat_member m \<longleftrightarrow> inline_member m \<or> fixed_length m \<and> type_id m = ROS_TYPE_WSTRING"

lemma flat_member_code:
  "flat_member m \<longleftrightarrow> \<not> is_dynamic_array m \<and> \<not> is_dynamic_string m \<and>
     (is_message m \<longrightarrow> (\<exists>sub. members_ptr m = Some (Some sub)))"
  by (auto simp: flat_member_def inline_member_def fixed_length_def is_dynamic_array_def is_dynamic_string_def is_message_def
      split: ros_type.splits)

lemma contains_member_iff:
  "contains_member ms x \<longleftrightarrow>
     (\<exists>m \<in> set ms. x = m \<or>
        (\<exists>sub. is_message m \<and> members_ptr m = Some (Some sub) \<and> contains_member (members sub) x))"
  by (subst contains_member.simps) (auto simp: is_message_def)

lemma contains_member_Nil: "\<not> contains_member [] x"
  by (auto elim: contains_member.cases)

lemma contains_member_Cons:
  "contains_member (m # ms) x \<longleftrightarrow>
     x = m \<or> (\<exists>sub. is_message m \<and> members_ptr m = Some (Some sub) \<and> contains_member (members sub) x) \<or>
     contains_member ms x"
  using contains_member_iff [of "m # ms" x] contains_member_iff [of ms x] by auto

lemma is_pod_loop_iff: "is_pod_loop ms \<longleftrightarrow> (\<forall>m. contains_member ms m \<longrightarrow> flat_member m)"
proof (induction ms rule: is_pod_loop.induct)
  case 1
  show ?case by (simp add: contains_member_Nil)
next
  case (2 t a n u p ms)
  let ?m = "MessageMember t a n u p"
  consider "is_dynamic_array ?m \<or> is_dynamic_string ?m"
    | "\<not> (is_dynamic_array ?m \<or> is_dynamic_string ?m)" "\<not> is_message ?m"
    | "\<not> (is_dynamic_array ?m \<or> is_dynamic_string ?m)" "is_message ?m"
    by blast
  then show ?case
  proof cases
    case 1
    then show ?thesis by (auto simp: contains_member_Cons flat_member_code)
  next
    case 2
    with "2.IH" show ?thesis by (auto simp: contains_member_Cons flat_member_code)
  next
    case 3
    show ?thesis
    proof (cases "\<exists>sz sub. p = Some (Some (MessageMembers sz sub))")
      case True
      then obtain sz sub where p: "p = Some (Some (MessageMembers sz sub))" by blast
      have "is_pod_loop sub \<longleftrightarrow> (\<forall>m. contains_member sub m \<longrightarrow> flat_member m)"
        using "2.IH"(1) 3 p by simp
      moreover have "is_pod_loop sub \<Longrightarrow>
          is_pod_loop ms \<longleftrightarrow> (\<forall>m. contains_member ms m \<longrightarrow> flat_member m)"
        using "2.IH"(2) 3 p by simp
      ultimately show ?thesis
        using 3 p by (auto simp: contains_member_Cons flat_member_code)
    next
      case False
      then have "p = None \<or> p = Some None"
        by (metis message_members.exhaust option.exhaust)
      with 3 show ?thesis by (auto simp: contains_member_Cons flat_member_code)
    qed
  qed
qed

section \<open>Claims\<close>

text \<open>C32. Whether a message type is copied and loaned as plain bytes: it is when it has introspection data and every
  member it contains, at any depth of nested message types, is a single value or an array of fixed size, is not a
  string, and can be inspected if it is a message. Strings of wide characters are let through, although they are not
  stored in place. So every type that is self-contained passes, and one that passes without being self-contained has
  a wide string in it.\<close>
theorem is_pod_characterisation:
  "(is_pod mm \<longleftrightarrow>
     (\<exists>sz ms. mm = Some (MessageMembers sz ms) \<and>
        (\<forall>m. contains_member ms m \<longrightarrow> inline_member m \<or> fixed_length m \<and> type_id m = ROS_TYPE_WSTRING))) \<and>
   (self_contained mm \<longrightarrow> is_pod mm) \<and>
   (is_pod mm \<longrightarrow> self_contained mm \<or>
     (\<exists>sz ms m. mm = Some (MessageMembers sz ms) \<and> contains_member ms m \<and> type_id m = ROS_TYPE_WSTRING))"
proof -
  have "is_pod mm \<longleftrightarrow> (\<exists>sz ms. mm = Some (MessageMembers sz ms) \<and> (\<forall>m. contains_member ms m \<longrightarrow> flat_member m))"
    by (cases mm) (auto simp: is_pod_def is_pod_loop_iff split: message_members.splits)
  then show ?thesis unfolding flat_member_def self_contained_def by blast
qed

text \<open>A type with a nested message that holds a bounded sequence does not pass; one with a wide string does.\<close>
theorem is_pod_characterisation_witness:
  "\<not> is_pod (Some (MessageMembers 16 [MessageMember ROS_TYPE_MESSAGE False 0 False
     (Some (Some (MessageMembers 16 [MessageMember (ROS_TYPE_PRIMITIVE 1) True 4 True None])))])) \<and>
   is_pod (Some (MessageMembers 16 [MessageMember ROS_TYPE_WSTRING False 0 False None]))"
  by (auto simp: is_pod_characterisation inline_member_def fixed_length_def contains_member_Cons contains_member_Nil is_message_def)

text \<open>The predicates for the C introspection structures and for the C++ ones decide the same.\<close>
lemma is_pod_overloads_agree:
  "is_pod_c mm = is_pod mm"
  by (rule is_pod_c_eq)

text \<open>With the type support data in place, the serialized size is the four bytes of the header and
  the size the type support reports, as long as the sum fits in 32 bits; otherwise it wraps around
  and is smaller than what serialization writes.\<close>
lemma serialized_size_wraps:
  assumes "type_support \<noteq> nullptr" and "ts_data env type_support \<noteq> nullptr"
    and "fastrtps_cpp env type_support = Inr (Some cb)"
  shows "serialized_message_size env msg type_support w =
    Some (if unat (get_serialized_size cb msg) + 4 < 2 ^ 32 then unat (get_serialized_size cb msg) + 4
          else unat (get_serialized_size cb msg) + 4 - 2 ^ 32, w)"
proof -
  have "unat (get_serialized_size cb msg) < 2 ^ 32"
    using unsigned_less [of "get_serialized_size cb msg"] by simp
  moreover have "unat (4 + get_serialized_size cb msg) = (4 + unat (get_serialized_size cb msg)) mod 2 ^ 32"
    by (simp add: unat_word_ariths)
  ultimately show ?thesis
    using assms by (simp add: serialized_message_size_def typesupport_handle_def mod_if)
qed

text \<open>A size four below the limit of 32 bits comes out as no bytes at all.\<close>
lemma serialized_size_wraps_witness:
  "serialized_message_size (sim_env\<lparr>fastrtps_cpp := (\<lambda>_. Inr (Some
       \<lparr>get_serialized_size = (\<lambda>_. 4294967292), cdr_serialize = (\<lambda>m n. (True, m)),
        cdr_deserialize = (\<lambda>bs m. (True, bs))\<rparr>))\<rparr>) [] 1 sim_sys = Some (0, sim_sys)"
  using serialized_size_wraps [of 1 "sim_env\<lparr>fastrtps_cpp := (\<lambda>_. Inr (Some
       \<lparr>get_serialized_size = (\<lambda>_. 4294967292), cdr_serialize = (\<lambda>m n. (True, m)),
        cdr_deserialize = (\<lambda>bs m. (True, bs))\<rparr>))\<rparr>" "\<lparr>get_serialized_size = (\<lambda>_. 4294967292),
        cdr_serialize = (\<lambda>m n. (True, m)), cdr_deserialize = (\<lambda>bs m. (True, bs))\<rparr>" "[]" sim_sys]
  by (simp add: sim_env_def)

text \<open>A wide string is not counted as dynamic: a type with one passes the test.\<close>
lemma wide_strings_pass:
  "is_pod (Some (MessageMembers sz [MessageMember ROS_TYPE_WSTRING False 0 False None]))"
  by (simp add: is_pod_def is_dynamic_array_def is_dynamic_string_def is_message_def)

end
