(* ===== verification/Sample_Registry.thy ===== *)
theory Sample_Registry
  imports Sim_Middleware "HOL-Library.AList"
begin

text \<open>
  \<open>impl/runtime/sample_registry.hpp\<close>: the samples a publisher or subscriber has handed out to the
  layers above, keyed by the address of their payload (an \<open>unordered_map\<close>, here an association list
  with distinct keys). The locale \<open>loan_store\<close> states the contract publishers and subscribers rely
  on, and the registry is its implementation.
\<close>

type_synonym registry = "(ptr \<times> sample) list"

text \<open>
  \<open>store\<close> emplaces the sample under its payload address and returns the address. When the key is
  taken, \<open>emplace\<close> leaves the map alone and destroys the element it built.
\<close>

definition registry_store ::
  "'i iox2 \<Rightarrow> sample \<Rightarrow> registry \<Rightarrow> ('i, 'z) sys_scheme \<Rightarrow> ptr \<times> registry \<times> ('i, 'z) sys_scheme" where
  "registry_store api s reg w =
     (let payload_ptr = smp_data s in
      if map_of reg payload_ptr \<noteq> None then (payload_ptr, reg, run_iox (sample_drop api s) w)
      else (payload_ptr, (payload_ptr, s) # reg, w))"

definition registry_retrieve :: "ptr \<Rightarrow> registry \<Rightarrow> sample option" where
  "registry_retrieve p reg = map_of reg p"

definition registry_release :: "ptr \<Rightarrow> registry \<Rightarrow> (SampleRegistryError + sample) \<times> registry" where
  "registry_release p reg =
     (case map_of reg p of
        None \<Rightarrow> (Inl SampleRegistry_INVALID_PAYLOAD, reg)
      | Some s \<Rightarrow> (Inr s, AList.delete p reg))"

text \<open>The destructor of the map destroys the samples that are still stored.\<close>

definition registry_dtor :: "'i iox2 \<Rightarrow> registry \<Rightarrow> 'i \<Rightarrow> 'i" where
  "registry_dtor api reg i = fold (\<lambda>(p, s). sample_drop api s) reg i"

definition registry_wf :: "registry \<Rightarrow> bool" where
  "registry_wf reg \<longleftrightarrow> distinct (map fst reg) \<and> (\<forall>(p, s) \<in> set reg. smp_data s = p)"

section \<open>The contract\<close>

text \<open>
  \<open>held r\<close> is the map the store represents. Storing a sample whose address is free adds it and has
  no other effect; retrieving reads the map; releasing takes a sample out once.
\<close>

locale loan_store =
  fixes store :: "sample \<Rightarrow> 'r \<Rightarrow> 'w \<Rightarrow> ptr \<times> 'r \<times> 'w"
    and retrieve :: "ptr \<Rightarrow> 'r \<Rightarrow> sample option"
    and release :: "ptr \<Rightarrow> 'r \<Rightarrow> (SampleRegistryError + sample) \<times> 'r"
    and held :: "'r \<Rightarrow> ptr \<rightharpoonup> sample"
    and ok :: "'r \<Rightarrow> bool"
  assumes store_free:
      "ok r \<Longrightarrow> smp_data s \<notin> dom (held r) \<Longrightarrow>
       \<exists>r'. store s r w = (smp_data s, r', w) \<and> ok r' \<and> held r' = (held r)(smp_data s \<mapsto> s)"
    and retrieve_held: "ok r \<Longrightarrow> retrieve p r = held r p"
    and release_held:
      "ok r \<Longrightarrow> held r p = Some s \<Longrightarrow>
       \<exists>r'. release p r = (Inr s, r') \<and> ok r' \<and> held r' = (held r)(p := None)"
    and release_unknown:
      "ok r \<Longrightarrow> held r p = None \<Longrightarrow> release p r = (Inl SampleRegistry_INVALID_PAYLOAD, r)"
    and held_key: "ok r \<Longrightarrow> held r p = Some s \<Longrightarrow> smp_data s = p"
begin

lemma store_retrieve:
  "ok r \<Longrightarrow> smp_data s \<notin> dom (held r) \<Longrightarrow> store s r w = (p, r', w') \<Longrightarrow> retrieve p r' = Some s"
  using store_free [of r s w] by (auto simp: retrieve_held)

lemma store_then_release:
  assumes "ok r" and "smp_data s \<notin> dom (held r)" and "store s r w = (p, r', w')"
  shows "\<exists>r''. release p r' = (Inr s, r'') \<and> ok r'' \<and> held r'' = held r \<and> w' = w"
proof -
  obtain r1 where r1: "store s r w = (smp_data s, r1, w)" "ok r1" "held r1 = (held r)(smp_data s \<mapsto> s)"
    using store_free [OF assms(1,2)] by blast
  moreover have "(held r)(smp_data s := None) = held r"
    using assms(2) by auto
  ultimately show ?thesis
    using release_held [of r1 "smp_data s" s] assms(3) by (auto simp: fun_upd_upd)
qed

lemma release_twice:
  assumes "ok r" and "release p r = (res, r')"
  shows "release p r' = (Inl SampleRegistry_INVALID_PAYLOAD, r')"
proof (cases "held r p")
  case None
  with assms show ?thesis using release_unknown [of r p] by simp
next
  case (Some s)
  with assms obtain "ok r'" "held r' p = None"
    using release_held [of r p s] by auto
  then show ?thesis by (rule release_unknown)
qed

lemma release_other:
  assumes "ok r" and "release p r = (res, r')" and "q \<noteq> p"
  shows "held r' q = held r q"
  using assms release_held [of r p] release_unknown [of r p] by (cases "held r p") auto

lemma release_ok:
  assumes "ok r" and "release p r = (res, r')"
  shows "ok r'"
  using assms release_held [of r p] release_unknown [of r p] by (cases "held r p") auto

lemma release_cases:
  assumes "ok r"
  obtains "held r p = None" "release p r = (Inl SampleRegistry_INVALID_PAYLOAD, r)"
  | s r' where "held r p = Some s" "smp_data s = p" "release p r = (Inr s, r')" "ok r'"
      "held r' = (held r)(p := None)"
proof (cases "held r p")
  case None
  then show thesis by (rule that(1)) (rule release_unknown [OF assms None])
next
  case (Some s)
  obtain r' where "release p r = (Inr s, r')" "ok r'" "held r' = (held r)(p := None)"
    using release_held [OF assms Some] by blast
  then show thesis by (rule that(2) [OF Some held_key [OF assms Some]])
qed

text \<open>Stores that are released in any order come back each with its own sample.\<close>

lemma store_keeps:
  "ok r \<Longrightarrow> smp_data s \<notin> dom (held r) \<Longrightarrow> store s r w = (p, r', w') \<Longrightarrow> q \<noteq> smp_data s \<Longrightarrow>
   held r' q = held r q"
  using store_free [of r s w] by auto

end

section \<open>The registry implements it\<close>

lemma registry_wf_delete: "registry_wf reg \<Longrightarrow> registry_wf (AList.delete p reg)"
  by (auto simp: registry_wf_def AList.delete_eq intro: distinct_map_filter)

interpretation reg: loan_store "registry_store api" registry_retrieve registry_release map_of registry_wf
  for api :: "'i iox2"
proof (unfold_locales, goal_cases)
  case (1 r s w)
  then show ?case
    by (auto simp: registry_store_def registry_wf_def dom_map_of_conv_image_fst Let_def
        map_of_eq_None_iff)
next
  case (2 r p)
  show ?case by (simp add: registry_retrieve_def)
next
  case (3 r p s)
  then show ?case
    by (simp add: registry_release_def registry_wf_delete delete_conv')
next
  case (4 r p)
  then show ?case by (simp add: registry_release_def)
next
  case (5 r p s)
  then show ?case by (auto simp: registry_wf_def dest: map_of_SomeD)
qed

lemma registry_wf_Nil [simp]: "registry_wf []"
  by (simp add: registry_wf_def)

section \<open>Properties\<close>

text \<open>C28. A sample whose payload address is free comes back from the registry under the address
  \<open>store\<close> returned: \<open>retrieve\<close> sees it, \<open>release\<close> hands it out and leaves the registry's
  content as before, and a second \<open>release\<close> of the address is refused.\<close>
theorem registry_round_trip:
  assumes "registry_wf reg" and "smp_data s \<notin> dom (map_of reg)"
    and "registry_store api s reg w = (p, reg1, w1)" and "registry_release p reg1 = (r, reg2)"
  shows "p = smp_data s \<and> w1 = w \<and> registry_wf reg1 \<and> registry_retrieve p reg1 = Some s \<and> r = Inr s \<and>
    map_of reg2 = map_of reg \<and> registry_wf reg2 \<and>
    registry_release p reg2 = (Inl SampleRegistry_INVALID_PAYLOAD, reg2)"
  using reg.store_free [OF assms(1,2), of api w] reg.store_retrieve [OF assms(1-3)]
    reg.store_then_release [OF assms(1,2), of api w] reg.release_ok [of reg1 p r reg2]
    reg.release_twice [of reg1 p r reg2] assms(3,4)
  by auto

text \<open>One sample in an empty registry.\<close>
theorem registry_round_trip_witness:
  "let s = \<lparr>smp_data = 16, smp_len = 8, smp_key = 1\<rparr>;
       (p, reg1, w1) = registry_store sim_api s [] sim_sys; (r, reg2) = registry_release p reg1
   in r = Inr s \<and> registry_release p reg2 = (Inl SampleRegistry_INVALID_PAYLOAD, reg2)"
  using registry_round_trip [of "[]" "\<lparr>smp_data = 16, smp_len = 8, smp_key = 1\<rparr>" sim_api sim_sys 16
      "[(16, \<lparr>smp_data = 16, smp_len = 8, smp_key = 1\<rparr>)]" sim_sys "Inr \<lparr>smp_data = 16, smp_len = 8, smp_key = 1\<rparr>" "[]"]
  by (simp add: registry_store_def registry_release_def registry_wf_def)

end
