(* ===== verification/Publisher.thy ===== *)
theory Publisher
  imports Node Introspection Sample_Registry
begin

text \<open>
  \<open>impl/runtime/publisher\<close>: the implementation object of an RMW publisher. It owns an iceoryx2
  publisher and notifier for the service named after the topic, and the registry of the samples it
  has loaned out.
\<close>

record publisher_impl =
  pub_topic :: string
  pub_typesupport :: ptr
  pub_unserialized_size :: nat
  pub_service_name :: string
  pub_unique_id :: "nat option"
  pub_notifier :: "nat option"
  pub_publisher :: "nat option"
  pub_registry :: registry

definition publisher_wf :: "publisher_impl \<Rightarrow> bool" where
  "publisher_wf p \<longleftrightarrow>
     pub_unique_id p \<noteq> None \<and> pub_notifier p \<noteq> None \<and> pub_publisher p \<noteq> None \<and>
     pub_service_name p = names_topic (pub_topic p) \<and> registry_wf (pub_registry p)"

text \<open>The quality-of-service settings both endpoints ask for.\<close>

definition pubsub_settings :: pubsub_config where
  "pubsub_settings =
     \<lparr>max_publishers = Some 64, max_subscribers = Some 64, history_size = Some 10,
      subscriber_max_buffer_size = Some 10, payload_alignment = Some 8\<rparr>"

text \<open>
  The constructor. The node is only read. The member initialiser and the builder each compute the
  message size.
\<close>

definition Publisher_ctor ::
  "'i iox2 \<Rightarrow> 'm ros_env \<Rightarrow> node_impl \<Rightarrow> string \<Rightarrow> ptr \<Rightarrow>
   (('i, 'z) sys_scheme, publisher_impl, PublisherError) ctor" where
  "Publisher_ctor api env node topic type_support w =
     do { (unserialized_size, w) \<leftarrow> message_size env type_support w;
          let this = \<lparr>pub_topic = topic, pub_typesupport = type_support,
                      pub_unserialized_size = unserialized_size,
                      pub_service_name = names_topic topic, pub_unique_id = None,
                      pub_notifier = None, pub_publisher = None, pub_registry = []\<rparr>;
          case service_name_create api (pub_service_name this) of
            Inl e \<Rightarrow> Some ((this, Some Pub_SERVICE_NAME_CREATION_FAILURE), chain e w)
          | Inr iox2_service_name \<Rightarrow> do {
              handle \<leftarrow> Node_iox2 node;
              ipc \<leftarrow> Iceoryx2_ipc handle;
              case call (pubsub_open_or_create api ipc iox2_service_name pubsub_settings) w of
                (Inl e, w) \<Rightarrow> Some ((this, Some Pub_SERVICE_CREATION_FAILURE), chain e w)
              | (Inr pubsub_service, w) \<Rightarrow> do {
                  (max_slice_len, w) \<leftarrow> message_size env type_support w;
                  case call (publisher_create api pubsub_service max_slice_len) w of
                    (Inl e, w) \<Rightarrow> Some ((this, Some PUBLISHER_CREATION_FAILURE), chain e w)
                  | (Inr publisher, w) \<Rightarrow> do {
                      let this = this\<lparr>pub_unique_id := Some publisher, pub_publisher := Some publisher\<rparr>;
                      case call (event_open_or_create api ipc iox2_service_name) w of
                        (Inl e, w) \<Rightarrow> Some ((this, Some Pub_SERVICE_CREATION_FAILURE), chain e w)
                      | (Inr event_service, w) \<Rightarrow>
                        (case call (notifier_create api event_service) w of
                           (Inl e, w) \<Rightarrow> Some ((this, Some Pub_NOTIFIER_CREATION_FAILURE), chain e w)
                         | (Inr notifier, w) \<Rightarrow> Some ((this\<lparr>pub_notifier := Some notifier\<rparr>, None), w)) } } } }"

definition Publisher_unique_id :: "'i iox2 \<Rightarrow> publisher_impl \<Rightarrow> u8 list option option" where
  "Publisher_unique_id api p =
     (case pub_unique_id p of None \<Rightarrow> None | Some port \<Rightarrow> Some (port_id_bytes api port))"

section \<open>Loaning and publishing\<close>

text \<open>
  The methods that change the object return their result, the object and the state. An empty
  optional for the iceoryx2 port terminates the process.
\<close>

definition Publisher_loan ::
  "'i iox2 \<Rightarrow> nat \<Rightarrow> publisher_impl \<Rightarrow> ('i, 'z) sys_scheme \<Rightarrow>
   ((PublisherError + ptr) \<times> publisher_impl \<times> ('i, 'z) sys_scheme) option" where
  "Publisher_loan api number_of_bytes p w =
     do { port \<leftarrow> pub_publisher p;
          case call (loan_slice_uninit api port number_of_bytes) w of
            (Inl e, w) \<Rightarrow> Some (Inl LOAN_FAILURE, p, w)
          | (Inr sample, w) \<Rightarrow>
              let (ptr, reg, w) = registry_store api sample (pub_registry p) w
              in Some (Inr ptr, p\<lparr>pub_registry := reg\<rparr>, w) }"

text \<open>\<open>return_loan\<close>: the released sample is destroyed with the result that holds it.\<close>

definition Publisher_return_loan ::
  "'i iox2 \<Rightarrow> ptr \<Rightarrow> publisher_impl \<Rightarrow> ('i, 'z) sys_scheme \<Rightarrow>
   ((PublisherError + unit) \<times> publisher_impl \<times> ('i, 'z) sys_scheme) option" where
  "Publisher_return_loan api loaned_memory p w =
     (case registry_release loaned_memory (pub_registry p) of
        (Inl SampleRegistry_INVALID_PAYLOAD, reg) \<Rightarrow> Some (Inl Pub_INVALID_PAYLOAD, p, w)
      | (Inr sample, reg) \<Rightarrow>
          Some (Inr (), p\<lparr>pub_registry := reg\<rparr>, run_iox (sample_drop api sample) w))"

definition Publisher_publish_loan ::
  "'i iox2 \<Rightarrow> ptr \<Rightarrow> publisher_impl \<Rightarrow> ('i, 'z) sys_scheme \<Rightarrow>
   ((PublisherError + unit) \<times> publisher_impl \<times> ('i, 'z) sys_scheme) option" where
  "Publisher_publish_loan api loaned_memory p w =
     (case registry_release loaned_memory (pub_registry p) of
        (Inl _, reg) \<Rightarrow> Some (Inl Pub_INVALID_PAYLOAD, p, chain ''invalid payload pointer'' w)
      | (Inr sample, reg) \<Rightarrow>
          let p = p\<lparr>pub_registry := reg\<rparr> in
          (case call (sample_send api sample) w of
             (Inl e, w) \<Rightarrow> Some (Inl SEND_FAILURE, p, chain e w)
           | (Inr _, w) \<Rightarrow> do {
               notifier \<leftarrow> pub_notifier p;
               case call (notify api notifier None) w of
                 (Inl e, w) \<Rightarrow> Some (Inl Pub_NOTIFICATION_FAILURE, p, chain e w)
               | (Inr _, w) \<Rightarrow> Some (Inr (), p, w) }))"

definition Publisher_publish_copy ::
  "'i iox2 \<Rightarrow> u8 list \<Rightarrow> publisher_impl \<Rightarrow> ('i, 'z) sys_scheme \<Rightarrow>
   ((PublisherError + unit) \<times> publisher_impl \<times> ('i, 'z) sys_scheme) option" where
  "Publisher_publish_copy api payload p w =
     do { port \<leftarrow> pub_publisher p;
          case call (send_slice_copy api port payload) w of
            (Inl e, w) \<Rightarrow> Some (Inl SEND_FAILURE, p, chain e w)
          | (Inr _, w) \<Rightarrow> do {
              notifier \<leftarrow> pub_notifier p;
              case call (notify api notifier None) w of
                (Inl e, w) \<Rightarrow> Some (Inl Pub_NOTIFICATION_FAILURE, p, chain e w)
              | (Inr _, w) \<Rightarrow> Some (Inr (), p, w) } }"

text \<open>The destructor destroys the members in the reverse order of their declaration.\<close>

definition Publisher_dtor :: "'i iox2 \<Rightarrow> publisher_impl \<Rightarrow> 'i \<Rightarrow> 'i" where
  "Publisher_dtor api p i =
     drop_opt (port_drop api) (pub_notifier p)
       (drop_opt (port_drop api) (pub_publisher p)
         (registry_dtor api (pub_registry p) i))"

section \<open>Construction\<close>

text \<open>Type supports whose introspection handles, where there are any, carry data.\<close>

definition sizes_readable :: "'m ros_env \<Rightarrow> ptr \<Rightarrow> bool" where
  "sizes_readable env ts \<longleftrightarrow> introspection_cpp env ts \<noteq> Inr None \<and> introspection_c env ts \<noteq> Inr None"

lemma message_size_returns:
  "sizes_readable env ts \<Longrightarrow> \<exists>n w'. message_size env ts w = Some (n, w')"
  by (auto simp: sizes_readable_def message_size_def typesupport_handle_def
      split: sum.split option.split prod.split)

lemma Publisher_ctor_ok:
  fixes w :: "('i, 'z) sys_scheme"
  assumes "node_wf node" and ts: "sizes_readable env ts"
  shows "ctor_ok publisher_wf errmsg (Publisher_ctor api env node topic ts w)"
proof -
  obtain h l q where node: "nd_iox2 node = Some h" "m_local h = Some l" "m_ipc h = Some q"
    using assms(1) by (auto simp: node_wf_def elim!: iceoryx2_wfE)
  have no_null: "message_size env ts v = None \<longleftrightarrow> False" for v :: "('i, 'z) sys_scheme"
    using message_size_returns [OF ts, of v] by auto
  show ?thesis
    by (auto simp: Publisher_ctor_def Node_iox2_def node publisher_wf_def Let_def no_null
        split: sum.split prod.split Option.bind_split)
qed

interpretation pub: fallible_class "Publisher_ctor api env node topic ts"
  "\<lambda>_. node_wf node \<and> sizes_readable env ts" publisher_wf errmsg
  for api :: "'i iox2" and env :: "'m ros_env" and node topic ts
  by unfold_locales (blast intro: Publisher_ctor_ok)

section \<open>The loan ledger\<close>

text \<open>
  The registry of a publisher holds exactly the samples the runtime counts as loaned by its port.
\<close>

definition publisher_balanced :: "('i \<Rightarrow> ptr set) \<Rightarrow> publisher_impl \<Rightarrow> ('i, 'z) sys_scheme \<Rightarrow> bool" where
  "publisher_balanced loaned p w \<longleftrightarrow>
     publisher_wf p \<and> dom (map_of (pub_registry p)) = loaned (iox w)"

lemma Publisher_loan_cases:
  assumes "publisher_balanced loaned p w" and port: "pub_publisher p = Some port"
    and c: "loan_contract api port loaned"
  obtains e w' where "loan_slice_uninit api port n (iox w) = (Inl e, iox w')"
      "Publisher_loan api n p w = Some (Inl LOAN_FAILURE, p, w')"
      "w' = w\<lparr>iox := iox w'\<rparr>" "publisher_balanced loaned p w'"
  | s reg w' where "loan_slice_uninit api port n (iox w) = (Inr s, iox w')"
      "smp_data s \<notin> dom (map_of (pub_registry p))"
      "Publisher_loan api n p w = Some (Inr (smp_data s), p\<lparr>pub_registry := reg\<rparr>, w')"
      "map_of reg = (map_of (pub_registry p))(smp_data s \<mapsto> s)"
      "w' = w\<lparr>iox := iox w'\<rparr>" "publisher_balanced loaned (p\<lparr>pub_registry := reg\<rparr>) w'"
proof -
  obtain r i where r: "loan_slice_uninit api port n (iox w) = (r, i)" by fastforce
  define w' where "w' = w\<lparr>iox := i\<rparr>"
  have call: "call (loan_slice_uninit api port n) w = (r, w')" and i: "iox w' = i"
    using r by (simp_all add: call_def w'_def)
  from assms(1) have wf: "publisher_wf p" and dom: "dom (map_of (pub_registry p)) = loaned (iox w)"
    by (simp_all add: publisher_balanced_def)
  show thesis
  proof (cases r)
    case (Inl e)
    have "loaned i = loaned (iox w)" using loan_contractD(4) [OF c] r Inl by blast
    with Inl r call i wf dom port show thesis
      by (intro that(1) [of e w']) (simp_all add: Publisher_loan_def publisher_balanced_def w'_def)
  next
    case (Inr s)
    from r Inr have fresh: "smp_data s \<notin> dom (map_of (pub_registry p))"
      and new: "loaned i = insert (smp_data s) (loaned (iox w))"
      using loan_contractD(2,3) [OF c] dom by blast+
    from wf have "registry_wf (pub_registry p)" by (simp add: publisher_wf_def)
    from reg.store_free [OF this fresh, of api w'] obtain reg' where
      reg: "registry_store api s (pub_registry p) w' = (smp_data s, reg', w')" "registry_wf reg'"
        "map_of reg' = (map_of (pub_registry p))(smp_data s \<mapsto> s)" by blast
    from Inr r call i reg wf dom new port fresh show thesis
      by (intro that(2) [of s w' reg'])
        (simp_all add: Publisher_loan_def publisher_balanced_def publisher_wf_def w'_def)
  qed
qed

lemma publisher_balanced_release:
  assumes "publisher_balanced loaned p w" and "registry_wf reg"
    and "map_of reg = (map_of (pub_registry p))(q := None)"
    and "loaned (iox w') = loaned (iox w) - {q}"
  shows "publisher_balanced loaned (p\<lparr>pub_registry := reg\<rparr>) w'"
  using assms by (auto simp: publisher_balanced_def publisher_wf_def)

lemma publisher_balanced_frame:
  "publisher_balanced loaned p w \<Longrightarrow> loaned (iox w') = loaned (iox w) \<Longrightarrow> publisher_balanced loaned p w'"
  by (simp add: publisher_balanced_def)

text \<open>
  What each way of ending a loan comes to: an unknown address changes nothing in the runtime; a
  known one leaves the registry, and the runtime gets the sample itself.
\<close>

lemma Publisher_return_loan_cases:
  assumes "publisher_wf p"
  obtains "map_of (pub_registry p) q = None"
      "Publisher_return_loan api q p w = Some (Inl Pub_INVALID_PAYLOAD, p, w)"
  | s reg where "map_of (pub_registry p) q = Some s" "smp_data s = q" "registry_wf reg"
      "map_of reg = (map_of (pub_registry p))(q := None)"
      "Publisher_return_loan api q p w =
         Some (Inr (), p\<lparr>pub_registry := reg\<rparr>, run_iox (sample_drop api s) w)"
proof -
  from assms have "registry_wf (pub_registry p)" by (simp add: publisher_wf_def)
  then show thesis
    by (rule reg.release_cases [of _ q]) (auto simp: Publisher_return_loan_def intro: that)
qed

lemma Publisher_publish_loan_cases:
  assumes "publisher_wf p"
  obtains "map_of (pub_registry p) q = None"
      "Publisher_publish_loan api q p w = Some (Inl Pub_INVALID_PAYLOAD, p, chain ''invalid payload pointer'' w)"
  | s reg r w' where "map_of (pub_registry p) q = Some s" "smp_data s = q" "registry_wf reg"
      "map_of reg = (map_of (pub_registry p))(q := None)"
      "Publisher_publish_loan api q p w = Some (r, p\<lparr>pub_registry := reg\<rparr>, w')"
      "r = Inl SEND_FAILURE \<Longrightarrow>
         isl (fst (sample_send api s (iox w))) \<and> iox w' = snd (sample_send api s (iox w))"
      "r \<noteq> Inl SEND_FAILURE \<Longrightarrow>
         \<not> isl (fst (sample_send api s (iox w))) \<and>
         iox w' = snd (notify api (the (pub_notifier p)) None (snd (sample_send api s (iox w)))) \<and>
         r = (if isl (fst (notify api (the (pub_notifier p)) None (snd (sample_send api s (iox w)))))
              then Inl Pub_NOTIFICATION_FAILURE else Inr ())"
proof -
  from assms obtain nt where reg: "registry_wf (pub_registry p)" and nt: "pub_notifier p = Some nt"
    by (auto simp: publisher_wf_def)
  show thesis
  proof (rule reg.release_cases [OF reg, of q])
    assume "map_of (pub_registry p) q = None"
      and "registry_release q (pub_registry p) = (Inl SampleRegistry_INVALID_PAYLOAD, pub_registry p)"
    then show thesis by (intro that(1)) (auto simp: Publisher_publish_loan_def)
  next
    fix s reg'
    assume *: "map_of (pub_registry p) q = Some s" "smp_data s = q"
      "registry_release q (pub_registry p) = (Inr s, reg')" "registry_wf reg'"
      "map_of reg' = (map_of (pub_registry p))(q := None)"
    obtain sr i where send: "sample_send api s (iox w) = (sr, i)" by fastforce
    obtain nr j where notif: "notify api nt None i = (nr, j)" by fastforce
    have call: "call (sample_send api s) w = (sr, w\<lparr>iox := i\<rparr>)"
      "call (notify api nt None) (w\<lparr>iox := i\<rparr>) = (nr, w\<lparr>iox := j\<rparr>)"
      by (simp_all add: call_def send notif)
    show thesis
    proof (cases sr)
      case (Inl e)
      with * call send show thesis
        by (intro that(2) [of s reg' "Inl SEND_FAILURE" "chain e (w\<lparr>iox := i\<rparr>)"])
          (simp_all add: Publisher_publish_loan_def)
    next
      case (Inr k)
      note sent = this
      show thesis
      proof (cases nr)
        case (Inl e)
        with * call send notif sent nt show thesis
          by (intro that(2) [of s reg' "Inl Pub_NOTIFICATION_FAILURE" "chain e (w\<lparr>iox := j\<rparr>)"])
            (simp_all add: Publisher_publish_loan_def)
      next
        case (Inr l)
        with * call send notif sent nt show thesis
          by (intro that(2) [of s reg' "Inr ()" "w\<lparr>iox := j\<rparr>"])
            (simp_all add: Publisher_publish_loan_def)
      qed
    qed
  qed
qed

lemma Publisher_publish_copy_frame:
  assumes "publisher_wf p" and "loan_contract api port loaned"
  shows "\<exists>r w'. Publisher_publish_copy api bs p w = Some (r, p, w') \<and> loaned (iox w') = loaned (iox w)"
proof -
  obtain pp nt where p: "pub_publisher p = Some pp" "pub_notifier p = Some nt"
    using assms(1) by (auto simp: publisher_wf_def)
  show ?thesis
    using loan_contractD(7,8) [OF assms(2)]
    by (auto simp: Publisher_publish_copy_def p call_def split: prod.split sum.split)
      (metis snd_conv)+
qed

section \<open>The life of a publisher\<close>

text \<open>Any method, with any argument, may come next.\<close>

inductive publisher_step ::
  "'i iox2 \<Rightarrow> publisher_impl \<times> ('i, 'z) sys_scheme \<Rightarrow> publisher_impl \<times> ('i, 'z) sys_scheme \<Rightarrow> bool"
  for api where
  loan: "Publisher_loan api n p w = Some (r, p', w') \<Longrightarrow> publisher_step api (p, w) (p', w')"
| return_loan: "Publisher_return_loan api q p w = Some (r, p', w') \<Longrightarrow> publisher_step api (p, w) (p', w')"
| publish_loan: "Publisher_publish_loan api q p w = Some (r, p', w') \<Longrightarrow> publisher_step api (p, w) (p', w')"
| publish_copy: "Publisher_publish_copy api bs p w = Some (r, p', w') \<Longrightarrow> publisher_step api (p, w) (p', w')"

inductive_cases publisher_stepE: "publisher_step api (p, w) (p', w')"

lemma publisher_step_balanced:
  assumes step: "publisher_step api (p, w) (p', w')"
    and bal: "publisher_balanced loaned p w"
    and port: "pub_publisher p = Some port" and c: "loan_contract api port loaned"
  shows "publisher_balanced loaned p' w' \<and> pub_publisher p' = Some port"
proof -
  from bal have wf: "publisher_wf p" by (simp add: publisher_balanced_def)
  from step show ?thesis
  proof cases
    case (loan n r)
    then show ?thesis
      by (rule_tac Publisher_loan_cases [OF bal port c, of n]) (use port in auto)
  next
    case (return_loan q r)
    then show ?thesis
      by (rule_tac Publisher_return_loan_cases [OF wf, of q api w])
        (use bal port loan_contractD(6) [OF c] in \<open>auto intro!: publisher_balanced_release\<close>)
  next
    case (publish_loan q r)
    show ?thesis
    proof (rule Publisher_publish_loan_cases [OF wf, of q api w])
      assume "Publisher_publish_loan api q p w =
        Some (Inl Pub_INVALID_PAYLOAD, p, chain ''invalid payload pointer'' w)"
      with publish_loan bal port show ?thesis
        by (auto intro: publisher_balanced_frame)
    next
      fix s reg r1 w1
      assume *: "smp_data s = q" "registry_wf reg"
        "map_of reg = (map_of (pub_registry p))(q := None)"
        "Publisher_publish_loan api q p w = Some (r1, p\<lparr>pub_registry := reg\<rparr>, w1)"
        "r1 = Inl SEND_FAILURE \<Longrightarrow>
          isl (fst (sample_send api s (iox w))) \<and> iox w1 = snd (sample_send api s (iox w))"
        "r1 \<noteq> Inl SEND_FAILURE \<Longrightarrow>
         \<not> isl (fst (sample_send api s (iox w))) \<and>
         iox w1 = snd (notify api (the (pub_notifier p)) None (snd (sample_send api s (iox w)))) \<and>
         r1 = (if isl (fst (notify api (the (pub_notifier p)) None (snd (sample_send api s (iox w)))))
              then Inl Pub_NOTIFICATION_FAILURE else Inr ())"
      then have "loaned (iox w1) = loaned (iox w) - {q}"
        using loan_contractD(5,8) [OF c] by (cases "r1 = Inl SEND_FAILURE") auto
      with * publish_loan bal port show ?thesis
        by (auto intro!: publisher_balanced_release)
    qed
  next
    case (publish_copy bs r)
    then show ?thesis
      using Publisher_publish_copy_frame [OF wf c, of bs w] bal port
      by (auto intro: publisher_balanced_frame)
  qed
qed

lemma publisher_steps_balanced:
  "(publisher_step api)\<^sup>*\<^sup>* (p, w) (p', w') \<Longrightarrow> publisher_balanced loaned p w \<Longrightarrow>
   pub_publisher p = Some port \<Longrightarrow> loan_contract api port loaned \<Longrightarrow>
   publisher_balanced loaned p' w' \<and> pub_publisher p' = Some port"
proof (induction "(p', w')" arbitrary: p' w' rule: rtranclp_induct)
  case base
  then show ?case by simp
next
  case (step y)
  then show ?case by (cases y) (blast dest: publisher_step_balanced)
qed

text \<open>Destroying a publisher ends all its loans.\<close>

lemma registry_dtor_ends_loans:
  "loan_contract api port loaned \<Longrightarrow> registry_wf reg \<Longrightarrow>
   loaned (registry_dtor api reg i) = loaned i - fst ` set reg"
proof (induction reg arbitrary: i)
  case Nil
  then show ?case by (simp add: registry_dtor_def)
next
  case (Cons a reg)
  then show ?case
    by (cases a) (auto simp: registry_dtor_def registry_wf_def loan_contractD(6))
qed

lemma Publisher_dtor_ends_loans:
  assumes "publisher_balanced loaned p w" and c: "loan_contract api port loaned"
  shows "loaned (Publisher_dtor api p (iox w)) = {}"
proof -
  from assms(1) have "registry_wf (pub_registry p)" "fst ` set (pub_registry p) = loaned (iox w)"
    by (auto simp: publisher_balanced_def publisher_wf_def dom_map_of_conv_image_fst)
  with c show ?thesis
    by (simp add: Publisher_dtor_def drop_opt_def loan_contractD(10) registry_dtor_ends_loans
        split: option.split)
qed

section \<open>On the concrete middleware\<close>

definition sim_publisher :: publisher_impl where
  "sim_publisher =
     \<lparr>pub_topic = ''/chatter'', pub_typesupport = 1, pub_unserialized_size = 8,
      pub_service_name = names_topic ''/chatter'', pub_unique_id = Some 6, pub_notifier = Some 4,
      pub_publisher = Some 6, pub_registry = []\<rparr>"

lemma sim_sizes_readable [simp]: "sizes_readable sim_env ts"
  by (simp add: sizes_readable_def sim_env_def)

lemma sim_publisher_wf [simp]: "publisher_wf sim_publisher"
  by (simp add: publisher_wf_def sim_publisher_def)

lemma sim_publisher_balanced [simp]: "publisher_balanced (\<lambda>i. set (sim_loans i)) sim_publisher sim_sys"
  by (simp add: publisher_balanced_def) (simp add: sim_publisher_def sim_sys_def sim_start_def)

section \<open>Properties\<close>

text \<open>Over any sequence of loans, returns and publications, with any arguments, successful or not,
  the registry of a publisher holds exactly the samples its iceoryx2 port has out: nothing leaks
  and nothing is released twice.\<close>
lemma publisher_ledger:
  assumes "loan_contract api port loaned" and "publisher_balanced loaned p w"
    and "pub_publisher p = Some port" and "(publisher_step api)\<^sup>*\<^sup>* (p, w) (p', w')"
  shows "publisher_balanced loaned p' w'"
  using publisher_steps_balanced [OF assms(4,2,3,1)] by simp

text \<open>A new publisher that loans 8 bytes.\<close>
lemma publisher_ledger_witness:
  "\<exists>p' w'. Publisher_loan sim_api 8 sim_publisher sim_sys = Some (Inr 1, p', w') \<and>
    publisher_balanced (\<lambda>i. set (sim_loans i)) p' w' \<and> 1 \<in> set (sim_loans (iox w'))"
proof -
  let ?p' = "sim_publisher\<lparr>pub_registry := [(1, \<lparr>smp_data = 1, smp_len = 8, smp_key = 1\<rparr>)]\<rparr>"
  let ?w' = "sim_sys\<lparr>iox := sim_start\<lparr>sim_loans := [1]\<rparr>\<rparr>"
  have step: "Publisher_loan sim_api 8 sim_publisher sim_sys = Some (Inr 1, ?p', ?w')"
    by (simp add: Publisher_loan_def sim_publisher_def sim_api_def sim_loan_def sim_sys_def sim_start_def
        call_def registry_store_def fresh_def)
  from publisher_ledger [OF sim_loan_contract sim_publisher_balanced _ r_into_rtranclp [of "publisher_step sim_api", OF publisher_step.loan [OF step]]]
  have "publisher_balanced (\<lambda>i. set (sim_loans i)) ?p' ?w'" by (simp add: sim_publisher_def)
  with step show ?thesis by (auto simp: sim_sys_def sim_start_def)
qed

text \<open>\<open>publish_loan\<close> on a complete publisher returns. For an address that is not a loan of this
  publisher it fails and changes nothing; for a loan it takes exactly that sample out of the
  registry and sends it, and only after a successful send notifies the subscribers, so an error
  after the send leaves no sample behind.\<close>
lemma publish_loan_effects:
  assumes "publisher_wf p"
  shows "\<exists>r p' w'. Publisher_publish_loan api q p w = Some (r, p', w') \<and>
    (case map_of (pub_registry p) q of
       None \<Rightarrow> r = Inl Pub_INVALID_PAYLOAD \<and> p' = p \<and> iox w' = iox w
     | Some s \<Rightarrow>
         map_of (pub_registry p') = (map_of (pub_registry p))(q := None) \<and>
         (let (sent, i) = sample_send api s (iox w);
              (notified, j) = notify api (the (pub_notifier p)) None i in
          if isl sent then r = Inl SEND_FAILURE \<and> iox w' = i
          else r = (if isl notified then Inl Pub_NOTIFICATION_FAILURE else Inr ()) \<and> iox w' = j))"
proof (rule Publisher_publish_loan_cases [OF assms, of q api w])
  fix s reg r w'
  assume *: "map_of (pub_registry p) q = Some s"
    "map_of reg = (map_of (pub_registry p))(q := None)"
    "Publisher_publish_loan api q p w = Some (r, p\<lparr>pub_registry := reg\<rparr>, w')"
    "r = Inl SEND_FAILURE \<Longrightarrow>
      isl (fst (sample_send api s (iox w))) \<and> iox w' = snd (sample_send api s (iox w))"
    "r \<noteq> Inl SEND_FAILURE \<Longrightarrow>
     \<not> isl (fst (sample_send api s (iox w))) \<and>
     iox w' = snd (notify api (the (pub_notifier p)) None (snd (sample_send api s (iox w)))) \<and>
     r = (if isl (fst (notify api (the (pub_notifier p)) None (snd (sample_send api s (iox w)))))
          then Inl Pub_NOTIFICATION_FAILURE else Inr ())"
  show ?thesis
    by (cases "r = Inl SEND_FAILURE")
      (use * in \<open>auto simp: split_beta intro!: exI [of _ r] exI [of _ "p\<lparr>pub_registry := reg\<rparr>"] exI [of _ w']\<close>)
qed auto

text \<open>A publisher that has loaned one sample publishes it.\<close>
lemma publish_loan_effects_witness:
  "\<exists>r p' w'. Publisher_publish_loan sim_api 3
      (sim_publisher\<lparr>pub_registry := [(3, \<lparr>smp_data = 3, smp_len = 8, smp_key = 5\<rparr>)]\<rparr>) sim_sys = Some (r, p', w') \<and>
    r = Inr () \<and> sim_sent (iox w') = [5]"
proof -
  have "publisher_wf (sim_publisher\<lparr>pub_registry := [(3, \<lparr>smp_data = 3, smp_len = 8, smp_key = 5\<rparr>)]\<rparr>)"
    by (simp add: publisher_wf_def sim_publisher_def registry_wf_def)
  from publish_loan_effects [OF this, of sim_api 3 sim_sys] show ?thesis
    by (auto simp: sim_api_def sim_sys_def sim_start_def)
qed

text \<open>Destroying a publisher ends all its loans.\<close>
lemma publisher_destruction:
  assumes "loan_contract api port loaned" and "publisher_balanced loaned p w"
  shows "loaned (Publisher_dtor api p (iox w)) = {}"
  by (rule Publisher_dtor_ends_loans [OF assms(2,1)])

text \<open>A publisher with a loan out is destroyed.\<close>
lemma publisher_destruction_witness:
  "set (sim_loans (Publisher_dtor sim_api
     (sim_publisher\<lparr>pub_registry := [(1, \<lparr>smp_data = 1, smp_len = 8, smp_key = 1\<rparr>)]\<rparr>)
     (sim_start\<lparr>sim_loans := [1]\<rparr>))) = {}"
proof -
  have "publisher_balanced (\<lambda>i. set (sim_loans i))
      (sim_publisher\<lparr>pub_registry := [(1, \<lparr>smp_data = 1, smp_len = 8, smp_key = 1\<rparr>)]\<rparr>)
      (sim_sys\<lparr>iox := sim_start\<lparr>sim_loans := [1]\<rparr>\<rparr>)"
    by (simp add: publisher_balanced_def publisher_wf_def sim_publisher_def registry_wf_def)
  from publisher_destruction [OF sim_loan_contract this] show ?thesis by simp
qed

text \<open>Creating a publisher on a complete node, for a type support whose introspection data is
  there, returns: an error with the message set, or a complete publisher for the service the topic's
  name gives.\<close>
lemma publisher_creation:
  assumes "node_wf node" and "sizes_readable env ts"
  shows "\<exists>r p w'. create_in_place (Publisher_ctor api env node topic ts) w = Some (r, Some p, w') \<and>
    (case r of Inl _ \<Rightarrow> errmsg w' \<noteq> None | Inr _ \<Rightarrow> publisher_wf p)"
  by (rule pub.create_in_place_cases [where node = node and env = env and ts = ts and s = w and api = api and topic = topic]) (use assms in auto)

text \<open>On the concrete middleware.\<close>
lemma publisher_creation_witness:
  "\<exists>r p w'. create_in_place (Publisher_ctor sim_api sim_env sim_node ''/chatter'' 1) sim_sys = Some (r, Some p, w') \<and>
    (case r of Inl _ \<Rightarrow> errmsg w' \<noteq> None | Inr _ \<Rightarrow> publisher_wf p)"
  by (rule publisher_creation) simp_all

end
