(* ===== verification/Subscriber.thy ===== *)
theory Subscriber
  imports Publisher
begin

text \<open>
  \<open>impl/runtime/subscriber\<close>: the implementation object of an RMW subscription. It owns an iceoryx2
  subscriber for the service named after the topic, and the registry of the samples it has received
  and lent to the layers above.
\<close>

record subscriber_impl =
  sub_topic :: string
  sub_typesupport :: ptr
  sub_service_name :: string
  sub_unique_id :: "nat option"
  sub_subscriber :: "nat option"
  sub_registry :: registry

definition subscriber_wf :: "subscriber_impl \<Rightarrow> bool" where
  "subscriber_wf s \<longleftrightarrow>
     sub_unique_id s \<noteq> None \<and> sub_subscriber s \<noteq> None \<and>
     sub_service_name s = names_topic (sub_topic s) \<and> registry_wf (sub_registry s)"

definition Subscriber_ctor ::
  "'i iox2 \<Rightarrow> node_impl \<Rightarrow> string \<Rightarrow> ptr \<Rightarrow>
   (('i, 'z) sys_scheme, subscriber_impl, SubscriberError) ctor" where
  "Subscriber_ctor api node topic type_support w =
     (let this = \<lparr>sub_topic = topic, sub_typesupport = type_support,
                  sub_service_name = names_topic topic, sub_unique_id = None,
                  sub_subscriber = None, sub_registry = []\<rparr> in
      case service_name_create api (sub_service_name this) of
        Inl e \<Rightarrow> Some ((this, Some Sub_SERVICE_NAME_CREATION_FAILURE), chain e w)
      | Inr iox2_service_name \<Rightarrow> do {
          handle \<leftarrow> Node_iox2 node;
          ipc \<leftarrow> Iceoryx2_ipc handle;
          case call (pubsub_open_or_create api ipc iox2_service_name pubsub_settings) w of
            (Inl e, w) \<Rightarrow> Some ((this, Some Sub_SERVICE_CREATION_FAILURE), chain e w)
          | (Inr pubsub_service, w) \<Rightarrow>
            (case call (subscriber_create api pubsub_service) w of
               (Inl e, w) \<Rightarrow> Some ((this, Some SUBSCRIBER_CREATION_FAILURE), chain e w)
             | (Inr subscriber, w) \<Rightarrow>
                 Some ((this\<lparr>sub_unique_id := Some subscriber,
                             sub_subscriber := Some subscriber\<rparr>, None), w)) })"

definition Subscriber_unique_id :: "'i iox2 \<Rightarrow> subscriber_impl \<Rightarrow> u8 list option option" where
  "Subscriber_unique_id api s =
     (case sub_unique_id s of None \<Rightarrow> None | Some port \<Rightarrow> Some (port_id_bytes api port))"

text \<open>
  \<open>take_copy\<close> copies the payload to the destination; here the copied bytes are part of the result
  (\<open>None\<close>: nothing was received and nothing is written). The sample is destroyed at the end.
\<close>

definition Subscriber_take_copy ::
  "'i iox2 \<Rightarrow> subscriber_impl \<Rightarrow> ('i, 'z) sys_scheme \<Rightarrow>
   ((SubscriberError + bool) \<times> u8 list option \<times> ('i, 'z) sys_scheme) option" where
  "Subscriber_take_copy api s w =
     do { port \<leftarrow> sub_subscriber s;
          case call (receive api port) w of
            (Inl e, w) \<Rightarrow> Some (Inl RECV_FAILURE, None, chain e w)
          | (Inr None, w) \<Rightarrow> Some (Inr False, None, w)
          | (Inr (Some sample), w) \<Rightarrow>
              let payload = payload_bytes api sample (iox w)
              in Some (Inr True, Some payload, run_iox (sample_drop api sample) w) }"

record subscriber_loan =
  loan_bytes :: ptr
  loan_number_of_bytes :: nat

definition Subscriber_take_loan ::
  "'i iox2 \<Rightarrow> subscriber_impl \<Rightarrow> ('i, 'z) sys_scheme \<Rightarrow>
   ((SubscriberError + subscriber_loan option) \<times> subscriber_impl \<times> ('i, 'z) sys_scheme) option" where
  "Subscriber_take_loan api s w =
     do { port \<leftarrow> sub_subscriber s;
          case call (receive api port) w of
            (Inl e, w) \<Rightarrow> Some (Inl RECV_FAILURE, s, chain e w)
          | (Inr None, w) \<Rightarrow> Some (Inr None, s, w)
          | (Inr (Some sample), w) \<Rightarrow>
              let (_, reg, w) = registry_store api sample (sub_registry s) w
              in Some (Inr (Some \<lparr>loan_bytes = smp_data sample, loan_number_of_bytes = smp_len sample\<rparr>),
                       s\<lparr>sub_registry := reg\<rparr>, w) }"

definition Subscriber_return_loan ::
  "'i iox2 \<Rightarrow> ptr \<Rightarrow> subscriber_impl \<Rightarrow> ('i, 'z) sys_scheme \<Rightarrow>
   ((SubscriberError + unit) \<times> subscriber_impl \<times> ('i, 'z) sys_scheme) option" where
  "Subscriber_return_loan api loaned_memory s w =
     (case registry_release loaned_memory (sub_registry s) of
        (Inl SampleRegistry_INVALID_PAYLOAD, reg) \<Rightarrow> Some (Inl Sub_INVALID_PAYLOAD, s, w)
      | (Inr sample, reg) \<Rightarrow>
          Some (Inr (), s\<lparr>sub_registry := reg\<rparr>, run_iox (sample_drop api sample) w))"

definition Subscriber_dtor :: "'i iox2 \<Rightarrow> subscriber_impl \<Rightarrow> 'i \<Rightarrow> 'i" where
  "Subscriber_dtor api s i =
     drop_opt (port_drop api) (sub_subscriber s) (registry_dtor api (sub_registry s) i)"

section \<open>Construction\<close>

lemma Subscriber_ctor_ok:
  assumes "node_wf node"
  shows "ctor_ok subscriber_wf errmsg (Subscriber_ctor api node topic ts w)"
proof -
  obtain h l q where "nd_iox2 node = Some h" "m_local h = Some l" "m_ipc h = Some q"
    using assms by (auto simp: node_wf_def elim!: iceoryx2_wfE)
  then show ?thesis
    by (simp add: Subscriber_ctor_def Node_iox2_def subscriber_wf_def Let_def
        split: sum.split prod.split)
qed

interpretation sub: fallible_class "Subscriber_ctor api node topic ts"
  "\<lambda>_. node_wf node" subscriber_wf errmsg
  for api :: "'i iox2" and node topic ts
  by unfold_locales (rule Subscriber_ctor_ok)

lemma Subscriber_ctor_fields:
  "Subscriber_ctor api node topic ts w = Some ((s, e), w') \<Longrightarrow>
   sub_topic s = topic \<and> sub_typesupport s = ts \<and> sub_service_name s = names_topic topic \<and>
   sub_registry s = [] \<and> (e = None \<longrightarrow> (\<exists>n. service_name_create api (names_topic topic) = Inr n))"
  by (auto simp: Subscriber_ctor_def Let_def split: Option.bind_splits sum.splits prod.splits)

section \<open>The ledger of received samples\<close>

definition subscriber_balanced :: "('i \<Rightarrow> ptr set) \<Rightarrow> subscriber_impl \<Rightarrow> ('i, 'z) sys_scheme \<Rightarrow> bool" where
  "subscriber_balanced held s w \<longleftrightarrow>
     subscriber_wf s \<and> dom (map_of (sub_registry s)) = held (iox w)"

lemma Subscriber_take_copy_cases:
  assumes "subscriber_wf s" and port: "sub_subscriber s = Some port"
    and c: "receive_contract api port held"
  obtains e w' where "receive api port (iox w) = (Inl e, iox w')" "held (iox w') = held (iox w)"
      "Subscriber_take_copy api s w = Some (Inl RECV_FAILURE, None, w')" "errmsg w' \<noteq> None"
  | w' where "receive api port (iox w) = (Inr None, iox w')" "held (iox w') = held (iox w)"
      "Subscriber_take_copy api s w = Some (Inr False, None, w')" "errmsg w' = errmsg w"
  | x i w' where "receive api port (iox w) = (Inr (Some x), i)" "held (iox w') = held (iox w)"
      "Subscriber_take_copy api s w = Some (Inr True, Some (payload_bytes api x i), w')"
      "iox w' = sample_drop api x i" "errmsg w' = errmsg w"
proof -
  obtain r i where r: "receive api port (iox w) = (r, i)" by fastforce
  have call: "call (receive api port) w = (r, w\<lparr>iox := i\<rparr>)" by (simp add: call_def r)
  consider (err) e where "r = Inl e" | (none) "r = Inr None" | (some) x where "r = Inr (Some x)"
    by (metis option.exhaust sum.exhaust)
  then show thesis
  proof cases
    case err
    with r call port receive_contractD(5) [OF c] show thesis
      by (intro that(1) [of e "chain e (w\<lparr>iox := i\<rparr>)"]) (auto simp: Subscriber_take_copy_def)
  next
    case none
    with r call port receive_contractD(4) [OF c] show thesis
      by (intro that(2) [of "w\<lparr>iox := i\<rparr>"]) (auto simp: Subscriber_take_copy_def)
  next
    case some
    have "held i = insert (smp_data x) (held (iox w))" "smp_data x \<notin> held (iox w)"
      using receive_contractD(2,3) [OF c] r some by blast+
    with r call port some receive_contractD(6) [OF c] show thesis
      by (intro that(3) [of x i "run_iox (sample_drop api x) (w\<lparr>iox := i\<rparr>)"])
        (auto simp: Subscriber_take_copy_def)
  qed
qed

lemma Subscriber_take_loan_cases:
  assumes bal: "subscriber_balanced held s w" and port: "sub_subscriber s = Some port"
    and c: "receive_contract api port held"
  obtains e w' where "receive api port (iox w) = (Inl e, iox w')" "subscriber_balanced held s w'"
      "Subscriber_take_loan api s w = Some (Inl RECV_FAILURE, s, w')" "errmsg w' \<noteq> None"
  | w' where "receive api port (iox w) = (Inr None, iox w')" "subscriber_balanced held s w'"
      "Subscriber_take_loan api s w = Some (Inr None, s, w')" "errmsg w' = errmsg w"
  | x reg w' where "receive api port (iox w) = (Inr (Some x), iox w')"
      "smp_data x \<notin> dom (map_of (sub_registry s))"
      "Subscriber_take_loan api s w =
         Some (Inr (Some \<lparr>loan_bytes = smp_data x, loan_number_of_bytes = smp_len x\<rparr>),
               s\<lparr>sub_registry := reg\<rparr>, w')"
      "map_of reg = (map_of (sub_registry s))(smp_data x \<mapsto> x)"
      "subscriber_balanced held (s\<lparr>sub_registry := reg\<rparr>) w'" "errmsg w' = errmsg w"
proof -
  obtain r i where r: "receive api port (iox w) = (r, i)" by fastforce
  have call: "call (receive api port) w = (r, w\<lparr>iox := i\<rparr>)" by (simp add: call_def r)
  from bal have wf: "subscriber_wf s" and dom: "dom (map_of (sub_registry s)) = held (iox w)"
    by (simp_all add: subscriber_balanced_def)
  consider (err) e where "r = Inl e" | (none) "r = Inr None" | (some) x where "r = Inr (Some x)"
    by (metis option.exhaust sum.exhaust)
  then show thesis
  proof cases
    case err
    with r call port wf dom receive_contractD(5) [OF c] show thesis
      by (intro that(1) [of e "chain e (w\<lparr>iox := i\<rparr>)"])
        (auto simp: Subscriber_take_loan_def subscriber_balanced_def)
  next
    case none
    with r call port wf dom receive_contractD(4) [OF c] show thesis
      by (intro that(2) [of "w\<lparr>iox := i\<rparr>"])
        (auto simp: Subscriber_take_loan_def subscriber_balanced_def)
  next
    case some
    have new: "held i = insert (smp_data x) (held (iox w))"
      and fresh: "smp_data x \<notin> dom (map_of (sub_registry s))"
      using receive_contractD(2,3) [OF c] r some dom by blast+
    from wf have "registry_wf (sub_registry s)" by (simp add: subscriber_wf_def)
    from reg.store_free [OF this fresh, of api "w\<lparr>iox := i\<rparr>"] obtain reg' where
      reg: "registry_store api x (sub_registry s) (w\<lparr>iox := i\<rparr>) = (smp_data x, reg', w\<lparr>iox := i\<rparr>)"
        "registry_wf reg'" "map_of reg' = (map_of (sub_registry s))(smp_data x \<mapsto> x)" by blast
    with r call port wf dom some new fresh show thesis
      by (intro that(3) [of x "w\<lparr>iox := i\<rparr>" reg'])
        (simp_all add: Subscriber_take_loan_def subscriber_balanced_def subscriber_wf_def)
  qed
qed

lemma Subscriber_return_loan_cases:
  assumes "subscriber_wf s"
  obtains "map_of (sub_registry s) q = None"
      "Subscriber_return_loan api q s w = Some (Inl Sub_INVALID_PAYLOAD, s, w)"
  | x reg where "map_of (sub_registry s) q = Some x" "smp_data x = q" "registry_wf reg"
      "map_of reg = (map_of (sub_registry s))(q := None)"
      "Subscriber_return_loan api q s w =
         Some (Inr (), s\<lparr>sub_registry := reg\<rparr>, run_iox (sample_drop api x) w)"
proof -
  from assms have "registry_wf (sub_registry s)" by (simp add: subscriber_wf_def)
  then show thesis
    by (rule reg.release_cases [of _ q]) (auto simp: Subscriber_return_loan_def intro: that)
qed

lemma subscriber_balanced_release:
  assumes "subscriber_balanced held s w" and "registry_wf reg"
    and "map_of reg = (map_of (sub_registry s))(q := None)"
    and "held (iox w') = held (iox w) - {q}"
  shows "subscriber_balanced held (s\<lparr>sub_registry := reg\<rparr>) w'"
  using assms by (auto simp: subscriber_balanced_def subscriber_wf_def)

section \<open>The life of a subscriber\<close>

inductive subscriber_step ::
  "'i iox2 \<Rightarrow> subscriber_impl \<times> ('i, 'z) sys_scheme \<Rightarrow> subscriber_impl \<times> ('i, 'z) sys_scheme \<Rightarrow> bool"
  for api where
  take_copy: "Subscriber_take_copy api s w = Some (r, bs, w') \<Longrightarrow> subscriber_step api (s, w) (s, w')"
| take_loan: "Subscriber_take_loan api s w = Some (r, s', w') \<Longrightarrow> subscriber_step api (s, w) (s', w')"
| return_loan: "Subscriber_return_loan api q s w = Some (r, s', w') \<Longrightarrow> subscriber_step api (s, w) (s', w')"

lemma subscriber_step_balanced:
  assumes step: "subscriber_step api (s, w) (s', w')"
    and bal: "subscriber_balanced held s w"
    and port: "sub_subscriber s = Some port" and c: "receive_contract api port held"
  shows "subscriber_balanced held s' w' \<and> sub_subscriber s' = Some port"
proof -
  from bal have wf: "subscriber_wf s" by (simp add: subscriber_balanced_def)
  from step show ?thesis
  proof cases
    case (take_copy r bs)
    then show ?thesis
      by (rule_tac Subscriber_take_copy_cases [OF wf port c, of w])
        (use bal port in \<open>auto simp: subscriber_balanced_def\<close>)
  next
    case (take_loan r)
    then show ?thesis
      by (rule_tac Subscriber_take_loan_cases [OF bal port c]) (use port in auto)
  next
    case (return_loan q r)
    then show ?thesis
      by (rule_tac Subscriber_return_loan_cases [OF wf, of q api w])
        (use bal port receive_contractD(6) [OF c] in
          \<open>auto intro!: subscriber_balanced_release\<close>)
  qed
qed

lemma subscriber_steps_balanced:
  "(subscriber_step api)\<^sup>*\<^sup>* (s, w) (s', w') \<Longrightarrow> subscriber_balanced held s w \<Longrightarrow>
   sub_subscriber s = Some port \<Longrightarrow> receive_contract api port held \<Longrightarrow>
   subscriber_balanced held s' w' \<and> sub_subscriber s' = Some port"
proof (induction "(s', w')" arbitrary: s' w' rule: rtranclp_induct)
  case base
  then show ?case by simp
next
  case (step y)
  then show ?case by (cases y) (blast dest: subscriber_step_balanced)
qed

section \<open>On the concrete middleware\<close>

definition sim_subscriber :: subscriber_impl where
  "sim_subscriber =
     \<lparr>sub_topic = ''/chatter'', sub_typesupport = 1, sub_service_name = names_topic ''/chatter'',
      sub_unique_id = Some 7, sub_subscriber = Some 7, sub_registry = []\<rparr>"

lemma sim_subscriber_wf [simp]: "subscriber_wf sim_subscriber"
  by (simp add: subscriber_wf_def sim_subscriber_def)

lemma sim_subscriber_balanced [simp]: "subscriber_balanced (\<lambda>i. set (sim_held i)) sim_subscriber sim_sys"
  by (simp add: subscriber_balanced_def) (simp add: sim_subscriber_def sim_sys_def sim_start_def)

section \<open>Properties\<close>

text \<open>Over any sequence of takes and returns, the registry of a subscriber holds exactly the
  received samples its iceoryx2 port counts as held.\<close>
lemma subscriber_ledger:
  assumes "receive_contract api port held" and "subscriber_balanced held s w"
    and "sub_subscriber s = Some port" and "(subscriber_step api)\<^sup>*\<^sup>* (s, w) (s', w')"
  shows "subscriber_balanced held s' w'"
  using subscriber_steps_balanced [OF assms(4,2,3,1)] by simp

text \<open>A subscriber that takes a loan of the sample that is waiting.\<close>
lemma subscriber_ledger_witness:
  "\<exists>s' w'. Subscriber_take_loan sim_api sim_subscriber sim_sys =
      Some (Inr (Some \<lparr>loan_bytes = 1, loan_number_of_bytes = 2\<rparr>), s', w') \<and>
    subscriber_balanced (\<lambda>i. set (sim_held i)) s' w' \<and> 1 \<in> set (sim_held (iox w'))"
proof -
  let ?s' = "sim_subscriber\<lparr>sub_registry := [(1, \<lparr>smp_data = 1, smp_len = 2, smp_key = 1\<rparr>)]\<rparr>"
  let ?w' = "sim_sys\<lparr>iox := sim_start\<lparr>sim_held := [1], sim_inbox := 0\<rparr>\<rparr>"
  have step: "Subscriber_take_loan sim_api sim_subscriber sim_sys =
      Some (Inr (Some \<lparr>loan_bytes = 1, loan_number_of_bytes = 2\<rparr>), ?s', ?w')"
    by (simp add: Subscriber_take_loan_def sim_subscriber_def sim_api_def sim_receive_def sim_sys_def
        sim_start_def call_def registry_store_def fresh_def)
  from subscriber_ledger [OF sim_receive_contract sim_subscriber_balanced _
      r_into_rtranclp [of "subscriber_step sim_api", OF subscriber_step.take_loan [OF step]]]
  have "subscriber_balanced (\<lambda>i. set (sim_held i)) ?s' ?w'" by (simp add: sim_subscriber_def)
  with step show ?thesis by auto
qed

text \<open>\<open>take_copy\<close> on a complete subscriber returns, holds no sample afterwards that it did not
  hold before, and yields what was received: an error with a message, nothing, or the payload.\<close>
lemma take_copy_effects:
  assumes "receive_contract api port held" and "subscriber_wf s" and "sub_subscriber s = Some port"
  shows "\<exists>r bs w'. Subscriber_take_copy api s w = Some (r, bs, w') \<and> held (iox w') = held (iox w) \<and>
    (case receive api port (iox w) of
       (Inl e, i) \<Rightarrow> r = Inl RECV_FAILURE \<and> bs = None \<and> errmsg w' \<noteq> None
     | (Inr None, i) \<Rightarrow> r = Inr False \<and> bs = None
     | (Inr (Some x), i) \<Rightarrow> r = Inr True \<and> bs = Some (payload_bytes api x i))"
  by (rule Subscriber_take_copy_cases [OF assms(2,3,1), of w]) auto

text \<open>One waiting sample is taken.\<close>
lemma take_copy_effects_witness:
  "\<exists>w'. Subscriber_take_copy sim_api sim_subscriber sim_sys = Some (Inr True, Some [7, 8], w') \<and>
    sim_held (iox w') = []"
proof -
  have "sub_subscriber sim_subscriber = Some 7" by (simp add: sim_subscriber_def)
  from take_copy_effects [OF sim_receive_contract sim_subscriber_wf this, of sim_sys] show ?thesis
    by (auto simp: payload_bytes_def sim_api_def sim_receive_def sim_sys_def sim_start_def Let_def fresh_def)
qed

end
