(* ===== verification/Waitset.thy ===== *)
theory Waitset
  imports Subscriber
begin

text \<open>
  \<open>impl/runtime/waitset\<close>: the implementation object of an RMW wait set. Guard conditions and
  subscribers are tracked above by an index; the wait set keeps an iceoryx2 listener for each
  service it has been asked about (never removed, because indices into the storage are kept),
  stages a mapping from listeners to indices before every wait, attaches the mapped listeners for
  the duration of a wait, and reports the indices whose listener was triggered.
\<close>

datatype waitable_entity = SUBSCRIBER | GUARD_CONDITION

record listener_details =
  ld_service_name :: string
  ld_listener :: nat

record rmw_mapping =
  map_type :: waitable_entity
  map_storage_index :: nat
  map_rmw_index :: nat

record triggered_waitable =
  trg_type :: waitable_entity
  trg_rmw_index :: nat

record attachment_details =
  att_guard :: nat
  att_id :: nat
  att_mapping :: rmw_mapping

text \<open>\<open>ws_context\<close> is the address of the context the wait set refers to.\<close>

record waitset_impl =
  ws_context :: ptr
  ws_waitset :: "nat option"
  ws_guard_condition_listeners :: "listener_details list"
  ws_subscriber_listeners :: "listener_details list"
  ws_mapping :: "rmw_mapping list"

definition WaitSet_ctor ::
  "'i iox2 \<Rightarrow> ptr \<Rightarrow> (('i, 'z) sys_scheme, waitset_impl, WaitSetError) ctor" where
  "WaitSet_ctor api context w =
     (let this = \<lparr>ws_context = context, ws_waitset = None, ws_guard_condition_listeners = [],
                  ws_subscriber_listeners = [], ws_mapping = []\<rparr> in
      case call (waitset_create api) w of
        (Inl e, w) \<Rightarrow> Some ((this, Some WAITSET_CREATION_FAILURE), chain e w)
      | (Inr waitset, w) \<Rightarrow> Some ((this\<lparr>ws_waitset := Some waitset\<rparr>, None), w))"

section \<open>Listener storage\<close>

text \<open>
  The template parameter \<open>ListenerType\<close> is the kind of entity: guard conditions use local services,
  subscribers inter-process ones, and each kind has its own storage.
\<close>

definition listener_service_type :: "waitable_entity \<Rightarrow> service_type" where
  "listener_service_type k = (case k of GUARD_CONDITION \<Rightarrow> Local | SUBSCRIBER \<Rightarrow> Ipc)"

definition listener_storage :: "waitable_entity \<Rightarrow> waitset_impl \<Rightarrow> listener_details list" where
  "listener_storage k ws =
     (case k of GUARD_CONDITION \<Rightarrow> ws_guard_condition_listeners ws
              | SUBSCRIBER \<Rightarrow> ws_subscriber_listeners ws)"

definition set_listener_storage ::
  "waitable_entity \<Rightarrow> listener_details list \<Rightarrow> waitset_impl \<Rightarrow> waitset_impl" where
  "set_listener_storage k ls ws =
     (case k of GUARD_CONDITION \<Rightarrow> ws\<lparr>ws_guard_condition_listeners := ls\<rparr>
              | SUBSCRIBER \<Rightarrow> ws\<lparr>ws_subscriber_listeners := ls\<rparr>)"

text \<open>
  \<open>ctx\<close> is the context object the wait set's reference designates, \<open>None\<close> when it is gone; it is only
  used for a service that has no listener yet.
\<close>

definition get_storage_index ::
  "'i iox2 \<Rightarrow> rmw_context_impl option \<Rightarrow> waitable_entity \<Rightarrow> string \<Rightarrow> waitset_impl \<Rightarrow> ('i, 'z) sys_scheme \<Rightarrow>
   ((WaitSetError + nat) \<times> waitset_impl \<times> ('i, 'z) sys_scheme) option" where
  "get_storage_index api ctx k service_name ws w =
     (let storage = listener_storage k ws in
      case find_index (\<lambda>l. ld_service_name l = service_name) storage of
        None \<Rightarrow> do {
          ctx \<leftarrow> ctx;
          handle \<leftarrow> Context_iox2 ctx;
          (inst, name) \<leftarrow> Iceoryx2_service_builder api (listener_service_type k) handle service_name;
          case call (event_open_or_create api inst name) w of
            (Inl e, w) \<Rightarrow> Some (Inl WS_SERVICE_CREATION_FAILURE, ws, chain e w)
          | (Inr service, w) \<Rightarrow>
            (case call (listener_create api service) w of
               (Inl e, w) \<Rightarrow> Some (Inl LISTENER_CREATION_FAILURE, ws, chain e w)
             | (Inr listener, w) \<Rightarrow>
               let storage = storage @ [\<lparr>ld_service_name = service_name, ld_listener = listener\<rparr>] in
               Some (Inr (length storage - 1), set_listener_storage k storage ws, w)) }
      | Some storage_index \<Rightarrow> Some (Inr storage_index, ws, w))"

definition get_stored_listener :: "waitable_entity \<Rightarrow> nat \<Rightarrow> waitset_impl \<Rightarrow> listener_details option" where
  "get_stored_listener k storage_index ws =
     (let storage = listener_storage k ws in
      if storage_index < length storage then Some (storage ! storage_index) else None)"

section \<open>Mapping\<close>

definition map_stored_listener :: "waitable_entity \<Rightarrow> nat \<Rightarrow> nat \<Rightarrow> waitset_impl \<Rightarrow> waitset_impl" where
  "map_stored_listener k storage_index rmw_index ws =
     (case find_index (\<lambda>staged. map_type staged = k \<and> map_storage_index staged = storage_index)
             (ws_mapping ws) of
        None \<Rightarrow> ws\<lparr>ws_mapping := ws_mapping ws @
                 [\<lparr>map_type = k, map_storage_index = storage_index, map_rmw_index = rmw_index\<rparr>]\<rparr>
      | Some _ \<Rightarrow> ws)"

definition WaitSet_map ::
  "'i iox2 \<Rightarrow> rmw_context_impl option \<Rightarrow> waitable_entity \<Rightarrow> nat \<Rightarrow> string \<Rightarrow> waitset_impl \<Rightarrow> ('i, 'z) sys_scheme \<Rightarrow>
   ((WaitSetError + unit) \<times> waitset_impl \<times> ('i, 'z) sys_scheme) option" where
  "WaitSet_map api ctx k rmw_index service_name ws w =
     do { (result, ws, w) \<leftarrow> get_storage_index api ctx k service_name ws w;
          case result of
            Inl e \<Rightarrow> Some (Inl e, ws, w)
          | Inr storage_index \<Rightarrow> Some (Inr (), map_stored_listener k storage_index rmw_index ws, w) }"

text \<open>The two overloads of \<open>map\<close>.\<close>

definition WaitSet_map_guard_condition ::
  "'i iox2 \<Rightarrow> rmw_context_impl option \<Rightarrow> nat \<Rightarrow> guard_condition \<Rightarrow> waitset_impl \<Rightarrow> ('i, 'z) sys_scheme \<Rightarrow>
   ((WaitSetError + unit) \<times> waitset_impl \<times> ('i, 'z) sys_scheme) option" where
  "WaitSet_map_guard_condition api ctx rmw_index g ws w =
     WaitSet_map api ctx GUARD_CONDITION rmw_index (gc_service_name g) ws w"

definition WaitSet_map_subscriber ::
  "'i iox2 \<Rightarrow> rmw_context_impl option \<Rightarrow> nat \<Rightarrow> subscriber_impl \<Rightarrow> waitset_impl \<Rightarrow> ('i, 'z) sys_scheme \<Rightarrow>
   ((WaitSetError + unit) \<times> waitset_impl \<times> ('i, 'z) sys_scheme) option" where
  "WaitSet_map_subscriber api ctx rmw_index s ws w =
     WaitSet_map api ctx SUBSCRIBER rmw_index (sub_service_name s) ws w"

definition unmap_all :: "waitset_impl \<Rightarrow> waitset_impl" where
  "unmap_all ws = ws\<lparr>ws_mapping := []\<rparr>"

section \<open>Waiting\<close>

definition zero_timeout :: "nat option \<Rightarrow> bool" where
  "zero_timeout timeout = (case timeout of Some t \<Rightarrow> t = 0 | None \<Rightarrow> False)"

definition no_timeout :: "nat option \<Rightarrow> bool" where
  "no_timeout timeout \<longleftrightarrow> timeout = None"

text \<open>\<open>attach_timeout\<close> yields the guard it puts into the wait context, if any.\<close>

definition attach_timeout ::
  "'i iox2 \<Rightarrow> nat \<Rightarrow> waitset_impl \<Rightarrow> ('i, 'z) sys_scheme \<Rightarrow>
   ((WaitSetError + unit) \<times> nat option \<times> ('i, 'z) sys_scheme) option" where
  "attach_timeout api timeout ws w =
     do { waitset \<leftarrow> ws_waitset ws;
          case call (attach_interval api waitset timeout) w of
            (Inl e, w) \<Rightarrow> Some (Inl ATTACHMENT_FAILURE, None, w)
          | (Inr guard, w) \<Rightarrow> Some (Inr (), Some guard, w) }"

definition attach_mapped_listener_impl ::
  "waitable_entity \<Rightarrow> 'i iox2 \<Rightarrow> waitset_impl \<Rightarrow> rmw_mapping \<Rightarrow> ('i, 'z) sys_scheme \<Rightarrow>
   ((WaitSetError + attachment_details) \<times> ('i, 'z) sys_scheme) option" where
  "attach_mapped_listener_impl k api ws mapping w =
     (case get_stored_listener k (map_storage_index mapping) ws of
        Some details \<Rightarrow> do {
          waitset \<leftarrow> ws_waitset ws;
          case call (attach_notification api waitset (ld_listener details)) w of
            (Inl e, w) \<Rightarrow> Some (Inl ATTACHMENT_FAILURE, chain e w)
          | (Inr guard, w) \<Rightarrow>
              Some (Inr \<lparr>att_guard = guard, att_id = attachment_from_guard api guard,
                         att_mapping = mapping\<rparr>, w) }
      | None \<Rightarrow> Some (Inl INVALID_STORAGE_INDEX,
                      chain ''mapped listener not found in listener storage'' w))"

text \<open>The kind of a mapping is one of two, so the code's branch for an unknown kind has no counterpart.\<close>

definition attach_mapped_listener ::
  "'i iox2 \<Rightarrow> waitset_impl \<Rightarrow> rmw_mapping \<Rightarrow> ('i, 'z) sys_scheme \<Rightarrow>
   ((WaitSetError + attachment_details) \<times> ('i, 'z) sys_scheme) option" where
  "attach_mapped_listener api ws mapping w =
     (case map_type mapping of
        GUARD_CONDITION \<Rightarrow> attach_mapped_listener_impl GUARD_CONDITION api ws mapping w
      | SUBSCRIBER \<Rightarrow> attach_mapped_listener_impl SUBSCRIBER api ws mapping w)"

lemma attach_mapped_listener_by_kind:
  "attach_mapped_listener api ws mapping w =
     (case get_stored_listener (map_type mapping) (map_storage_index mapping) ws of
        Some details \<Rightarrow> do {
          waitset \<leftarrow> ws_waitset ws;
          case call (attach_notification api waitset (ld_listener details)) w of
            (Inl e, w) \<Rightarrow> Some (Inl ATTACHMENT_FAILURE, chain e w)
          | (Inr guard, w) \<Rightarrow>
              Some (Inr \<lparr>att_guard = guard, att_id = attachment_from_guard api guard,
                         att_mapping = mapping\<rparr>, w) }
      | None \<Rightarrow> Some (Inl INVALID_STORAGE_INDEX,
                      chain ''mapped listener not found in listener storage'' w))"
  by (cases "map_type mapping") (simp_all add: attach_mapped_listener_def attach_mapped_listener_impl_def)

text \<open>The loop over the staged mappings; \<open>attached\<close> is the wait context's list so far.\<close>

fun attach_mapped_listeners ::
  "'i iox2 \<Rightarrow> waitset_impl \<Rightarrow> rmw_mapping list \<Rightarrow> attachment_details list \<Rightarrow> ('i, 'z) sys_scheme \<Rightarrow>
   ((WaitSetError + unit) \<times> attachment_details list \<times> ('i, 'z) sys_scheme) option" where
  "attach_mapped_listeners api ws [] attached w = Some (Inr (), attached, w)"
| "attach_mapped_listeners api ws (staged # rest) attached w =
     do { (result, w) \<leftarrow> attach_mapped_listener api ws staged w;
          case result of
            Inl e \<Rightarrow> Some (Inl e, attached,
                           chain ''failed to attach mapped listeners to waitset'' w)
          | Inr a \<Rightarrow> attach_mapped_listeners api ws rest (attached @ [a]) w }"

text \<open>Draining a triggered listener. The switch has no other entity kinds to fall through to.\<close>

definition process_trigger ::
  "'i iox2 \<Rightarrow> waitset_impl \<Rightarrow> waitable_entity \<Rightarrow> nat \<Rightarrow> ('i, 'z) sys_scheme \<Rightarrow>
   (WaitSetError + unit) \<times> ('i, 'z) sys_scheme" where
  "process_trigger api ws k storage_index w =
     (case get_stored_listener k storage_index ws of
        Some details \<Rightarrow>
          (case call (try_wait_all api (ld_listener details)) w of
             (Inl e, w) \<Rightarrow> (Inl LISTENER_FAILURE, chain ''failed to retrieve events from listener'' w)
           | (Inr _, w) \<Rightarrow> (Inr (), w))
      | None \<Rightarrow>
          (Inl INVALID_STORAGE_INDEX,
           chain (case k of
                    GUARD_CONDITION \<Rightarrow> ''unable to find guard condition listener at provided index''
                  | SUBSCRIBER \<Rightarrow> ''unable to find subscriber listener at provided index'') w))"

text \<open>
  The callback \<open>on_event\<close>, run by iceoryx2 on the attachments it reports, in order, until it returns
  \<open>Stop\<close>. \<open>result\<close> is the wait context's list of triggered waitables.
\<close>

fun process_events ::
  "'i iox2 \<Rightarrow> waitset_impl \<Rightarrow> nat option \<Rightarrow> attachment_details list \<Rightarrow> nat list \<Rightarrow>
   triggered_waitable list \<Rightarrow> ('i, 'z) sys_scheme \<Rightarrow> triggered_waitable list \<times> ('i, 'z) sys_scheme" where
  "process_events api ws timeout_id attached [] result w = (result, w)"
| "process_events api ws timeout_id attached (i # ids) result w =
     (if timeout_id = Some i then (result, w)
      else case find (\<lambda>a. att_id a = i) attached of
             Some a \<Rightarrow>
               (case process_trigger api ws (map_type (att_mapping a))
                       (map_storage_index (att_mapping a)) w of
                  (Inl _, w) \<Rightarrow> process_events api ws timeout_id attached ids result w
                | (Inr _, w) \<Rightarrow>
                    process_events api ws timeout_id attached ids
                      (result @ [\<lparr>trg_type = map_type (att_mapping a),
                                  trg_rmw_index = map_rmw_index (att_mapping a)\<rparr>]) w)
           | None \<Rightarrow> process_events api ws timeout_id attached ids result w)"

text \<open>The wait context is destroyed on every way out: the guards of the listeners, then the timeout's.\<close>

definition wait_context_dtor :: "'i iox2 \<Rightarrow> attachment_details list \<Rightarrow> nat option \<Rightarrow> 'i \<Rightarrow> 'i" where
  "wait_context_dtor api attached timeout i =
     drop_opt (guard_drop api) timeout (fold (\<lambda>a. guard_drop api (att_guard a)) attached i)"

definition WaitSet_wait ::
  "'i iox2 \<Rightarrow> nat option \<Rightarrow> waitset_impl \<Rightarrow> ('i, 'z) sys_scheme \<Rightarrow>
   ((WaitSetError + triggered_waitable list) \<times> ('i, 'z) sys_scheme) option" where
  "WaitSet_wait api timeout ws w =
     (if ws_mapping ws = [] \<and> zero_timeout timeout then Some (Inr [], w)
      else if ws_mapping ws = [] \<and> no_timeout timeout then Some (Inl WAIT_FAILURE, w)
      else do {
        (result, attached_timeout, w) \<leftarrow>
          (case timeout of
             Some t \<Rightarrow> attach_timeout api t ws w
           | None \<Rightarrow> Some (Inr (), None, w));
        case result of
          Inl e \<Rightarrow> Some (Inl e, w)
        | Inr _ \<Rightarrow> do {
            (result, attached, w) \<leftarrow> attach_mapped_listeners api ws (ws_mapping ws) [] w;
            let leave = run_iox (wait_context_dtor api attached attached_timeout);
            case result of
              Inl e \<Rightarrow> Some (Inl e, leave w)
            | Inr _ \<Rightarrow> do {
                waitset \<leftarrow> ws_waitset ws;
                case call (wait_once api waitset timeout) w of
                  (Inl e, w) \<Rightarrow> Some (Inl WAIT_FAILURE, leave (chain e w))
                | (Inr ids, w) \<Rightarrow>
                    let (triggered, w) =
                      process_events api ws (map_option (attachment_from_guard api) attached_timeout)
                        attached ids [] w
                    in Some (Inr triggered, leave w) } } })"

definition WaitSet_dtor :: "'i iox2 \<Rightarrow> waitset_impl \<Rightarrow> 'i \<Rightarrow> 'i" where
  "WaitSet_dtor api ws i =
     drop_opt (waitset_drop api) (ws_waitset ws)
       (fold (\<lambda>l. port_drop api (ld_listener l)) (ws_guard_condition_listeners ws)
         (fold (\<lambda>l. port_drop api (ld_listener l)) (ws_subscriber_listeners ws) i))"

section \<open>The invariant\<close>

text \<open>
  The service names of a storage are distinct, every staged mapping refers to a stored listener,
  and no listener is staged twice.
\<close>

definition listener_names :: "waitable_entity \<Rightarrow> waitset_impl \<Rightarrow> string list" where
  "listener_names k ws = map ld_service_name (listener_storage k ws)"

definition waitset_wf :: "waitset_impl \<Rightarrow> bool" where
  "waitset_wf ws \<longleftrightarrow>
     ws_waitset ws \<noteq> None \<and> (\<forall>k. distinct (listener_names k ws)) \<and>
     (\<forall>m \<in> set (ws_mapping ws). map_storage_index m < length (listener_names (map_type m) ws)) \<and>
     distinct (map (\<lambda>m. (map_type m, map_storage_index m)) (ws_mapping ws))"

lemma WaitSet_ctor_ok: "ctor_ok waitset_wf errmsg (WaitSet_ctor api c w)"
  by (auto simp: WaitSet_ctor_def Let_def waitset_wf_def listener_names_def listener_storage_def
      split: sum.split prod.split waitable_entity.split)

interpretation ws: fallible_class "WaitSet_ctor api c" "\<lambda>_. True" waitset_wf errmsg
  for api :: "'i iox2" and c :: ptr
  by unfold_locales (rule WaitSet_ctor_ok)

lemma listener_storage_set [simp]:
  "listener_storage k (set_listener_storage k ls ws) = ls"
  "k \<noteq> k' \<Longrightarrow> listener_storage k (set_listener_storage k' ls ws) = listener_storage k ws"
  "ws_mapping (set_listener_storage k ls ws) = ws_mapping ws"
  "ws_waitset (set_listener_storage k ls ws) = ws_waitset ws"
  "ws_context (set_listener_storage k ls ws) = ws_context ws"
  by (cases k; cases k'; simp add: listener_storage_def set_listener_storage_def)+

section \<open>Find-or-create stores\<close>

text \<open>
  What mapping needs of the listener storage: asking for a name that is stored gives its index and
  changes nothing; asking for a new name either fails and changes nothing, or appends it. So an
  index, once given out, keeps designating the same name.
\<close>

locale name_store =
  fixes get :: "string \<Rightarrow> 'c \<Rightarrow> 'w \<Rightarrow> (('e + nat) \<times> 'c \<times> 'w) option"
    and names :: "'c \<Rightarrow> string list"
    and valid :: "string \<Rightarrow> bool"
  assumes get_returns: "valid s \<or> s \<in> set (names c) \<Longrightarrow> get s c w \<noteq> None"
    and get_stored: "s \<in> set (names c) \<Longrightarrow> get s c w = Some (r, c', w') \<Longrightarrow>
      c' = c \<and> w' = w \<and> (\<exists>i. r = Inr i \<and> i < length (names c) \<and> names c ! i = s)"
    and get_new: "s \<notin> set (names c) \<Longrightarrow> get s c w = Some (Inr i, c', w') \<Longrightarrow>
      names c' = names c @ [s] \<and> i = length (names c)"
    and get_error: "get s c w = Some (Inl e, c', w') \<Longrightarrow> c' = c"
begin

lemma get_index:
  assumes "get s c w = Some (Inr i, c', w')"
  shows "i < length (names c') \<and> names c' ! i = s"
  using assms get_stored [of s c w "Inr i" c' w'] get_new [of s c w i c' w']
  by (cases "s \<in> set (names c)") auto

lemma get_extends:
  assumes "get s c w = Some (r, c', w')"
  shows "\<exists>new. names c' = names c @ new \<and> set new \<subseteq> {s} - set (names c)"
proof (cases "s \<in> set (names c)")
  case True
  with get_stored [OF True assms] show ?thesis by simp
next
  case False
  show ?thesis
  proof (cases r)
    case (Inl e)
    with assms have "c' = c" by (simp add: get_error)
    then show ?thesis by simp
  next
    case (Inr i)
    with assms False have "names c' = names c @ [s]" by (simp add: get_new)
    with False show ?thesis by simp
  qed
qed

lemma get_distinct:
  assumes "get s c w = Some (r, c', w')" and "distinct (names c)"
  shows "distinct (names c')"
proof (cases "s \<in> set (names c)")
  case True
  from get_stored [OF this assms(1)] assms(2) show ?thesis by simp
next
  case False
  show ?thesis
  proof (cases r)
    case (Inl e)
    with assms show ?thesis by (metis get_error)
  next
    case (Inr i)
    with assms False show ?thesis by (simp add: get_new)
  qed
qed

text \<open>Indices stay valid and keep their meaning.\<close>

lemma get_stable:
  assumes "get s c w = Some (r, c', w')" and "j < length (names c)"
  shows "j < length (names c') \<and> names c' ! j = names c ! j"
proof -
  from get_extends [OF assms(1)] obtain new where "names c' = names c @ new" by blast
  with assms(2) show ?thesis by (simp add: nth_append)
qed

text \<open>The same name gives the same index, however often it is asked for.\<close>

lemma get_again:
  assumes "get s c w = Some (Inr i, c', w')" and "distinct (names c)"
    and "get s c' v = Some (r, c'', v')"
  shows "r = Inr i \<and> c'' = c' \<and> v' = v"
proof -
  have i: "i < length (names c')" "names c' ! i = s" using get_index [OF assms(1)] by simp_all
  then have "s \<in> set (names c')" by (metis nth_mem)
  from get_stored [OF this assms(3)] obtain j where
    j: "c'' = c'" "v' = v" "r = Inr j" "j < length (names c')" "names c' ! j = s" by blast
  moreover have "j = i"
    using i j get_distinct [OF assms(1,2)] nth_eq_iff_index_eq by metis
  ultimately show ?thesis by simp
qed

end

lemma listener_names_iff: "s \<in> set (listener_names k ws) \<longleftrightarrow>
  find_index (\<lambda>l. ld_service_name l = s) (listener_storage k ws) \<noteq> None"
  by (auto simp: listener_names_def)

definition context_for :: "'i iox2 \<Rightarrow> rmw_context_impl option \<Rightarrow> string \<Rightarrow> bool" where
  "context_for api ctx s \<longleftrightarrow> (\<exists>c. ctx = Some c \<and> context_wf c) \<and> (\<exists>n. service_name_create api s = Inr n)"

interpretation ls: name_store "get_storage_index api ctx k" "listener_names k" "context_for api ctx"
  for api :: "'i iox2" and ctx k
proof (unfold_locales, goal_cases)
  case (1 s c w)
  show ?case
  proof (cases "s \<in> set (listener_names k c)")
    case True
    then obtain i where "find_index (\<lambda>l. ld_service_name l = s) (listener_storage k c) = Some i"
      unfolding listener_names_iff by blast
    then show ?thesis by (simp add: get_storage_index_def Let_def)
  next
    case False
    with 1 obtain c' h n where h: "ctx = Some c'" "ctx_iox2 c' = Some h" "iceoryx2_wf h" "service_name_create api s = Inr n"
      by (auto simp: context_for_def context_wf_def)
    then obtain inst where "Iceoryx2_service_builder api (listener_service_type k) h s = Some (inst, n)"
      using Iceoryx2_service_builder_returns by blast
    with h show ?thesis
      by (auto simp: get_storage_index_def Context_iox2_def Let_def split: option.split sum.split prod.split)
  qed
next
  case (2 s c w r c' w')
  then obtain i where "find_index (\<lambda>l. ld_service_name l = s) (listener_storage k c) = Some i"
    unfolding listener_names_iff by blast
  with 2(2) find_index_Some [OF this] show ?case
    by (auto simp: get_storage_index_def listener_names_def Let_def)
next
  case (3 s c w i c' w')
  from 3(1) have "find_index (\<lambda>l. ld_service_name l = s) (listener_storage k c) = None"
    unfolding listener_names_iff by blast
  with 3(2) show ?case
    by (auto simp: get_storage_index_def listener_names_def Let_def simp del: find_index_None
        split: option.splits Option.bind_splits sum.splits prod.splits)
next
  case (4 s c w e c' w')
  then show ?case
    by (auto simp: get_storage_index_def Let_def
        split: option.splits Option.bind_splits sum.splits prod.splits)
qed

end
