(* ===== verification/Waitset_Correct.thy ===== *)
theory Waitset_Correct
  imports Waitset
begin

text \<open>
  Correctness of the wait set of \<open>Waitset\<close>: mapping refines an abstract list of (kind, service,
  index) triples, waiting terminates normally with errors from a small set, gives back every guard
  it took, and reports indices of mapped waitables whose listener was reported by iceoryx2.
\<close>

section \<open>Mapping as an abstract list\<close>

text \<open>What a staged entry means: its kind, the service its listener belongs to and its index.\<close>

definition mapped_entry :: "waitset_impl \<Rightarrow> rmw_mapping \<Rightarrow> waitable_entity \<times> string \<times> nat" where
  "mapped_entry ws m =
     (map_type m, listener_names (map_type m) ws ! map_storage_index m, map_rmw_index m)"

definition mapped :: "waitset_impl \<Rightarrow> (waitable_entity \<times> string \<times> nat) list" where
  "mapped ws = map (mapped_entry ws) (ws_mapping ws)"

text \<open>The abstract operation: a service that is staged already keeps its entry.\<close>

definition abs_map ::
  "waitable_entity \<Rightarrow> string \<Rightarrow> nat \<Rightarrow> (waitable_entity \<times> string \<times> nat) list \<Rightarrow>
   (waitable_entity \<times> string \<times> nat) list" where
  "abs_map k s i entries =
     (if \<exists>e \<in> set entries. fst e = k \<and> fst (snd e) = s then entries else entries @ [(k, s, i)])"

lemma get_storage_index_frame:
  assumes "get_storage_index api ctx k s ws w = Some (r, ws', w')"
  shows "ws_mapping ws' = ws_mapping ws" "ws_waitset ws' = ws_waitset ws"
    "ws_context ws' = ws_context ws" "k' \<noteq> k \<Longrightarrow> listener_names k' ws' = listener_names k' ws"
  using assms
  by (auto simp: get_storage_index_def Let_def listener_names_def
      split: option.splits Option.bind_splits sum.splits prod.splits)

lemma get_storage_index_stable:
  assumes "get_storage_index api ctx k s ws w = Some (r, ws', w')"
    and "j < length (listener_names k' ws)"
  shows "j < length (listener_names k' ws') \<and> listener_names k' ws' ! j = listener_names k' ws ! j"
proof (cases "k' = k")
  case True
  with assms ls.get_stable show ?thesis by blast
next
  case False
  with assms get_storage_index_frame(4) show ?thesis by metis
qed

lemma get_storage_index_wf:
  assumes "waitset_wf ws" and get: "get_storage_index api ctx k s ws w = Some (r, ws', w')"
  shows "waitset_wf ws'"
proof -
  note frame = get_storage_index_frame [OF get]
  have "distinct (listener_names k' ws')" for k'
    using assms ls.get_distinct [OF get] frame(4) [of k'] by (cases "k' = k") (auto simp: waitset_wf_def)
  moreover have "map_storage_index m < length (listener_names (map_type m) ws')"
    if "m \<in> set (ws_mapping ws')" for m
    using that frame(1) assms(1) get_storage_index_stable [OF get] by (auto simp: waitset_wf_def)
  ultimately show ?thesis using assms(1) frame by (simp add: waitset_wf_def)
qed

lemma mapped_get_storage_index:
  assumes "waitset_wf ws" and get: "get_storage_index api ctx k s ws w = Some (r, ws', w')"
  shows "mapped ws' = mapped ws"
proof -
  have "mapped_entry ws' m = mapped_entry ws m" if "m \<in> set (ws_mapping ws)" for m
    using that assms(1) get_storage_index_stable [OF get]
    by (auto simp: waitset_wf_def mapped_entry_def)
  then show ?thesis by (simp add: mapped_def get_storage_index_frame(1) [OF get])
qed

lemma map_stored_listener_names [simp]:
  "listener_names k' (map_stored_listener k i idx ws) = listener_names k' ws"
  by (cases k') (simp_all add: map_stored_listener_def listener_names_def listener_storage_def
      split: option.split)

lemma map_stored_listener_waitset [simp]:
  "ws_waitset (map_stored_listener k i idx ws) = ws_waitset ws"
  "ws_context (map_stored_listener k i idx ws) = ws_context ws"
  by (simp_all add: map_stored_listener_def split: option.split)

lemma map_stored_listener_mapping:
  "ws_mapping (map_stored_listener k i idx ws) =
     (if \<exists>m \<in> set (ws_mapping ws). map_type m = k \<and> map_storage_index m = i then ws_mapping ws
      else ws_mapping ws @ [\<lparr>map_type = k, map_storage_index = i, map_rmw_index = idx\<rparr>])"
  using find_index_None [of "\<lambda>m. map_type m = k \<and> map_storage_index m = i" "ws_mapping ws"]
  by (auto simp: map_stored_listener_def simp del: find_index_None split: option.split)

lemma map_stored_listener_wf:
  "waitset_wf ws \<Longrightarrow> i < length (listener_names k ws) \<Longrightarrow>
   waitset_wf (map_stored_listener k i idx ws)"
  by (auto simp: waitset_wf_def map_stored_listener_mapping)

lemma mapped_map_stored_listener:
  assumes "waitset_wf ws" and "i < length (listener_names k ws)" and "listener_names k ws ! i = s"
  shows "mapped (map_stored_listener k i idx ws) = abs_map k s idx (mapped ws)"
proof -
  have same: "mapped_entry (map_stored_listener k i idx ws) = mapped_entry ws"
    by (simp add: mapped_entry_def fun_eq_iff)
  have "(\<exists>e \<in> set (mapped ws). fst e = k \<and> fst (snd e) = s) \<longleftrightarrow>
        (\<exists>m \<in> set (ws_mapping ws). map_type m = k \<and> map_storage_index m = i)"
    using assms by (auto simp: mapped_def mapped_entry_def waitset_wf_def nth_eq_iff_index_eq)
  with assms show ?thesis
    unfolding mapped_def abs_map_def map_stored_listener_mapping same
    by (simp add: mapped_entry_def)
qed

lemma WaitSet_map_cases:
  assumes "WaitSet_map api ctx k idx s ws w = Some (r, ws', w')"
  obtains e where "r = Inl e" "get_storage_index api ctx k s ws w = Some (Inl e, ws', w')"
  | i ws1 where "r = Inr ()" "get_storage_index api ctx k s ws w = Some (Inr i, ws1, w')"
      "ws' = map_stored_listener k i idx ws1"
  using assms by (auto simp: WaitSet_map_def split: Option.bind_splits sum.splits prod.splits)

lemma WaitSet_map_wf:
  assumes "waitset_wf ws" and "WaitSet_map api ctx k idx s ws w = Some (r, ws', w')"
  shows "waitset_wf ws'"
  using assms(2)
proof (cases rule: WaitSet_map_cases)
  case (1 e)
  with assms(1) show ?thesis by (blast intro: get_storage_index_wf)
next
  case (2 i ws1)
  with get_storage_index_wf [OF assms(1)] ls.get_index [of api ctx k s ws w i] show ?thesis
    by (blast intro: map_stored_listener_wf)
qed

lemma WaitSet_map_refines:
  assumes "waitset_wf ws" and "WaitSet_map api ctx k idx s ws w = Some (r, ws', w')"
  shows "mapped ws' = (case r of Inl _ \<Rightarrow> mapped ws | Inr _ \<Rightarrow> abs_map k s idx (mapped ws))"
  using assms(2)
proof (cases rule: WaitSet_map_cases)
  case (1 e)
  with mapped_get_storage_index [OF assms(1)] show ?thesis by simp
next
  case (2 i ws1)
  note index = ls.get_index [OF 2(2)]
  have "mapped ws' = abs_map k s idx (mapped ws1)"
    using 2 index get_storage_index_wf [OF assms(1)] mapped_map_stored_listener by metis
  with 2 mapped_get_storage_index [OF assms(1) 2(2)] show ?thesis by simp
qed

lemma WaitSet_map_returns:
  assumes "context_for api ctx s \<or> s \<in> set (listener_names k ws)"
  shows "WaitSet_map api ctx k idx s ws w \<noteq> None"
  using ls.get_returns [OF assms, of w]
  by (auto simp: WaitSet_map_def split: Option.bind_split sum.split)

lemma unmap_all_wf [simp]: "waitset_wf ws \<Longrightarrow> waitset_wf (unmap_all ws)"
  by (auto simp: waitset_wf_def unmap_all_def listener_names_def listener_storage_def
      split: waitable_entity.splits)

lemma mapped_unmap_all [simp]: "mapped (unmap_all ws) = []"
  by (simp add: mapped_def unmap_all_def)

section \<open>Waiting\<close>

lemma guards_drop_all:
  "guard_contract api waitset guards \<Longrightarrow>
   guards (fold (\<lambda>a. guard_drop api (att_guard a)) attached i) = guards i - att_guard ` set attached"
  by (induction attached arbitrary: i) (auto simp: guard_contractD(7))

lemma wait_context_dtor_guards:
  "guard_contract api waitset guards \<Longrightarrow>
   guards (wait_context_dtor api attached timeout i) =
     guards i - att_guard ` set attached - set_option timeout"
  by (simp add: wait_context_dtor_def drop_opt_def guards_drop_all guard_contractD(7) split: option.split)

text \<open>
  What the attachments of a mapping are: each listener in turn, with the id of its guard. \<open>None\<close> when
  iceoryx2 refuses one of them.
\<close>

definition listener_of :: "waitset_impl \<Rightarrow> rmw_mapping \<Rightarrow> nat" where
  "listener_of ws m = ld_listener (listener_storage (map_type m) ws ! map_storage_index m)"

fun attach_each ::
  "'i iox2 \<Rightarrow> nat \<Rightarrow> waitset_impl \<Rightarrow> rmw_mapping list \<Rightarrow> 'i \<Rightarrow> (attachment_details list \<times> 'i) option" where
  "attach_each api waitset ws [] i = Some ([], i)"
| "attach_each api waitset ws (m # ms) i =
     (case attach_notification api waitset (listener_of ws m) i of
        (Inl _, _) \<Rightarrow> None
      | (Inr g, j) \<Rightarrow>
          do { (atts, j) \<leftarrow> attach_each api waitset ws ms j;
               Some (\<lparr>att_guard = g, att_id = attachment_from_guard api g, att_mapping = m\<rparr> # atts, j) })"

lemma attach_each_mapping: "attach_each api waitset ws ms i = Some (atts, j) \<Longrightarrow> map att_mapping atts = ms"
  by (induction ms arbitrary: i atts) (auto split: Option.bind_splits prod.splits sum.splits)

text \<open>One attachment of an entry of a well-formed mapping.\<close>

lemma attach_mapped_listener_cases:
  fixes w :: "('i, 'z) sys_scheme"
  assumes "ws_waitset ws = Some waitset"
    and "map_storage_index m < length (listener_names (map_type m) ws)"
  obtains e w' where "attach_mapped_listener api ws m w = Some (Inl ATTACHMENT_FAILURE, chain e w')"
      "call (attach_notification api waitset (listener_of ws m)) w = (Inl e, w')"
  | g w' where "attach_mapped_listener api ws m w =
        Some (Inr \<lparr>att_guard = g, att_id = attachment_from_guard api g, att_mapping = m\<rparr>, w')"
      "call (attach_notification api waitset (listener_of ws m)) w = (Inr g, w')"
proof -
  let ?c = "call (attach_notification api waitset (listener_of ws m)) w"
  obtain r w' where "?c = (r, w')" by (cases ?c)
  with assms show ?thesis
    by (cases r) (auto simp: attach_mapped_listener_by_kind get_stored_listener_def Let_def
        listener_names_def listener_of_def intro: that)
qed

text \<open>
  The loop attaches the entries in order. It stops at the first failure; the attachments made so
  far are in the wait context in both cases.
\<close>

definition mapping_in_range :: "waitset_impl \<Rightarrow> rmw_mapping list \<Rightarrow> bool" where
  "mapping_in_range ws ms \<longleftrightarrow>
     (\<forall>m \<in> set ms. map_storage_index m < length (listener_names (map_type m) ws))"

lemma attach_mapped_listeners_result:
  fixes w :: "('i, 'z) sys_scheme"
  assumes "ws_waitset ws = Some waitset" and "mapping_in_range ws ms"
  obtains new w' r where "attach_mapped_listeners api ws ms attached w = Some (r, attached @ new, w')"
    "r = Inl ATTACHMENT_FAILURE \<and> errmsg w' \<noteq> None \<and> attach_each api waitset ws ms (iox w) = None \<or>
     r = Inr () \<and> attach_each api waitset ws ms (iox w) = Some (new, iox w')"
    "\<forall>a \<in> set new. att_id a = attachment_from_guard api (att_guard a) \<and> att_mapping a \<in> set ms"
    "guard_contract api waitset guards \<Longrightarrow> guards (iox w') = guards (iox w) \<union> att_guard ` set new"
    "guard_contract api waitset guards \<Longrightarrow> att_guard ` set new \<inter> guards (iox w) = {}"
    "guard_contract api waitset guards \<Longrightarrow> distinct (map att_guard new)"
  using assms(2)
proof (induction ms arbitrary: attached w thesis)
  case Nil
  show ?case by (rule Nil.prems(1) [of "Inr ()" "[]" w]) simp_all
next
  case (Cons m ms)
  from Cons.prems(2) have range: "mapping_in_range ws ms"
    and m: "map_storage_index m < length (listener_names (map_type m) ws)"
    by (simp_all add: mapping_in_range_def)
  show ?case
  proof (cases rule: attach_mapped_listener_cases [OF assms(1) m, where w = w and api = api])
    case (1 e w')
    have same: "guards (iox w') = guards (iox w)" if "guard_contract api waitset guards"
      using 1(2) guard_contractD(3) [OF that] by (metis call_result)
    show ?thesis
      by (rule Cons.prems(1) [of "Inl ATTACHMENT_FAILURE" "[]"
            "chain ''failed to attach mapped listeners to waitset'' (chain e w')"])
        (use 1 same in \<open>auto simp: call_def split: prod.splits\<close>)
  next
    case (2 g w')
    let ?a = "\<lparr>att_guard = g, att_id = attachment_from_guard api g, att_mapping = m\<rparr>"
    obtain r new w'' where
      rest: "attach_mapped_listeners api ws ms (attached @ [?a]) w' = Some (r, (attached @ [?a]) @ new, w'')"
      "r = Inl ATTACHMENT_FAILURE \<and> errmsg w'' \<noteq> None \<and> attach_each api waitset ws ms (iox w') = None \<or>
       r = Inr () \<and> attach_each api waitset ws ms (iox w') = Some (new, iox w'')"
      "\<forall>a \<in> set new. att_id a = attachment_from_guard api (att_guard a) \<and> att_mapping a \<in> set ms"
      "guard_contract api waitset guards \<Longrightarrow> guards (iox w'') = guards (iox w') \<union> att_guard ` set new"
      "guard_contract api waitset guards \<Longrightarrow> att_guard ` set new \<inter> guards (iox w') = {}"
      "guard_contract api waitset guards \<Longrightarrow> distinct (map att_guard new)"
      by (rule Cons.IH [OF _ range]) (rule that)
    have step: "guards (iox w') = insert g (guards (iox w))" "g \<notin> guards (iox w)"
      if "guard_contract api waitset guards"
      using 2(2) guard_contractD(1,2) [OF that] by (metis call_result)+
    show ?thesis
    proof (rule Cons.prems(1) [of r "?a # new" w''])
      show "attach_mapped_listeners api ws (m # ms) attached w = Some (r, attached @ ?a # new, w'')"
        using 2(1) rest(1) by simp
      show "r = Inl ATTACHMENT_FAILURE \<and> errmsg w'' \<noteq> None \<and> attach_each api waitset ws (m # ms) (iox w) = None \<or>
            r = Inr () \<and> attach_each api waitset ws (m # ms) (iox w) = Some (?a # new, iox w'')"
        using rest(2) 2(2) by (auto simp: call_result)
      show "\<forall>a \<in> set (?a # new). att_id a = attachment_from_guard api (att_guard a) \<and>
              att_mapping a \<in> set (m # ms)"
        using rest(3) by simp
    next
      assume gc: "guard_contract api waitset guards"
      show "guards (iox w'') = guards (iox w) \<union> att_guard ` set (?a # new)"
        using rest(4) [OF gc] step [OF gc] by simp
      show "att_guard ` set (?a # new) \<inter> guards (iox w) = {}"
        using rest(5) [OF gc] step [OF gc] by auto
      show "distinct (map att_guard (?a # new))"
        using rest(5,6) [OF gc] step [OF gc] by auto
    qed
  qed
qed

section \<open>Events\<close>

text \<open>What an entry is reported as, and what the ids before the timeout's id amount to.\<close>

definition triggered_of :: "rmw_mapping \<Rightarrow> triggered_waitable" where
  "triggered_of m = \<lparr>trg_type = map_type m, trg_rmw_index = map_rmw_index m\<rparr>"

definition reported :: "nat option \<Rightarrow> attachment_details list \<Rightarrow> nat list \<Rightarrow> attachment_details list" where
  "reported t attached ids =
     List.map_filter (\<lambda>i. find (\<lambda>a. att_id a = i) attached) (takeWhile (\<lambda>i. t \<noteq> Some i) ids)"

lemma reported_simps [simp]:
  "reported t attached [] = []"
  "reported t attached (i # ids) =
     (if t = Some i then []
      else case find (\<lambda>a. att_id a = i) attached of
             Some a \<Rightarrow> a # reported t attached ids
           | None \<Rightarrow> reported t attached ids)"
  by (simp_all add: reported_def List.map_filter_def split: option.split)

lemma reported_attached: "a \<in> set (reported t attached ids) \<Longrightarrow> a \<in> set attached \<and> att_id a \<in> set ids"
  by (induction ids) (fastforce split: if_splits option.splits dest: find_SomeD)+

abbreviation attached_entries :: "nat option \<Rightarrow> attachment_details list \<Rightarrow> nat list \<Rightarrow> triggered_waitable list" where
  "attached_entries t attached ids \<equiv> map (\<lambda>a. triggered_of (att_mapping a)) (reported t attached ids)"

text \<open>Draining the listeners of the reported attachments, in their order: those that could be drained count.\<close>

fun drained ::
  "'i iox2 \<Rightarrow> waitset_impl \<Rightarrow> attachment_details list \<Rightarrow> 'i \<Rightarrow> triggered_waitable list \<times> 'i" where
  "drained api ws [] i = ([], i)"
| "drained api ws (a # atts) i =
     (let (r, i) = try_wait_all api (listener_of ws (att_mapping a)) i; (ts, i) = drained api ws atts i
      in ((case r of Inl _ \<Rightarrow> ts | Inr _ \<Rightarrow> triggered_of (att_mapping a) # ts), i))"

lemma drained_subseq: "subseq (fst (drained api ws atts i)) (map (\<lambda>a. triggered_of (att_mapping a)) atts)"
  by (induction atts arbitrary: i) (auto simp: Let_def split_beta split: sum.split)

lemma drained_from:
  "t \<in> set (fst (drained api ws atts i)) \<Longrightarrow> \<exists>a \<in> set atts. t = triggered_of (att_mapping a)"
  using set_subseq [OF drained_subseq] by fastforce

lemma drained_guards:
  "guard_contract api waitset guards \<Longrightarrow> guards (snd (drained api ws atts i)) = guards i"
  by (induction atts arbitrary: i) (simp_all add: Let_def split_beta guard_contractD(9))

definition drains_ok :: "'i iox2 \<Rightarrow> bool" where
  "drains_ok api \<longleftrightarrow> (\<forall>l i. \<exists>n. fst (try_wait_all api l i) = Inr n)"

lemma drained_all:
  "drains_ok api \<Longrightarrow> fst (drained api ws atts i) = map (\<lambda>a. triggered_of (att_mapping a)) atts"
proof (induction atts arbitrary: i)
  case (Cons a atts)
  obtain n j where "try_wait_all api (listener_of ws (att_mapping a)) i = (Inr n, j)"
    using Cons.prems unfolding drains_ok_def by (metis prod.collapse)
  with Cons show ?case by (simp add: split_beta)
qed simp

lemma process_trigger_drains:
  assumes "map_storage_index m < length (listener_names (map_type m) ws)"
    and "process_trigger api ws (map_type m) (map_storage_index m) w = (r, w')"
    and "try_wait_all api (listener_of ws m) (iox w) = (d, j)"
  shows "(case r of Inl _ \<Rightarrow> \<exists>e. d = Inl e | Inr _ \<Rightarrow> \<exists>n. d = Inr n) \<and> iox w' = j"
  using assms
  by (auto simp: process_trigger_def get_stored_listener_def listener_names_def Let_def call_def listener_of_def
      split: sum.splits prod.splits)

text \<open>The loop appends to the result what could be drained of what was reported; it has no other effect on it.\<close>

lemma process_events_drains:
  fixes w :: "('i, 'z) sys_scheme"
  assumes "mapping_in_range ws (map att_mapping attached)"
  shows "\<exists>w'. process_events api ws t attached ids result w =
      (result @ fst (drained api ws (reported t attached ids) (iox w)), w') \<and>
    iox w' = snd (drained api ws (reported t attached ids) (iox w))"
proof (induction ids arbitrary: result w)
  case Nil
  show ?case by simp
next
  case (Cons i ids)
  show ?case
  proof (cases "t = Some i \<or> find (\<lambda>a. att_id a = i) attached = None")
    case True
    with Cons.IH [of result w] show ?thesis by auto
  next
    case False
    then obtain a where a: "find (\<lambda>a. att_id a = i) attached = Some a" and t: "t \<noteq> Some i" by blast
    from a have "a \<in> set attached" by (simp add: find_SomeD)
    with assms have range: "map_storage_index (att_mapping a) < length (listener_names (map_type (att_mapping a)) ws)"
      by (auto simp: mapping_in_range_def)
    obtain r w1 where pt: "process_trigger api ws (map_type (att_mapping a)) (map_storage_index (att_mapping a)) w = (r, w1)"
      by (cases "process_trigger api ws (map_type (att_mapping a)) (map_storage_index (att_mapping a)) w")
    obtain d j where d: "try_wait_all api (listener_of ws (att_mapping a)) (iox w) = (d, j)"
      by (cases "try_wait_all api (listener_of ws (att_mapping a)) (iox w)")
    note same = process_trigger_drains [OF range pt d]
    show ?thesis
    proof (cases r)
      case (Inl e)
      with Cons.IH [of result w1] a t pt d same show ?thesis by (auto simp: split_beta)
    next
      case (Inr u)
      with Cons.IH [of "result @ [triggered_of (att_mapping a)]" w1] a t pt d same show ?thesis
        by (auto simp: split_beta triggered_of_def)
    qed
  qed
qed

section \<open>The whole wait\<close>

text \<open>
  What a wait on a well-formed wait set comes to, from what iceoryx2 answers: the timer is attached, when there is
  a timeout, then the mapping; then the wait set is waited for once; then the listeners of what it reported are
  drained. There are two errors, and two ways out that do not reach iceoryx2.
\<close>

definition attached_wait ::
  "'i iox2 \<Rightarrow> nat \<Rightarrow> nat option \<Rightarrow> nat option \<Rightarrow> waitset_impl \<Rightarrow> 'i \<Rightarrow> WaitSetError + triggered_waitable list" where
  "attached_wait api waitset timeout timer ws i =
     (case attach_each api waitset ws (ws_mapping ws) i of
        None \<Rightarrow> Inl ATTACHMENT_FAILURE
      | Some (attached, i) \<Rightarrow>
          (case wait_once api waitset timeout i of
             (Inl _, _) \<Rightarrow> Inl WAIT_FAILURE
           | (Inr ids, i) \<Rightarrow> Inr (fst (drained api ws (reported timer attached ids) i))))"

definition timed_wait ::
  "'i iox2 \<Rightarrow> nat \<Rightarrow> nat option \<Rightarrow> waitset_impl \<Rightarrow> 'i \<Rightarrow> WaitSetError + triggered_waitable list" where
  "timed_wait api waitset timeout ws i =
     (case timeout of
        None \<Rightarrow> attached_wait api waitset timeout None ws i
      | Some d \<Rightarrow>
          (case attach_interval api waitset d i of
             (Inl _, _) \<Rightarrow> Inl ATTACHMENT_FAILURE
           | (Inr g, i) \<Rightarrow> attached_wait api waitset timeout (Some (attachment_from_guard api g)) ws i))"

definition wait_outcome ::
  "'i iox2 \<Rightarrow> nat \<Rightarrow> nat option \<Rightarrow> waitset_impl \<Rightarrow> 'i \<Rightarrow> WaitSetError + triggered_waitable list" where
  "wait_outcome api waitset timeout ws i =
     (if ws_mapping ws = [] \<and> timeout = Some 0 then Inr []
      else if ws_mapping ws = [] \<and> timeout = None then Inl WAIT_FAILURE
      else timed_wait api waitset timeout ws i)"

lemma WaitSet_wait_attached:
  fixes w :: "('i, 'z) sys_scheme" and api :: "'i iox2" and at :: "nat option"
    and timeout :: "nat option"
  assumes "waitset_wf ws" and "ws_waitset ws = Some waitset"
  defines "body \<equiv>
    do { (result, attached, w) \<leftarrow> attach_mapped_listeners api ws (ws_mapping ws) [] w;
         let leave = run_iox (wait_context_dtor api attached at);
         case result of
           Inl e \<Rightarrow> Some (Inl e, leave w)
         | Inr _ \<Rightarrow> do {
             waitset \<leftarrow> ws_waitset ws;
             case call (wait_once api waitset timeout) w of
               (Inl e, w) \<Rightarrow> Some (Inl WAIT_FAILURE, leave (chain e w))
             | (Inr ids, w) \<Rightarrow>
                 let (triggered, w) =
                   process_events api ws (map_option (attachment_from_guard api) at) attached ids [] w
                 in Some (Inr triggered, leave w) } }"
  shows "\<exists>w'. body =
      Some (attached_wait api waitset timeout (map_option (attachment_from_guard api) at) ws (iox w), w') \<and>
    (guard_contract api waitset guards \<longrightarrow> guards (iox w') = guards (iox w) - set_option at)"
proof -
  have range: "mapping_in_range ws (ws_mapping ws)"
    using assms(1) by (auto simp: waitset_wf_def mapping_in_range_def)
  obtain attached w1 r1 where att:
    "attach_mapped_listeners api ws (ws_mapping ws) [] w = Some (r1, attached, w1)"
    "r1 = Inl ATTACHMENT_FAILURE \<and> errmsg w1 \<noteq> None \<and> attach_each api waitset ws (ws_mapping ws) (iox w) = None \<or>
     r1 = Inr () \<and> attach_each api waitset ws (ws_mapping ws) (iox w) = Some (attached, iox w1)"
    "guard_contract api waitset guards \<Longrightarrow> guards (iox w1) = guards (iox w) \<union> att_guard ` set attached"
    "guard_contract api waitset guards \<Longrightarrow> att_guard ` set attached \<inter> guards (iox w) = {}"
    by (rule attach_mapped_listeners_result [OF assms(2) range, of api "[]" w guards]) simp
  have leave: "guards (wait_context_dtor api attached at i) = guards (iox w) - set_option at"
    if "guard_contract api waitset guards" and "guards i = guards (iox w1)" for i
    using att(3,4) [OF that(1)] that by (auto simp: wait_context_dtor_guards)
  show ?thesis
  proof (cases r1)
    case (Inl e)
    with att(2) show ?thesis
      by (intro exI [of _ "run_iox (wait_context_dtor api attached at) w1"]) (simp_all add: body_def att(1) attached_wait_def leave)
  next
    case (Inr u)
    with att(2) have each: "attach_each api waitset ws (ws_mapping ws) (iox w) = Some (attached, iox w1)" by simp
    obtain r2 i2 where wait: "wait_once api waitset timeout (iox w1) = (r2, i2)"
      by (cases "wait_once api waitset timeout (iox w1)")
    have i2: "guards i2 = guards (iox w1)" if "guard_contract api waitset guards"
      using wait guard_contractD(8) [OF that] by (metis snd_conv)
    show ?thesis
    proof (cases r2)
      case (Inl e)
      with wait Inr i2 each show ?thesis
        by (intro exI [of _ "run_iox (wait_context_dtor api attached at) (chain e (w1\<lparr>iox := i2\<rparr>))"])
          (simp_all add: body_def att(1) assms(2) attached_wait_def call_def leave)
    next
      case Inr2: (Inr ids)
      let ?t = "map_option (attachment_from_guard api) at"
      from process_events_drains [of ws attached api ?t ids "[]" "w1\<lparr>iox := i2\<rparr>"] range attach_each_mapping [OF each]
      obtain w3 where ev: "process_events api ws ?t attached ids [] (w1\<lparr>iox := i2\<rparr>) =
          (fst (drained api ws (reported ?t attached ids) i2), w3)" "iox w3 = snd (drained api ws (reported ?t attached ids) i2)"
        by auto
      from Inr Inr2 wait ev each i2 show ?thesis
        by (intro exI [of _ "run_iox (wait_context_dtor api attached at) w3"])
          (simp_all add: body_def att(1) assms(2) attached_wait_def call_def leave drained_guards)
    qed
  qed
qed

lemma WaitSet_wait_correct:
  fixes w :: "('i, 'z) sys_scheme"
  assumes "waitset_wf ws" and "ws_waitset ws = Some waitset"
  shows "\<exists>w'. WaitSet_wait api timeout ws w = Some (wait_outcome api waitset timeout ws (iox w), w') \<and>
    (guard_contract api waitset guards \<longrightarrow> guards (iox w') = guards (iox w))"
proof (cases "ws_mapping ws = [] \<and> (timeout = Some 0 \<or> timeout = None)")
  case True
  then show ?thesis by (auto simp: WaitSet_wait_def wait_outcome_def zero_timeout_def no_timeout_def)
next
  case False
  then have reach: "\<not> (ws_mapping ws = [] \<and> zero_timeout timeout)" "\<not> (ws_mapping ws = [] \<and> no_timeout timeout)"
    by (auto simp: zero_timeout_def no_timeout_def split: option.splits)
  have out: "wait_outcome api waitset timeout ws i = timed_wait api waitset timeout ws i" for i
    using False by (auto simp: wait_outcome_def)
  show ?thesis
  proof (cases timeout)
    case None
    from WaitSet_wait_attached [OF assms, where api = api and at = None and timeout = timeout and w = w and guards = guards] None
    show ?thesis
      unfolding WaitSet_wait_def if_not_P [OF reach(1)] if_not_P [OF reach(2)] out
      by (simp add: timed_wait_def)
  next
    case (Some d)
    obtain r1 i1 where iv: "attach_interval api waitset d (iox w) = (r1, i1)"
      by (cases "attach_interval api waitset d (iox w)")
    show ?thesis
    proof (cases r1)
      case (Inl e)
      have "guards i1 = guards (iox w)" if "guard_contract api waitset guards"
        using iv Inl guard_contractD(6) [OF that] by metis
      with iv Inl Some show ?thesis
        unfolding WaitSet_wait_def if_not_P [OF reach(1)] if_not_P [OF reach(2)] out
        by (simp add: attach_timeout_def assms(2) timed_wait_def call_def)
    next
      case (Inr g)
      have g: "g \<notin> guards (iox w)" "guards i1 = insert g (guards (iox w))"
        if "guard_contract api waitset guards"
        using iv Inr guard_contractD(4,5) [OF that] by metis+
      have "\<exists>w'. WaitSet_wait api timeout ws w = Some (timed_wait api waitset timeout ws (iox w), w') \<and>
        (guard_contract api waitset guards \<longrightarrow> guards (iox w') = guards i1 - {g})"
        using WaitSet_wait_attached [OF assms, where api = api and at = "Some g" and timeout = timeout
            and w = "w\<lparr>iox := i1\<rparr>" and guards = guards] Some iv Inr
        unfolding WaitSet_wait_def if_not_P [OF reach(1)] if_not_P [OF reach(2)]
        by (simp add: attach_timeout_def assms(2) timed_wait_def call_def)
      with g show ?thesis unfolding out by fastforce
    qed
  qed
qed

section \<open>Frames and consequences\<close>

lemma get_storage_index_frame_state:
  "get_storage_index api ctx k s ws w = Some (r, ws', w') \<Longrightarrow>
   sys.more w' = sys.more w \<and> (\<forall>e. r = Inl e \<longrightarrow> errmsg w' \<noteq> None)"
  by (auto simp: get_storage_index_def Let_def dest!: call_more
      split: option.splits Option.bind_splits sum.splits prod.splits)

lemma WaitSet_map_frame:
  assumes "WaitSet_map api ctx k idx s ws w = Some (r, ws', w')"
  shows "sys.more w' = sys.more w" "r = Inl e \<Longrightarrow> errmsg w' \<noteq> None" "ws_context ws' = ws_context ws"
  using assms
  by (cases rule: WaitSet_map_cases;
      auto dest: get_storage_index_frame_state get_storage_index_frame(3))+

lemma process_trigger_more:
  "process_trigger api ws k i w = (r, w') \<Longrightarrow> sys.more w' = sys.more w"
  by (auto simp: process_trigger_def dest!: call_more split: option.splits sum.splits prod.splits)

lemma process_events_more:
  "process_events api ws t attached ids result w = (ts, w') \<Longrightarrow> sys.more w' = sys.more w"
  by (induction ids arbitrary: result w)
    (auto dest!: process_trigger_more split: if_splits option.splits sum.splits prod.splits)

lemma attach_mapped_listener_more:
  "attach_mapped_listener api ws m w = Some (r, w') \<Longrightarrow> sys.more w' = sys.more w"
  by (auto simp: attach_mapped_listener_by_kind dest!: call_more
      split: option.splits Option.bind_splits sum.splits prod.splits)

lemma attach_mapped_listeners_more:
  "attach_mapped_listeners api ws ms attached w = Some (r, attached', w') \<Longrightarrow> sys.more w' = sys.more w"
  by (induction ms arbitrary: attached w)
    (auto dest!: attach_mapped_listener_more split: Option.bind_splits sum.splits prod.splits)

lemma attach_timeout_more:
  "attach_timeout api t ws w = Some (r, g, w') \<Longrightarrow> sys.more w' = sys.more w"
  by (auto simp: attach_timeout_def dest!: call_more split: Option.bind_splits sum.splits prod.splits)

lemma WaitSet_wait_more:
  "WaitSet_wait api timeout ws w = Some (r, w') \<Longrightarrow> sys.more w' = sys.more w"
  by (auto simp: WaitSet_wait_def Let_def
      dest!: call_more attach_timeout_more attach_mapped_listeners_more process_events_more
      split: if_splits option.splits Option.bind_splits sum.splits prod.splits)

text \<open>What a wait reports was mapped.\<close>

lemma wait_outcome_mapped:
  assumes "wait_outcome api waitset timeout ws i = Inr ts" and "t \<in> set ts"
  shows "\<exists>s. (trg_type t, s, trg_rmw_index t) \<in> set (mapped ws)"
proof -
  from assms have "timed_wait api waitset timeout ws i = Inr ts" by (auto simp: wait_outcome_def split: if_splits)
  then obtain timer i1 where "attached_wait api waitset timeout timer ws i1 = Inr ts"
    by (auto simp: timed_wait_def split: option.splits prod.splits sum.splits)
  then obtain attached i2 ids i3 where a: "attach_each api waitset ws (ws_mapping ws) i1 = Some (attached, i2)"
    "ts = fst (drained api ws (reported timer attached ids) i3)"
    by (auto simp: attached_wait_def split: option.splits prod.splits sum.splits)
  from drained_from assms(2) a(2) obtain a where "a \<in> set attached" "t = triggered_of (att_mapping a)"
    using reported_attached by fast
  moreover note attach_each_mapping [OF a(1)]
  ultimately have "att_mapping a \<in> set (ws_mapping ws)" by (metis list.set_map image_eqI)
  with \<open>t = triggered_of (att_mapping a)\<close> show ?thesis by (force simp: mapped_def mapped_entry_def triggered_of_def)
qed

section \<open>On the concrete middleware\<close>

definition sim_waitset :: waitset_impl where
  "sim_waitset =
     \<lparr>ws_context = 4, ws_waitset = Some 9,
      ws_guard_condition_listeners = [\<lparr>ld_service_name = names_guard_condition 0 0, ld_listener = 5\<rparr>],
      ws_subscriber_listeners = [],
      ws_mapping = [\<lparr>map_type = GUARD_CONDITION, map_storage_index = 0, map_rmw_index = 3\<rparr>]\<rparr>"

lemma sim_waitset_wf [simp]: "waitset_wf sim_waitset"
  by (auto simp: waitset_wf_def sim_waitset_def listener_names_def listener_storage_def
      split: waitable_entity.split)

section \<open>Properties\<close>

text \<open>C6. Mapping a guard condition or subscriber on a well-formed wait set implements the abstract
  list of (kind, service, index) entries: an error leaves the entries as they are; success appends
  the new entry, unless the service is staged already, and then the first index is kept. The wait
  set stays well-formed and the message of an error is set.\<close>
theorem mapping_refines_entries:
  assumes "waitset_wf ws" and "WaitSet_map api ctx k idx s ws w = Some (r, ws', w')"
  shows "waitset_wf ws' \<and>
    (case r of Inl _ \<Rightarrow> mapped ws' = mapped ws \<and> errmsg w' \<noteq> None
             | Inr _ \<Rightarrow> mapped ws' = abs_map k s idx (mapped ws))"
  using WaitSet_map_wf [OF assms] WaitSet_map_refines [OF assms] WaitSet_map_frame(2) [OF assms(2)]
  by (auto split: sum.split)

text \<open>The second mapping of a service keeps index 3, the first one.\<close>
theorem mapping_refines_entries_witness:
  "\<exists>ws' w'. WaitSet_map sim_api (Some sim_context) GUARD_CONDITION 4 (names_guard_condition 0 0) sim_waitset sim_sys =
      Some (Inr (), ws', w') \<and> waitset_wf ws' \<and>
    mapped ws' = [(GUARD_CONDITION, names_guard_condition 0 0, 3)]"
proof -
  have step: "WaitSet_map sim_api (Some sim_context) GUARD_CONDITION 4 (names_guard_condition 0 0) sim_waitset sim_sys =
      Some (Inr (), sim_waitset, sim_sys)"
    by (simp add: WaitSet_map_def get_storage_index_def sim_waitset_def listener_storage_def
        map_stored_listener_def)
  from mapping_refines_entries [OF sim_waitset_wf step] step show ?thesis
    by (simp add: mapped_def mapped_entry_def sim_waitset_def listener_names_def listener_storage_def abs_map_def)
qed

text \<open>A storage index keeps its meaning: once a listener of a service is stored at an index, mapping
  anything else, of either kind, successful or not, leaves the service at that index.\<close>
lemma storage_index_stable:
  assumes "WaitSet_map api ctx k idx s ws w = Some (r, ws', w')" and "j < length (listener_names k' ws)"
  shows "j < length (listener_names k' ws') \<and> listener_names k' ws' ! j = listener_names k' ws ! j"
  using assms(1)
proof (cases rule: WaitSet_map_cases)
  case (1 e)
  with assms(2) get_storage_index_stable show ?thesis by blast
next
  case (2 i ws1)
  with get_storage_index_stable [OF 2(2) assms(2)] show ?thesis by simp
qed

text \<open>A subscriber is mapped after a guard condition.\<close>
lemma storage_index_stable_witness:
  "\<exists>r ws' w'. WaitSet_map sim_api (Some sim_context) SUBSCRIBER 0 (names_topic ''/chatter'') sim_waitset sim_sys =
      Some (r, ws', w') \<and> listener_names GUARD_CONDITION ws' ! 0 = names_guard_condition 0 0"
proof -
  obtain r ws' w' where step: "WaitSet_map sim_api (Some sim_context) SUBSCRIBER 0 (names_topic ''/chatter'')
      sim_waitset sim_sys = Some (r, ws', w')"
    using WaitSet_map_returns [of sim_api "Some sim_context" "names_topic ''/chatter''" SUBSCRIBER sim_waitset 0 sim_sys]
    by (fastforce simp: context_for_def sim_api_def)
  have "0 < length (listener_names GUARD_CONDITION sim_waitset)"
    by (simp add: sim_waitset_def listener_names_def listener_storage_def)
  from storage_index_stable [OF step this] step show ?thesis
    by (simp add: sim_waitset_def listener_names_def listener_storage_def)
qed

text \<open>C5. Waiting on a well-formed wait set, with any timeout and any middleware that answers, returns, and what it
  returns follows from what iceoryx2 answers. An empty mapping yields nothing with a timeout of zero and a wait
  failure without a timeout. Otherwise the timer is attached if there is a timeout, then each listener of the mapping
  in order; if iceoryx2 refuses one, the call fails with an attachment failure. It then waits once; if iceoryx2
  refuses, it fails with a wait failure. Else it reports, in the order of the ids that wait returned, the entries of
  the mapping whose attachment has the id, up to the timer's id and without those whose listener could not be drained;
  it never fails because of a storage index. With a middleware that keeps the contract of guards, on every way out each
  guard it attached, the timer's included, is detached again.\<close>
theorem waiting_is_safe:
  assumes "waitset_wf ws" and "ws_waitset ws = Some waitset"
  shows "\<exists>w'. WaitSet_wait api timeout ws w = Some (wait_outcome api waitset timeout ws (iox w), w') \<and>
    (guard_contract api waitset guards \<longrightarrow> guards (iox w') = guards (iox w))"
  by (rule WaitSet_wait_correct [OF assms])

text \<open>One guard condition is mapped at index 3 and reported.\<close>
theorem waiting_is_safe_witness:
  "\<exists>w'. WaitSet_wait sim_api None sim_waitset sim_sys =
      Some (Inr [\<lparr>trg_type = GUARD_CONDITION, trg_rmw_index = 3\<rparr>], w') \<and> sim_guards (iox w') = []"
proof -
  have ws: "ws_waitset sim_waitset = Some 9" by (simp add: sim_waitset_def)
  have "wait_outcome sim_api 9 None sim_waitset (iox sim_sys) = Inr [\<lparr>trg_type = GUARD_CONDITION, trg_rmw_index = 3\<rparr>]"
    by (simp add: wait_outcome_def timed_wait_def attached_wait_def listener_of_def listener_storage_def sim_waitset_def sim_api_def sim_attach_def sim_sys_def
        sim_start_def fresh_def Let_def triggered_of_def)
  with waiting_is_safe [OF sim_waitset_wf ws, where api = sim_api and timeout = None and w = sim_sys and guards = "\<lambda>i. set (sim_guards i)"]
  show ?thesis using sim_guard_contract by (auto simp: sim_sys_def sim_start_def)
qed

end
