(* ===== verification/Rmw_Heap.thy ===== *)
theory Rmw_Heap
  imports Waitset_Correct
begin

text \<open>
  The memory the RMW functions work on: handles of the C interface, the implementation objects
  their \<open>data\<close> and \<open>impl\<close> pointers designate, and strings, each a whole object at an address.
  \<open>impl/common/allocator.hpp\<close> and the pointer overload of \<open>create_in_place\<close> are modelled here, and
  the argument checks of \<open>ensure.hpp\<close>.

  Objects have even addresses; the odd address after a node object is the address of the graph
  guard condition inside it. Reading, writing or freeing an address that holds no object of the
  expected kind is \<open>None\<close>.
\<close>

section \<open>Handles and objects\<close>

record rmw_init_options =
  io_instance_id :: u64
  io_identifier :: ident
  io_enclave :: ptr
  io_allocator :: nat
  io_impl :: ptr

record rmw_context =
  rc_instance_id :: u64
  rc_identifier :: ident
  rc_enclave :: ptr
  rc_impl :: ptr

record rmw_node =
  rn_identifier :: ident
  rn_data :: ptr
  rn_name :: ptr
  rn_namespace :: ptr
  rn_context :: ptr

record rmw_guard_condition =
  rg_identifier :: ident
  rg_data :: ptr
  rg_context :: ptr

record rmw_wait_set =
  rw_identifier :: ident
  rw_data :: ptr

record rmw_publisher =
  rp_identifier :: ident
  rp_data :: ptr
  rp_topic_name :: ptr
  rp_can_loan_messages :: bool

record rmw_subscription =
  rs_identifier :: ident
  rs_data :: ptr
  rs_topic_name :: ptr
  rs_can_loan_messages :: bool

record rmw_client =
  rl_identifier :: ident
  rl_service_name :: ptr

record rmw_service =
  rv_identifier :: ident
  rv_service_name :: ptr

datatype 'm obj = Raw | CString string | Message 'm | Bytes "u8 list"
  | InitOptionsHandle rmw_init_options | ContextHandle rmw_context | NodeHandle rmw_node
  | GuardConditionHandle rmw_guard_condition | WaitSetHandle rmw_wait_set
  | PublisherHandle rmw_publisher | SubscriptionHandle rmw_subscription
  | ClientHandle rmw_client | ServiceHandle rmw_service
  | ContextObj rmw_context_impl | NodeObj node_impl | GuardConditionObj guard_condition
  | WaitSetObj waitset_impl | PublisherObj publisher_impl | SubscriberObj subscriber_impl

record ('i, 'm) world = "'i sys" +
  heap :: "ptr \<rightharpoonup> 'm obj"
  next_ptr :: ptr
  requests :: nat

section \<open>Access by kind\<close>

text \<open>
  Each kind of object is a constructor of \<open>obj\<close> with a partial inverse. What reading and writing
  satisfy is proved once, for any kind.
\<close>

definition load :: "('m obj \<Rightarrow> 'a option) \<Rightarrow> ptr \<Rightarrow> ('i, 'm) world \<Rightarrow> 'a option" where
  "load sel p w = (case heap w p of None \<Rightarrow> None | Some ob \<Rightarrow> sel ob)"

definition store :: "('a \<Rightarrow> 'm obj) \<Rightarrow> ptr \<Rightarrow> 'a \<Rightarrow> ('i, 'm) world \<Rightarrow> ('i, 'm) world option" where
  "store mk p x w =
     (case heap w p of None \<Rightarrow> None | Some _ \<Rightarrow> Some (w\<lparr>heap := (heap w)(p \<mapsto> mk x)\<rparr>))"

fun as_context :: "'m obj \<Rightarrow> rmw_context option" where
  "as_context (ContextHandle x) = Some x" | "as_context _ = None"

fun as_node :: "'m obj \<Rightarrow> rmw_node option" where
  "as_node (NodeHandle x) = Some x" | "as_node _ = None"

fun as_guard_condition :: "'m obj \<Rightarrow> rmw_guard_condition option" where
  "as_guard_condition (GuardConditionHandle x) = Some x" | "as_guard_condition _ = None"

fun as_wait_set :: "'m obj \<Rightarrow> rmw_wait_set option" where
  "as_wait_set (WaitSetHandle x) = Some x" | "as_wait_set _ = None"

fun as_publisher :: "'m obj \<Rightarrow> rmw_publisher option" where
  "as_publisher (PublisherHandle x) = Some x" | "as_publisher _ = None"

fun as_subscription :: "'m obj \<Rightarrow> rmw_subscription option" where
  "as_subscription (SubscriptionHandle x) = Some x" | "as_subscription _ = None"

fun as_init_options :: "'m obj \<Rightarrow> rmw_init_options option" where
  "as_init_options (InitOptionsHandle x) = Some x" | "as_init_options _ = None"

fun as_client :: "'m obj \<Rightarrow> rmw_client option" where
  "as_client (ClientHandle x) = Some x" | "as_client _ = None"

fun as_service :: "'m obj \<Rightarrow> rmw_service option" where
  "as_service (ServiceHandle x) = Some x" | "as_service _ = None"

fun as_context_impl :: "'m obj \<Rightarrow> rmw_context_impl option" where
  "as_context_impl (ContextObj x) = Some x" | "as_context_impl _ = None"

fun as_node_impl :: "'m obj \<Rightarrow> node_impl option" where
  "as_node_impl (NodeObj x) = Some x" | "as_node_impl _ = None"

fun as_guard_condition_impl :: "'m obj \<Rightarrow> guard_condition option" where
  "as_guard_condition_impl (GuardConditionObj x) = Some x" | "as_guard_condition_impl _ = None"

fun as_waitset_impl :: "'m obj \<Rightarrow> waitset_impl option" where
  "as_waitset_impl (WaitSetObj x) = Some x" | "as_waitset_impl _ = None"

fun as_publisher_impl :: "'m obj \<Rightarrow> publisher_impl option" where
  "as_publisher_impl (PublisherObj x) = Some x" | "as_publisher_impl _ = None"

fun as_subscriber_impl :: "'m obj \<Rightarrow> subscriber_impl option" where
  "as_subscriber_impl (SubscriberObj x) = Some x" | "as_subscriber_impl _ = None"

fun as_string :: "'m obj \<Rightarrow> string option" where
  "as_string (CString x) = Some x" | "as_string _ = None"

fun as_message :: "'m obj \<Rightarrow> 'm option" where
  "as_message (Message x) = Some x" | "as_message _ = None"

locale object_kind =
  fixes mk :: "'a \<Rightarrow> 'm obj" and sel :: "'m obj \<Rightarrow> 'a option"
  assumes sel_mk: "sel ob = Some x \<longleftrightarrow> ob = mk x"
begin

lemma sel_of_mk [simp]: "sel (mk x) = Some x"
  by (simp add: sel_mk)

lemma load_iff: "load sel p w = Some x \<longleftrightarrow> heap w p = Some (mk x)"
  by (auto simp: load_def sel_mk split: option.split)

lemma store_iff:
  "store mk p x w = Some w' \<longleftrightarrow> heap w p \<noteq> None \<and> w' = w\<lparr>heap := (heap w)(p \<mapsto> mk x)\<rparr>"
  by (auto simp: store_def split: option.split)

lemma load_store: "store mk p x w = Some w' \<Longrightarrow> load sel p w' = Some x"
  by (auto simp: store_iff load_iff)

lemma store_load: "load sel p w = Some x \<Longrightarrow> store mk p x w = Some w"
  by (auto simp: store_iff load_iff fun_upd_idem)

lemma store_store:
  "store mk p x w = Some w' \<Longrightarrow> store mk p y w' = store mk p y w"
  by (auto simp: store_def split: option.splits)

end

interpretation context_handle: object_kind ContextHandle as_context
  by unfold_locales (case_tac ob; auto)
interpretation node: object_kind NodeHandle as_node
  by unfold_locales (case_tac ob; auto)
interpretation guard_handle: object_kind GuardConditionHandle as_guard_condition
  by unfold_locales (case_tac ob; auto)
interpretation wait_set: object_kind WaitSetHandle as_wait_set
  by unfold_locales (case_tac ob; auto)
interpretation publisher: object_kind PublisherHandle as_publisher
  by unfold_locales (case_tac ob; auto)
interpretation subscription: object_kind SubscriptionHandle as_subscription
  by unfold_locales (case_tac ob; auto)
interpretation init_options: object_kind InitOptionsHandle as_init_options
  by unfold_locales (case_tac ob; auto)
interpretation client: object_kind ClientHandle as_client
  by unfold_locales (case_tac ob; auto)
interpretation service: object_kind ServiceHandle as_service
  by unfold_locales (case_tac ob; auto)
interpretation context_obj: object_kind ContextObj as_context_impl
  by unfold_locales (case_tac ob; auto)
interpretation node_obj: object_kind NodeObj as_node_impl
  by unfold_locales (case_tac ob; auto)
interpretation guard_obj: object_kind GuardConditionObj as_guard_condition_impl
  by unfold_locales (case_tac ob; auto)
interpretation waitset_obj: object_kind WaitSetObj as_waitset_impl
  by unfold_locales (case_tac ob; auto)
interpretation publisher_obj: object_kind PublisherObj as_publisher_impl
  by unfold_locales (case_tac ob; auto)
interpretation subscriber_obj: object_kind SubscriberObj as_subscriber_impl
  by unfold_locales (case_tac ob; auto)
interpretation cstring: object_kind CString as_string
  by unfold_locales (case_tac ob; auto)
interpretation message: object_kind Message as_message
  by unfold_locales (case_tac ob; auto)

section \<open>The allocator\<close>

text \<open>
  \<open>rmw_allocate\<close>: the request may fail; otherwise the memory is new. Its content is given as a
  function of what a pointer in uninitialised memory holds.
\<close>

definition rmw_allocate :: "'m ros_env \<Rightarrow> (ptr \<Rightarrow> 'm obj) \<Rightarrow> ('i, 'm) world \<Rightarrow> ptr \<times> ('i, 'm) world" where
  "rmw_allocate env content w =
     (let n = requests w; w = w\<lparr>requests := Suc n\<rparr> in
      if alloc_ok env n
      then (next_ptr w, w\<lparr>heap := (heap w)(next_ptr w \<mapsto> content (fresh_ptr env n)),
                         next_ptr := next_ptr w + 2\<rparr>)
      else (nullptr, w))"

definition rmw_free :: "ptr \<Rightarrow> ('i, 'm) world \<Rightarrow> ('i, 'm) world option" where
  "rmw_free p w =
     (case heap w p of None \<Rightarrow> None | Some _ \<Rightarrow> Some (w\<lparr>heap := (heap w)(p := None)\<rparr>))"

definition allocate :: "'m ros_env \<Rightarrow> nat \<Rightarrow> ('i, 'm) world \<Rightarrow> (MemoryError + ptr) \<times> ('i, 'm) world" where
  "allocate env num w =
     (if num = 0 then (Inl ALLOCATION, chain ''attempted to allocate nothing'' w)
      else
        let (p, w) = rmw_allocate env (\<lambda>_. Raw) w in
        if p = nullptr then (Inl ALLOCATION, chain ''failed to allocate'' w) else (Inr p, w))"

definition allocate_copy ::
  "'m ros_env \<Rightarrow> string \<Rightarrow> ('i, 'm) world \<Rightarrow> (MemoryError + ptr) \<times> ('i, 'm) world" where
  "allocate_copy env cstr w =
     (let (p, w) = rmw_allocate env (\<lambda>_. CString cstr) w in
      if p = nullptr then (Inl ALLOCATION, chain ''failed to allocate'' w) else (Inr p, w))"

text \<open>\<open>deallocate\<close> also nulls its argument; the callers that keep the variable do so in the model.\<close>

definition deallocate :: "ptr \<Rightarrow> ('i, 'm) world \<Rightarrow> ('i, 'm) world option" where
  "deallocate p w = (if p \<noteq> nullptr then rmw_free p w else Some w)"

text \<open>\<open>destruct\<close> runs the destructor of the object; its memory stays allocated.\<close>

definition destruct ::
  "('m obj \<Rightarrow> 'a option) \<Rightarrow> ('a \<Rightarrow> 'i \<Rightarrow> 'i) \<Rightarrow> ptr \<Rightarrow> ('i, 'm) world \<Rightarrow> ('i, 'm) world option" where
  "destruct sel dtor p w =
     (if p \<noteq> nullptr
      then do { x \<leftarrow> load sel p w; Some (run_iox (dtor x) (w\<lparr>heap := (heap w)(p \<mapsto> Raw)\<rparr>)) }
      else Some w)"

text \<open>Placement new at memory that is there; only tests call it.\<close>

definition construct ::
  "('a \<Rightarrow> 'm obj) \<Rightarrow> ptr \<Rightarrow> 'a \<Rightarrow> ('i, 'm) world \<Rightarrow> ((MemoryError + ptr) \<times> ('i, 'm) world) option" where
  "construct mk p x w =
     (if p = nullptr then Some (Inl CONSTRUCTION, chain ''attempted to construct at nullptr'' w)
      else do { w \<leftarrow> store mk p x w; Some (Inr p, w) })"

text \<open>What was constructed can be read, and destructing it leaves raw memory at the same place.\<close>

lemma construct_destruct:
  fixes w :: "('i, 'm) world"
  assumes "heap w p = Some Raw" and "p \<noteq> nullptr" and "\<And>x. sel (mk x) = Some x"
  shows "\<exists>w'. construct mk p x w = Some (Inr p, w') \<and> load sel p w' = Some x \<and>
    destruct sel dtor p w' = Some (run_iox (dtor x) w)"
proof -
  have "w\<lparr>heap := (heap w)(p \<mapsto> Raw)\<rparr> = w" using assms(1) by (cases w) (simp add: fun_upd_idem)
  then show ?thesis using assms by (simp add: construct_def destruct_def store_def load_def)
qed

definition unsafe_cast :: "ptr \<Rightarrow> ('i, 'm) world \<Rightarrow> (MemoryError + ptr) \<times> ('i, 'm) world" where
  "unsafe_cast p w =
     (if p = nullptr then (Inl CAST, chain ''attempted to cast nullptr'' w) else (Inr p, w))"

text \<open>
  \<open>create_in_place\<close> at a pointer: the object is there afterwards, complete or not; \<open>invariant\<close> is the
  error of the class for a null pointer.
\<close>

definition create_in_place_at ::
  "'e \<Rightarrow> ('t \<Rightarrow> 'm obj) \<Rightarrow> (('i, 'm) world, 't, 'e) ctor \<Rightarrow> ptr \<Rightarrow> ('i, 'm) world \<Rightarrow>
   (('e + unit) \<times> ('i, 'm) world) option" where
  "create_in_place_at invariant mk ctor p w =
     (if p = nullptr then Some (Inl invariant, chain ''attempted to construct at nullptr'' w)
      else do {
        ((obj, error), w) \<leftarrow> ctor w;
        w \<leftarrow> store mk p obj w;
        Some (case error of Some e \<Rightarrow> (Inl e, w) | None \<Rightarrow> (Inr (), w)) })"

text \<open>
  Bytes at an address: a buffer of this process, or else the memory shared through iceoryx2. Going
  past the end of a buffer is \<open>None\<close>.
\<close>

definition write_buffer :: "'i iox2 \<Rightarrow> ptr \<Rightarrow> u8 list \<Rightarrow> ('i, 'm) world \<Rightarrow> ('i, 'm) world option" where
  "write_buffer api p bs w =
     (case heap w p of
        Some (Bytes old) \<Rightarrow>
          if length bs \<le> length old
          then Some (w\<lparr>heap := (heap w)(p \<mapsto> Bytes (bs @ drop (length bs) old))\<rparr>) else None
      | Some _ \<Rightarrow> None
      | None \<Rightarrow> if p = nullptr \<and> bs \<noteq> [] then None else Some (run_iox (write_bytes api p bs) w))"

definition read_buffer :: "'i iox2 \<Rightarrow> ptr \<Rightarrow> nat \<Rightarrow> ('i, 'm) world \<Rightarrow> u8 list option" where
  "read_buffer api p n w =
     (case heap w p of
        Some (Bytes bs) \<Rightarrow> if n \<le> length bs then Some (take n bs) else None
      | Some _ \<Rightarrow> None
      | None \<Rightarrow> if p = nullptr \<and> n \<noteq> 0 then None else Some (read_bytes api p n (iox w)))"

text \<open>A call of a method that changes its object: the object is read, replaced and written back.\<close>

definition method_call ::
  "('a \<Rightarrow> 'm obj) \<Rightarrow> ('m obj \<Rightarrow> 'a option) \<Rightarrow> ptr \<Rightarrow>
   ('a \<Rightarrow> ('i, 'm) world \<Rightarrow> ('r \<times> 'a \<times> ('i, 'm) world) option) \<Rightarrow> ('i, 'm) world \<Rightarrow>
   ('r \<times> ('i, 'm) world) option" where
  "method_call mk sel p f w =
     do { x \<leftarrow> load sel p w; (r, x, w) \<leftarrow> f x w; w \<leftarrow> store mk p x w; Some (r, w) }"

text \<open>
  The address a guard condition is known by: an object of its own, or the graph guard condition
  inside a node object.
\<close>

definition graph_guard_condition_address :: "ptr \<Rightarrow> ptr" where
  "graph_guard_condition_address p = p + 1"

definition load_guard_condition :: "ptr \<Rightarrow> ('i, 'm) world \<Rightarrow> guard_condition option" where
  "load_guard_condition p w =
     (if odd p then do { n \<leftarrow> load as_node_impl (p - 1) w; Node_graph_guard_condition n }
      else load as_guard_condition_impl p w)"

section \<open>Argument checks\<close>

definition ensure_not_null ::
  "ptr \<Rightarrow> string \<Rightarrow> 'r \<Rightarrow> ('i, 'm) world \<Rightarrow> ('r \<times> ('i, 'm) world) option \<Rightarrow>
   ('r \<times> ('i, 'm) world) option" where
  "ensure_not_null p argument return_value w rest =
     (if p = nullptr then fail return_value (argument @ '' argument is null'') w else rest)"

definition ensure_null ::
  "ptr \<Rightarrow> string \<Rightarrow> 'r \<Rightarrow> ('i, 'm) world \<Rightarrow> ('r \<times> ('i, 'm) world) option \<Rightarrow>
   ('r \<times> ('i, 'm) world) option" where
  "ensure_null p argument return_value w rest =
     (if p \<noteq> nullptr then fail return_value (argument @ '' argument is not null'') w else rest)"

definition ensure_implementation ::
  "ident \<Rightarrow> string \<Rightarrow> 'r \<Rightarrow> ('i, 'm) world \<Rightarrow> ('r \<times> ('i, 'm) world) option \<Rightarrow>
   ('r \<times> ('i, 'm) world) option" where
  "ensure_implementation i argument return_value w rest =
     (if i \<noteq> rmw_get_implementation_identifier
      then fail return_value (argument @ '' invalid for rmw_iceoryx2_cxx'') w else rest)"

text \<open>The checks of names: the message of the last two replaces the thread's error.\<close>

definition ensure_valid ::
  "(string \<Rightarrow> unit + string option) \<Rightarrow> string \<Rightarrow> string \<Rightarrow> 'r \<Rightarrow> ('i, 'm) world \<Rightarrow>
   ('r \<times> ('i, 'm) world) option \<Rightarrow> ('r \<times> ('i, 'm) world) option" where
  "ensure_valid validate text name return_value w rest =
     (case validate name of
        Inl _ \<Rightarrow> Some (return_value, w)
      | Inr (Some reason) \<Rightarrow> Some (return_value, w\<lparr>errmsg := Some (text @ reason)\<rparr>)
      | Inr None \<Rightarrow> rest)"

text \<open>A pointer argument whose target the model passes by value.\<close>

definition ensure_given ::
  "'a option \<Rightarrow> string \<Rightarrow> 'r \<Rightarrow> ('i, 'm) world \<Rightarrow> ('a \<Rightarrow> ('r \<times> ('i, 'm) world) option) \<Rightarrow>
   ('r \<times> ('i, 'm) world) option" where
  "ensure_given x argument return_value w rest =
     (case x of None \<Rightarrow> fail return_value (argument @ '' argument is null'') w | Some v \<Rightarrow> rest v)"

text \<open>What \<open>rcutils_get_error_string\<close> gives.\<close>

definition error_string :: "('i, 'm) world \<Rightarrow> string" where
  "error_string w = (case errmsg w of None \<Rightarrow> ''error not set'' | Some m \<Rightarrow> m)"

definition ensure_valid_typesupport ::
  "'m ros_env \<Rightarrow> ptr \<Rightarrow> 'r \<Rightarrow> ('i, 'm) world \<Rightarrow> (('i, 'm) world \<Rightarrow> ('r \<times> ('i, 'm) world) option) \<Rightarrow>
   ('r \<times> ('i, 'm) world) option" where
  "ensure_valid_typesupport env type_support return_value w rest =
     (case typesupport_handle (fastrtps_c env type_support) w of
        (Some _, w) \<Rightarrow> rest w
      | (None, w) \<Rightarrow>
          let prev_error_string = error_string w; w = w\<lparr>errmsg := None\<rparr> in
          (case typesupport_handle (fastrtps_cpp env type_support) w of
             (Some _, w) \<Rightarrow> rest w
           | (None, w) \<Rightarrow>
               let msg = error_string w in
               fail return_value (''Invalid typesupport: '' @ prev_error_string @ [CHR 0x0A] @ msg)
                 (w\<lparr>errmsg := None\<rparr>)))"

definition ensure_valid_qos ::
  "rmw_qos_profile \<Rightarrow> 'r \<Rightarrow> ('i, 'm) world \<Rightarrow> ('r \<times> ('i, 'm) world) option \<Rightarrow>
   ('r \<times> ('i, 'm) world) option" where
  "ensure_valid_qos qos return_value w rest =
     (if qos_history qos = POLICY_UNKNOWN \<or> qos_reliability qos = POLICY_UNKNOWN
        \<or> qos_durability qos = POLICY_UNKNOWN \<or> qos_liveliness qos = POLICY_UNKNOWN
      then Some (return_value, w) else rest)"

lemmas ensure_defs =
  ensure_not_null_def ensure_null_def ensure_implementation_def ensure_valid_def fail_def

text \<open>Type supports of the kind the code serializes with.\<close>

definition typesupport_valid :: "'m ros_env \<Rightarrow> ptr \<Rightarrow> bool" where
  "typesupport_valid env ts \<longleftrightarrow> (\<exists>d. fastrtps_c env ts = Inr d) \<or> (\<exists>d. fastrtps_cpp env ts = Inr d)"

lemma ensure_valid_typesupport_ok:
  "typesupport_valid env ts \<Longrightarrow>
   \<exists>w0. (\<forall>r rest. ensure_valid_typesupport env ts r w rest = rest w0) \<and>
     sys.more w0 = sys.more w \<and> iox w0 = iox w"
  by (cases w) (auto simp: typesupport_valid_def ensure_valid_typesupport_def typesupport_handle_def
      split: sum.split option.split)

lemma ensure_given_Some [simp]: "ensure_given (Some x) a r w rest = rest x"
  by (simp add: ensure_given_def)

lemma ensure_ok:
  "p \<noteq> nullptr \<Longrightarrow> ensure_not_null p a r w rest = rest"
  "i = Iox2Ident \<Longrightarrow> ensure_implementation i a r w rest = rest"
  by (simp_all add: ensure_not_null_def ensure_implementation_def rmw_get_implementation_identifier_def)

lemma unsafe_cast_ok: "p \<noteq> nullptr \<Longrightarrow> unsafe_cast p w = (Inr p, w)"
  by (simp add: unsafe_cast_def)

section \<open>Postconditions\<close>

text \<open>What holds of the state whenever an operation returns, proved along its structure.\<close>

definition post :: "('w \<Rightarrow> bool) \<Rightarrow> ('r \<times> 'w) option \<Rightarrow> bool" where
  "post P c \<longleftrightarrow> (\<forall>r w. c = Some (r, w) \<longrightarrow> P w)"

lemma post_simps [simp]: "post P None" "post P (Some (r, w)) = P w"
  by (simp_all add: post_def)

lemma postD: "c = Some (r, w) \<Longrightarrow> post P c \<Longrightarrow> P w"
  by (simp add: post_def)

lemma post_fail: "P (chain m w) \<Longrightarrow> post P (fail r m w)"
  by (simp add: fail_def)

lemma post_if: "(b \<Longrightarrow> post P x) \<Longrightarrow> (\<not> b \<Longrightarrow> post P y) \<Longrightarrow> post P (if b then x else y)"
  by simp

lemma post_sum:
  "(\<And>e. s = Inl e \<Longrightarrow> post P (f e)) \<Longrightarrow> (\<And>x. s = Inr x \<Longrightarrow> post P (g x)) \<Longrightarrow> post P (case s of Inl e \<Rightarrow> f e | Inr x \<Rightarrow> g x)"
  by (simp split: sum.split)

lemma post_option:
  "(s = None \<Longrightarrow> post P f) \<Longrightarrow> (\<And>x. s = Some x \<Longrightarrow> post P (g x)) \<Longrightarrow> post P (case s of None \<Rightarrow> f | Some x \<Rightarrow> g x)"
  by (simp split: option.split)

lemma post_prod: "(\<And>a b. s = (a, b) \<Longrightarrow> post P (f a b)) \<Longrightarrow> post P (case s of (a, b) \<Rightarrow> f a b)"
  by (simp split: prod.split)

lemma post_ensure:
  "P (chain (a @ '' argument is null'') w) \<Longrightarrow> post P rest \<Longrightarrow> post P (ensure_not_null p a r w rest)"
  "P (chain (a @ '' argument is not null'') w) \<Longrightarrow> post P rest \<Longrightarrow> post P (ensure_null p a r w rest)"
  "P (chain (a @ '' invalid for rmw_iceoryx2_cxx'') w) \<Longrightarrow> post P rest \<Longrightarrow> post P (ensure_implementation i a r w rest)"
  "P (chain (a @ '' argument is null'') w) \<Longrightarrow> (\<And>v. x = Some v \<Longrightarrow> post P (k v)) \<Longrightarrow> post P (ensure_given x a r w k)"
  by (auto simp: ensure_defs ensure_given_def fail_def split: option.split)

lemma post_bind:
  "post Q c \<Longrightarrow> (\<And>r w. Q w \<Longrightarrow> post P (f (r, w))) \<Longrightarrow> post P (c \<bind> f)"
  by (cases c) (auto simp: post_def)

lemma post_bind_option: "(\<And>x. c = Some x \<Longrightarrow> post P (f x)) \<Longrightarrow> post P (c \<bind> f)"
  by (cases c) auto

lemma post_bind_inv:
  "post P c \<Longrightarrow> (\<And>r w. P w \<Longrightarrow> post P (f (r, w))) \<Longrightarrow> post P (c \<bind> f)"
  by (rule post_bind)

lemma post_prod_fun:
  "(\<And>a b. s = (a, b) \<Longrightarrow> post P (f a b w)) \<Longrightarrow> post P ((case s of (a, b) \<Rightarrow> f a b) w)"
  by (simp split: prod.split)

lemmas post_intros = post_fail post_if post_sum post_option post_prod post_prod_fun post_ensure

section \<open>Lemmas on memory\<close>

lemma world_chain [simp]:
  "heap (chain m w) = heap w" "next_ptr (chain m w) = next_ptr w" "requests (chain m w) = requests w"
  by (simp_all add: chain_def split: option.split)

lemma world_call [simp]:
  "heap (snd (call f w)) = heap w" "next_ptr (snd (call f w)) = next_ptr w"
  by (simp_all add: call_def split: prod.split)

lemma world_run_iox [simp]:
  "heap (run_iox f w) = heap w" "next_ptr (run_iox f w) = next_ptr w"
  by (simp_all add: run_iox_def)

lemma world_more: "sys.more w' = sys.more w \<Longrightarrow> heap w' = heap w \<and> next_ptr w' = next_ptr w"
  by (cases w; cases w') simp

text \<open>Every address in use is even, not null and below the next address handed out.\<close>

definition world_wf :: "('i, 'm) world \<Rightarrow> bool" where
  "world_wf w \<longleftrightarrow> even (next_ptr w) \<and> 0 < next_ptr w \<and>
     (\<forall>p. heap w p \<noteq> None \<longrightarrow> even p \<and> 0 < p \<and> p < next_ptr w)"

lemma world_wf_cong:
  "heap w' = heap w \<Longrightarrow> next_ptr w' = next_ptr w \<Longrightarrow> world_wf w' = world_wf w"
  by (simp add: world_wf_def)

lemma world_wf_dom:
  assumes "world_wf w" and "dom (heap w') \<subseteq> dom (heap w)" and "next_ptr w' = next_ptr w"
  shows "world_wf w'"
  using assms(1,3) set_mp [OF assms(2)] by (auto simp: world_wf_def domIff)

lemma world_wf_sub:
  "world_wf w \<Longrightarrow> dom h \<subseteq> dom (heap w) \<Longrightarrow> world_wf (w\<lparr>heap := h\<rparr>)"
  by (rule world_wf_dom) simp_all

lemma world_wf_chain [simp]: "world_wf (chain m w) = world_wf w"
  by (simp add: world_wf_def)

lemma rmw_allocate_cases:
  assumes "world_wf w"
  obtains w' where "rmw_allocate env content w = (nullptr, w')" "heap w' = heap w" "world_wf w'"
      "iox w' = iox w" "errmsg w' = errmsg w" "next_ptr w' = next_ptr w"
  | p g w' where "rmw_allocate env content w = (p, w')" "p \<noteq> nullptr" "even p" "heap w p = None"
      "heap w' = (heap w)(p \<mapsto> content g)" "world_wf w'" "iox w' = iox w" "errmsg w' = errmsg w"
proof (cases "alloc_ok env (requests w)")
  case True
  have "heap w (next_ptr w) = None" using assms by (auto simp: world_wf_def)
  moreover have "world_wf (snd (rmw_allocate env content w))"
    using assms True by (auto simp: rmw_allocate_def world_wf_def Let_def)
  ultimately show thesis
    using assms True
    by (intro that(2) [of "next_ptr w" "snd (rmw_allocate env content w)" "fresh_ptr env (requests w)"])
      (auto simp: rmw_allocate_def Let_def world_wf_def)
next
  case False
  with assms show thesis
    by (intro that(1) [of "snd (rmw_allocate env content w)"])
      (auto simp: rmw_allocate_def Let_def world_wf_def)
qed

text \<open>An allocator that zeroes the memory, as the one behind \<open>rmw_allocate\<close> does by default.\<close>

definition zeroing :: "'m ros_env \<Rightarrow> bool" where
  "zeroing env \<longleftrightarrow> (\<forall>n. fresh_ptr env n = nullptr)"

lemma rmw_allocate_zeroed:
  "zeroing env \<Longrightarrow> rmw_allocate env content w = rmw_allocate env (\<lambda>_. content nullptr) w"
  by (simp add: rmw_allocate_def zeroing_def Let_def)

lemma sim_env_zeroing [simp]: "zeroing sim_env"
  by (simp add: zeroing_def sim_env_def)

lemma allocate_cases:
  assumes "world_wf w"
  obtains w' where "allocate env 1 w = (Inl ALLOCATION, w')" "heap w' = heap w" "world_wf w'"
      "iox w' = iox w" "errmsg w' \<noteq> None"
  | p w' where "allocate env 1 w = (Inr p, w')" "p \<noteq> nullptr" "even p" "heap w p = None"
      "heap w' = (heap w)(p \<mapsto> Raw)" "world_wf w'" "iox w' = iox w" "errmsg w' = errmsg w"
  by (rule rmw_allocate_cases [OF assms, of env "\<lambda>_. Raw"])
    (auto simp: allocate_def intro: that)

lemma allocate_copy_cases:
  assumes "world_wf w"
  obtains w' where "allocate_copy env s w = (Inl ALLOCATION, w')" "heap w' = heap w" "world_wf w'"
      "iox w' = iox w" "errmsg w' \<noteq> None"
  | p w' where "allocate_copy env s w = (Inr p, w')" "p \<noteq> nullptr" "even p" "heap w p = None"
      "heap w' = (heap w)(p \<mapsto> CString s)" "world_wf w'" "iox w' = iox w" "errmsg w' = errmsg w"
  by (rule rmw_allocate_cases [OF assms, of env "\<lambda>_. CString s"])
    (auto simp: allocate_copy_def intro: that)

text \<open>A constructor at an address that is in use, and still is when the constructor returns.\<close>

lemma create_in_place_at_cases:
  assumes "p \<noteq> nullptr" and "ctor_ok good errmsg (ctor w)"
    and "\<And>r w1. ctor w = Some (r, w1) \<Longrightarrow> heap w1 p \<noteq> None"
  obtains e obj w1 where "ctor w = Some ((obj, Some e), w1)" "errmsg w1 \<noteq> None"
      "create_in_place_at invariant mk ctor p w = Some (Inl e, w1\<lparr>heap := (heap w1)(p \<mapsto> mk obj)\<rparr>)"
  | obj w1 where "ctor w = Some ((obj, None), w1)" "good obj"
      "create_in_place_at invariant mk ctor p w = Some (Inr (), w1\<lparr>heap := (heap w1)(p \<mapsto> mk obj)\<rparr>)"
  using assms(2)
proof (cases rule: ctor_okE)
  case (1 obj w1)
  with assms show thesis by (intro that(2)) (auto simp: create_in_place_at_def store_def split: option.split)
next
  case (2 obj e w1)
  with assms show thesis by (intro that(1)) (auto simp: create_in_place_at_def store_def split: option.split)
qed

lemma rmw_free_simp: "heap w p = Some ob \<Longrightarrow> rmw_free p w = Some (w\<lparr>heap := (heap w)(p := None)\<rparr>)"
  by (simp add: rmw_free_def)

lemma deallocate_simp:
  "heap w p = Some ob \<Longrightarrow> p \<noteq> nullptr \<Longrightarrow> deallocate p w = Some (w\<lparr>heap := (heap w)(p := None)\<rparr>)"
  by (simp add: deallocate_def rmw_free_simp)

lemma world_wf_upd:
  "world_wf w \<Longrightarrow> heap w p \<noteq> None \<Longrightarrow> world_wf (w\<lparr>heap := (heap w)(p := x)\<rparr>)"
  by (auto simp: world_wf_def)

section \<open>Constructors that use the context\<close>

text \<open>
  A constructor that gets the context by reference, run on the memory: the object at the context's
  address is read and written back.
\<close>

definition with_context ::
  "ptr \<Rightarrow> (rmw_context_impl \<times> ('i, 'm) world, 't, 'e) ctor \<Rightarrow> (('i, 'm) world, 't, 'e) ctor" where
  "with_context c ctor w =
     do { ctx \<leftarrow> load as_context_impl c w;
          (r, ctx, w) \<leftarrow> ctor (ctx, w);
          w \<leftarrow> store ContextObj c ctx w;
          Some (r, w) }"

lemma with_context_ok:
  assumes "load as_context_impl c w = Some ctx" and "ctor_ok good (errmsg \<circ> snd) (ctor (ctx, w))"
    and "\<And>r ctx' w1. ctor (ctx, w) = Some (r, ctx', w1) \<Longrightarrow> heap w1 c \<noteq> None"
  shows "ctor_ok good errmsg (with_context c ctor w)"
  using assms(2,1,3)
  by (cases rule: ctor_okE)
    (auto simp: with_context_def store_def split: option.split)

section \<open>The tail of the create functions\<close>

text \<open>
  What \<open>rmw_create_guard_condition\<close>, \<open>rmw_create_wait_set\<close>, \<open>rmw_create_node\<close>,
  \<open>rmw_create_publisher\<close> and \<open>rmw_create_subscription\<close> do once their handle exists: memory for the
  implementation object, the constructor in it, and on a failure of either the way back, where
  \<open>undo\<close> releases the handle. \<open>finish\<close> stores the object's address in the handle.
\<close>

definition create_impl ::
  "'m ros_env \<Rightarrow> 'e \<Rightarrow> ('t \<Rightarrow> 'm obj) \<Rightarrow> ('m obj \<Rightarrow> 't option) \<Rightarrow> ('t \<Rightarrow> 'i \<Rightarrow> 'i) \<Rightarrow>
   (('i, 'm) world, 't, 'e) ctor \<Rightarrow> (('i, 'm) world \<Rightarrow> ('i, 'm) world option) \<Rightarrow>
   (ptr \<Rightarrow> ('i, 'm) world \<Rightarrow> (ptr \<times> ('i, 'm) world) option) \<Rightarrow> string \<Rightarrow> string \<Rightarrow>
   ('i, 'm) world \<Rightarrow> (ptr \<times> ('i, 'm) world) option" where
  "create_impl env invariant mk sel dtor ctor undo finish no_memory no_object w =
     (case allocate env 1 w of
        (Inl _, w) \<Rightarrow> do { w \<leftarrow> undo w; fail nullptr no_memory w }
      | (Inr impl, w) \<Rightarrow> do {
          (result, w) \<leftarrow> create_in_place_at invariant mk ctor impl w;
          case result of
            Inl _ \<Rightarrow> do {
              w \<leftarrow> destruct sel dtor impl w;
              w \<leftarrow> deallocate impl w;
              w \<leftarrow> undo w;
              fail nullptr no_object w }
          | Inr _ \<Rightarrow> finish impl w })"

text \<open>
  Its three ways to go on. \<open>Q h r\<close> is what the constructor does to the rest of the memory when its
  result is \<open>r\<close>.
\<close>

context object_kind
begin

lemma create_impl_cases:
  fixes w :: "('i, 'm) world"
  assumes wf: "world_wf w"
    and ok: "\<And>q w1. heap w1 = (heap w)(q \<mapsto> Raw) \<Longrightarrow> heap w q = None \<Longrightarrow> ctor_ok good errmsg (ctor w1)"
    and frame: "\<And>q w1 obj e w2. heap w1 = (heap w)(q \<mapsto> Raw) \<Longrightarrow> heap w q = None \<Longrightarrow>
      ctor w1 = Some ((obj, e), w2) \<Longrightarrow>
      next_ptr w2 = next_ptr w1 \<and> (\<exists>h. heap w2 = h(q \<mapsto> Raw) \<and> dom h = dom (heap w) \<and> Q h obj e)"
  obtains w1 where "create_impl env invariant mk sel dtor ctor undo finish m1 m2 w =
        do { w \<leftarrow> undo w1; fail nullptr m1 w }"
      "heap w1 = heap w" "world_wf w1" "iox w1 = iox w"
  | obj e w1 where "create_impl env invariant mk sel dtor ctor undo finish m1 m2 w =
        do { w \<leftarrow> undo w1; fail nullptr m2 w }"
      "dom (heap w1) = dom (heap w)" "Q (heap w1) obj (Some e)" "world_wf w1"
  | q obj w1 h where "create_impl env invariant mk sel dtor ctor undo finish m1 m2 w = finish q w1"
      "q \<noteq> nullptr" "even q" "heap w q = None" "heap w1 = h(q \<mapsto> mk obj)"
      "dom h = dom (heap w)" "Q h obj None" "good obj" "world_wf w1"
proof (rule allocate_cases [OF wf, of env])
  fix w1 assume "allocate env 1 w = (Inl ALLOCATION, w1)" "heap w1 = heap w" "world_wf w1" "iox w1 = iox w"
  then show thesis by (intro that(1) [of w1]) (auto simp: create_impl_def)
next
  fix q w1
  assume a: "allocate env 1 w = (Inr q, w1)" "q \<noteq> nullptr" "even q" "heap w q = None"
    "heap w1 = (heap w)(q \<mapsto> Raw)" "world_wf w1"
  show thesis
  proof (rule create_in_place_at_cases [where w = w1 and ctor = ctor and good = good and invariant = invariant
        and mk = mk, OF a(2) ok [OF a(5,4)]])
    fix r w2 assume "ctor w1 = Some (r, w2)"
    then show "heap w2 q \<noteq> None" using frame [OF a(5,4)] by (cases r) fastforce
  next
    fix e obj w2
    assume c: "ctor w1 = Some ((obj, Some e), w2)"
      "create_in_place_at invariant mk ctor q w1 = Some (Inl e, w2\<lparr>heap := (heap w2)(q \<mapsto> mk obj)\<rparr>)"
    obtain h where h: "next_ptr w2 = next_ptr w1" "heap w2 = h(q \<mapsto> Raw)" "dom h = dom (heap w)" "Q h obj (Some e)"
      using frame [OF a(5,4) c(1)] by blast
    then have "h q = None" using a(4) by blast
    moreover from this have "h(q := None) = h" by auto
    moreover have "world_wf (run_iox (dtor obj) w2\<lparr>heap := h\<rparr>)"
      by (rule world_wf_dom [OF a(6)]) (use a(5) h in auto)
    ultimately show thesis
      using a c h
      by (intro that(2) [of "(run_iox (dtor obj) w2)\<lparr>heap := h\<rparr>" obj e])
        (auto simp: create_impl_def destruct_def load_def deallocate_def rmw_free_def run_iox_def)
  next
    fix obj w2
    assume c: "ctor w1 = Some ((obj, None), w2)" "good obj"
      "create_in_place_at invariant mk ctor q w1 = Some (Inr (), w2\<lparr>heap := (heap w2)(q \<mapsto> mk obj)\<rparr>)"
    obtain h where h: "next_ptr w2 = next_ptr w1" "heap w2 = h(q \<mapsto> Raw)" "dom h = dom (heap w)" "Q h obj None"
      using frame [OF a(5,4) c(1)] by blast
    moreover have "world_wf (w2\<lparr>heap := h(q \<mapsto> mk obj)\<rparr>)"
      by (rule world_wf_dom [OF a(6)]) (use a(5) h in auto)
    ultimately show thesis
      using a c by (intro that(3) [of q "w2\<lparr>heap := h(q \<mapsto> mk obj)\<rparr>" h obj]) (auto simp: create_impl_def)
  qed
qed

end

text \<open>The same for a constructor that leaves the memory alone and a handle that is simply freed.\<close>

context object_kind
begin

lemma create_impl_plain_cases:
  fixes w :: "('i, 'm) world"
  assumes wf: "world_wf w" and p: "heap w p \<noteq> None"
    and ok: "\<And>w1 :: ('i, 'm) world. ctor_ok good errmsg (ctor w1)"
    and frame: "\<And>(w1 :: ('i, 'm) world) r w2. ctor w1 = Some (r, w2) \<Longrightarrow> sys.more w2 = sys.more w1"
  obtains w1 where "create_impl env invariant mk sel dtor ctor (rmw_free p) finish m1 m2 w = Some (nullptr, w1)"
      "errmsg w1 \<noteq> None" "heap w1 = (heap w)(p := None)" "world_wf w1"
  | q obj w1 w0 w2 where "create_impl env invariant mk sel dtor ctor (rmw_free p) finish m1 m2 w = finish q w1"
      "q \<noteq> nullptr" "even q" "heap w q = None" "heap w1 = (heap w)(q \<mapsto> mk obj)" "good obj"
      "ctor w0 = Some ((obj, None), w2)" "world_wf w1"
proof (rule create_impl_cases [OF wf, where good = good and ctor = ctor and undo = "rmw_free p" and env = env
      and invariant = invariant and dtor = dtor and finish = finish and ?m1.0 = m1 and ?m2.0 = m2
      and Q = "\<lambda>h obj e. h = heap w \<and> (\<exists>(w0 :: ('i, 'm) world) w2. ctor w0 = Some ((obj, e), w2))"], goal_cases)
  case (1 q w1)
  then show ?case by (simp add: ok)
next
  case (2 q w1 obj e w2)
  from 2 have c: "ctor w1 = Some ((obj, e), w2)" by simp
  have "heap w2 = (heap w)(q \<mapsto> Raw)" "next_ptr w2 = next_ptr w1"
    using world_more [OF frame [OF c]] 2 by simp_all
  with c show ?case by (intro conjI exI [of _ "heap w"]) auto
next
  case (3 w1)
  then obtain ob where "heap w1 p = Some ob" using p by auto
  moreover from 3 have "world_wf (w1\<lparr>heap := (heap w1)(p := None)\<rparr>)" by (intro world_wf_sub) auto
  ultimately show ?case using 3
    by (intro that(1) [of "chain m1 (w1\<lparr>heap := (heap w1)(p := None)\<rparr>)"])
      (auto simp: fail_def rmw_free_simp)
next
  case (4 obj e w1)
  then obtain ob where "heap w1 p = Some ob" using p by auto
  moreover from 4 have "world_wf (w1\<lparr>heap := (heap w1)(p := None)\<rparr>)" by (intro world_wf_sub) auto
  ultimately show ?case using 4
    by (intro that(1) [of "chain m2 (w1\<lparr>heap := (heap w1)(p := None)\<rparr>)"])
      (auto simp: fail_def rmw_free_simp)
next
  case (5 q obj w1 h)
  then show ?case using that(2) by blast
qed

end

text \<open>
  With the end the create functions share: the object's address goes into the handle at \<open>p\<close>. The constructor
  may change the object at one address \<open>c\<close>, as those do that draw an id from the context.
\<close>

definition handle_finish ::
  "('h \<Rightarrow> 'm obj) \<Rightarrow> ('m obj \<Rightarrow> 'h option) \<Rightarrow> (ptr \<Rightarrow> 'h \<Rightarrow> 'h) \<Rightarrow> ptr \<Rightarrow> ptr \<Rightarrow> ('i, 'm) world \<Rightarrow>
   (ptr \<times> ('i, 'm) world) option" where
  "handle_finish hk hsel set_data p q w = do {
     handle \<leftarrow> load hsel p w; w \<leftarrow> store hk p (set_data q handle) w; Some (p, w) }"

lemma handle_finish_fun:
  "handle_finish hk hsel set_data p =
     (\<lambda>q w. do { handle \<leftarrow> load hsel p w; w \<leftarrow> store hk p (set_data q handle) w; Some (p, w) })"
  by (intro ext) (simp add: handle_finish_def)

lemma handle_finish_at:
  assumes "object_kind hk hsel" and "heap w p = Some (hk H)" and "world_wf w"
  shows "handle_finish hk hsel set_data p q w = Some (p, w\<lparr>heap := (heap w)(p \<mapsto> hk (set_data q H))\<rparr>)"
    and "world_wf (w\<lparr>heap := (heap w)(p \<mapsto> hk (set_data q H))\<rparr>)"
proof -
  have "load hsel p w = Some H" using assms(2) by (simp add: object_kind.load_iff [OF assms(1)])
  with assms(2) show "handle_finish hk hsel set_data p q w = Some (p, w\<lparr>heap := (heap w)(p \<mapsto> hk (set_data q H))\<rparr>)"
    by (simp add: handle_finish_def store_def)
qed (rule world_wf_upd [OF assms(3)], simp add: assms(2))

context object_kind
begin

lemma create_handle_cases:
  fixes w1 :: "('i, 'm) world"
  assumes hk: "object_kind hk hsel" and wf: "world_wf w1" and p: "heap w1 p = Some (hk H)" and cp: "c \<noteq> p"
    and ok: "\<And>w2 :: ('i, 'm) world. heap w2 c = heap w1 c \<Longrightarrow> ctor_ok good errmsg (ctor w2)"
    and frame: "\<And>(w2 :: ('i, 'm) world) obj e w3. heap w2 c = heap w1 c \<Longrightarrow> ctor w2 = Some ((obj, e), w3) \<Longrightarrow>
      next_ptr w3 = next_ptr w2 \<and> (\<exists>x. heap w3 = (heap w2)(c := x) \<and> x \<noteq> None \<and> R x obj)"
    and raw: "heap w1 c \<noteq> None"
    and undo: "\<And>(w2 :: ('i, 'm) world) x. world_wf w2 \<Longrightarrow> heap w2 = (heap w1)(c := x) \<Longrightarrow>
      \<exists>w3. undo w2 = Some w3 \<and> world_wf w3 \<and> heap w3 = h(c := x)"
  obtains x w' where "create_impl env invariant mk sel dtor ctor undo (handle_finish hk hsel set_data p) m1 m2 w1 =
        Some (nullptr, w')" "errmsg w' \<noteq> None" "world_wf w'" "heap w' = h(c := x)" "x = heap w1 c \<or> (\<exists>obj. R x obj)"
  | q obj x w' where "create_impl env invariant mk sel dtor ctor undo (handle_finish hk hsel set_data p) m1 m2 w1 =
        Some (p, w')" "q \<noteq> nullptr" "even q" "heap w1 q = None" "q \<noteq> p" "q \<noteq> c"
      "heap w' = (heap w1)(c := x, q \<mapsto> mk obj, p \<mapsto> hk (set_data q H))" "good obj" "R x obj" "world_wf w'"
proof -
  show thesis
  proof (rule create_impl_cases [OF wf, where good = good and ctor = ctor and undo = undo and env = env
        and Q = "\<lambda>h obj e. \<exists>x. h = (heap w1)(c := x) \<and> R x obj" and invariant = invariant and dtor = dtor
        and finish = "handle_finish hk hsel set_data p" and ?m1.0 = m1 and ?m2.0 = m2], goal_cases)
    case (1 q w2)
    with raw show ?case by (intro ok) auto
  next
    case (2 q w2 obj e w3)
    then have cq: "c \<noteq> q" "heap w2 c = heap w1 c" using raw by auto
    from frame [OF cq(2) 2(3)] obtain x where "next_ptr w3 = next_ptr w2" "heap w3 = (heap w2)(c := x)"
      "x \<noteq> None" "R x obj" by blast
    with 2(1) cq(1) show ?case
      by (intro conjI exI [of _ "(heap w1)(c := x)"] exI [of _ x]) (use raw in \<open>auto simp: fun_upd_twist\<close>)
  next
    case (3 w2)
    from undo [OF 3(3), of "heap w1 c"] 3 obtain w3 where "undo w2 = Some w3" "world_wf w3" "heap w3 = h(c := heap w1 c)"
      by auto
    with 3(1) show ?case by (intro that(1) [of "chain m1 w3" "heap w1 c"]) (auto simp: fail_def)
  next
    case (4 obj e w2)
    then obtain x where x: "heap w2 = (heap w1)(c := x)" "R x obj" by blast
    from undo [OF 4(4) x(1)] obtain w3 where "undo w2 = Some w3" "world_wf w3" "heap w3 = h(c := x)" by blast
    with 4(1) x(2) show ?case by (intro that(1) [of "chain m2 w3" x]) (auto simp: fail_def)
  next
    case (5 q obj w2 h')
    then obtain x where x: "h' = (heap w1)(c := x)" "R x obj" by blast
    have ne: "q \<noteq> p" "q \<noteq> c" using 5(2,4) p raw by auto
    then have h2: "heap w2 p = Some (hk H)" using 5(5) x(1) p cp by simp
    note f = handle_finish_at [OF hk h2 5(9), of set_data q]
    with 5 x f ne show ?case
      by (intro that(2) [of "w2\<lparr>heap := (heap w2)(p \<mapsto> hk (set_data q H))\<rparr>" q x obj]) auto
  qed
qed

lemma create_handle_plain_cases:
  fixes w1 :: "('i, 'm) world"
  assumes hk: "object_kind hk hsel" and wf: "world_wf w1" and p: "heap w1 p = Some (hk H)"
    and ok: "\<And>w2 :: ('i, 'm) world. ctor_ok good errmsg (ctor w2)"
    and frame: "\<And>(w2 :: ('i, 'm) world) r w3. ctor w2 = Some (r, w3) \<Longrightarrow> sys.more w3 = sys.more w2"
  obtains w' where "create_impl env invariant mk sel dtor ctor (rmw_free p) (handle_finish hk hsel set_data p) m1 m2 w1 =
        Some (nullptr, w')" "errmsg w' \<noteq> None" "world_wf w'" "heap w' = (heap w1)(p := None)"
  | q obj w' w2 w3 where "create_impl env invariant mk sel dtor ctor (rmw_free p) (handle_finish hk hsel set_data p) m1 m2 w1 =
        Some (p, w')" "q \<noteq> nullptr" "even q" "heap w1 q = None" "q \<noteq> p"
      "heap w' = (heap w1)(q \<mapsto> mk obj, p \<mapsto> hk (set_data q H))" "good obj" "ctor w2 = Some ((obj, None), w3)" "world_wf w'"
proof -
  show thesis
  proof (rule create_impl_plain_cases [OF wf, of p good ctor env invariant dtor "handle_finish hk hsel set_data p" m1 m2], goal_cases)
    case 1
    show ?case by (simp add: p)
  next
    case (2 w1)
    show ?case by (rule ok)
  next
    case (3 w1 r w2)
    then show ?case by (rule frame)
  next
    case (4 w2)
    then show ?case by (intro that(1) [of w2])
  next
    case (5 q obj w2 w0 w3)
    have ne: "q \<noteq> p" using 5(4) p by auto
    then have h2: "heap w2 p = Some (hk H)" using 5(5) p by simp
    note f = handle_finish_at [OF hk h2 5(8), of set_data q]
    with 5 f ne show ?case
      by (intro that(2) [of "w2\<lparr>heap := (heap w2)(p \<mapsto> hk (set_data q H))\<rparr>" q obj w0 w3]) auto
  qed
qed

end

text \<open>
  A step several create functions share: a copy of a string whose address goes into the handle at \<open>p\<close>, or the
  way back. \<open>continue\<close> is what follows.
\<close>

definition copy_into ::
  "'m ros_env \<Rightarrow> string \<Rightarrow> ('h \<Rightarrow> 'm obj) \<Rightarrow> ('m obj \<Rightarrow> 'h option) \<Rightarrow> (ptr \<Rightarrow> 'h \<Rightarrow> 'h) \<Rightarrow> ptr \<Rightarrow>
   (('i, 'm) world \<Rightarrow> ('i, 'm) world option) \<Rightarrow> string \<Rightarrow>
   (ptr \<Rightarrow> ('i, 'm) world \<Rightarrow> (ptr \<times> ('i, 'm) world) option) \<Rightarrow> ('i, 'm) world \<Rightarrow> (ptr \<times> ('i, 'm) world) option" where
  "copy_into env s hk hsel set_string p undo no_memory continue w =
     (case allocate_copy env s w of
        (Inl _, w) \<Rightarrow> do { w \<leftarrow> undo w; fail nullptr no_memory w }
      | (Inr q, w) \<Rightarrow> do {
          handle \<leftarrow> load hsel p w;
          w \<leftarrow> store hk p (set_string q handle) w;
          continue q w })"

lemma copy_into_cases:
  fixes w :: "('i, 'm) world"
  assumes hk: "object_kind hk hsel" and wf: "world_wf w" and p: "heap w p = Some (hk H)"
  obtains w1 where "copy_into env s hk hsel set_string p undo m continue w = do { w \<leftarrow> undo w1; fail nullptr m w }"
      "heap w1 = heap w" "world_wf w1" "iox w1 = iox w"
  | q w1 where "copy_into env s hk hsel set_string p undo m continue w = continue q w1" "q \<noteq> nullptr" "q \<noteq> p"
      "heap w q = None" "heap w1 = (heap w)(p \<mapsto> hk (set_string q H), q \<mapsto> CString s)" "world_wf w1" "iox w1 = iox w"
proof -
  show thesis
  proof (rule allocate_copy_cases [OF wf, of env s], goal_cases)
    case (1 w1)
    then show ?case by (intro that(1) [of w1]) (simp_all add: copy_into_def)
  next
    case (2 q w1)
    let ?w = "w1\<lparr>heap := (heap w1)(p \<mapsto> hk (set_string q H))\<rparr>"
    have qp: "q \<noteq> p" using 2(4) p by auto
    then have hp: "heap w1 p = Some (hk H)" using 2(5) p by simp
    then have "load hsel p w1 = Some H" by (simp add: object_kind.load_iff [OF hk])
    then have "copy_into env s hk hsel set_string p undo m continue w = continue q ?w"
      using 2(1) hp by (simp add: copy_into_def store_def)
    moreover have "world_wf ?w" by (rule world_wf_upd [OF 2(6)]) (simp add: hp)
    ultimately show ?case using 2 qp by (intro that(2) [of q ?w]) (simp_all add: fun_upd_twist)
  qed
qed

section \<open>On the concrete middleware\<close>

text \<open>
  A process with a context at 2, a node at 6, a wait set at 14, a guard condition at 18, a publisher
  at 22 and a subscription at 26, each with its object at the next even address.
\<close>

definition sim_world :: "(sim, u8 list) world" where
  "sim_world =
     \<lparr>errmsg = None, iox = sim_start,
      heap = [2 \<mapsto> ContextHandle \<lparr>rc_instance_id = 0, rc_identifier = Iox2Ident, rc_enclave = 0, rc_impl = 4\<rparr>,
              4 \<mapsto> ContextObj sim_context,
              6 \<mapsto> NodeHandle \<lparr>rn_identifier = Iox2Ident, rn_data = 8, rn_name = 10, rn_namespace = 12,
                              rn_context = 2\<rparr>,
              8 \<mapsto> NodeObj sim_node, 10 \<mapsto> CString ''talker'', 12 \<mapsto> CString ''/'',
              14 \<mapsto> WaitSetHandle \<lparr>rw_identifier = Iox2Ident, rw_data = 16\<rparr>,
              16 \<mapsto> WaitSetObj (unmap_all sim_waitset),
              18 \<mapsto> GuardConditionHandle \<lparr>rg_identifier = Iox2Ident, rg_data = 20, rg_context = 2\<rparr>,
              20 \<mapsto> GuardConditionObj sim_guard,
              22 \<mapsto> PublisherHandle \<lparr>rp_identifier = Iox2Ident, rp_data = 24, rp_topic_name = 30,
                                     rp_can_loan_messages = True\<rparr>,
              24 \<mapsto> PublisherObj sim_publisher,
              26 \<mapsto> SubscriptionHandle \<lparr>rs_identifier = Iox2Ident, rs_data = 28, rs_topic_name = 32,
                                        rs_can_loan_messages = True\<rparr>,
              28 \<mapsto> SubscriberObj sim_subscriber, 30 \<mapsto> CString ''/chatter'', 32 \<mapsto> CString ''/chatter''],
      next_ptr = 34, requests = 0\<rparr>"

lemma sim_world_simps [simp]:
  "errmsg sim_world = None" "iox sim_world = sim_start" "next_ptr sim_world = 34"
  by (simp_all add: sim_world_def)

lemma sim_world_wf [simp]: "world_wf sim_world"
  by (auto simp: world_wf_def sim_world_def split: if_splits)

end
