(* ===== verification/Graph.thy ===== *)
theory Graph
  imports Graph_Names Ordered_Set Rmw_Heap
begin

text \<open>
  \<open>rmw/graph.cpp\<close>: collecting the nodes and topics iceoryx2 reports into ordered sets, and
  \<open>rmw_get_node_names\<close>, which copies them into string arrays.
\<close>

section \<open>Collecting\<close>

text \<open>The callback given to \<open>Handle::list\<close>, on one entry and on all of them.\<close>

definition collect_node :: "node_state \<Rightarrow> node_name list \<Rightarrow> node_name list" where
  "collect_node node names =
     (case node of
        NodeAlive (Some name) \<Rightarrow>
          (case parse_name name of
             Some node_name \<Rightarrow> set_emplace node_name names
           | None \<Rightarrow> names)
      | _ \<Rightarrow> names)"

definition collect_node_names :: "'i iox2 \<Rightarrow> 'i \<Rightarrow> rmw_ret \<times> node_name list" where
  "collect_node_names api i =
     (case node_list api i of
        Inl _ \<Rightarrow> (RMW_RET_ERROR, [])
      | Inr nodes \<Rightarrow> (RMW_RET_OK, fold collect_node nodes []))"

text \<open>
  The callback for topics reads the value of the parsed name without a check: a selected service
  whose name is not a topic's terminates the process.
\<close>

fun collect_topics ::
  "(service_details \<Rightarrow> bool) \<Rightarrow> service_details list \<Rightarrow> topic_details list \<Rightarrow> topic_details list option" where
  "collect_topics predicate [] topics = Some topics"
| "collect_topics predicate (service # services) topics =
     (if predicate service
      then do {
        topic \<leftarrow> parse_topic_name (static_name service);
        collect_topics predicate services (set_emplace (TopicDetails topic []) topics) }
      else collect_topics predicate services topics)"

definition collect_topic_names_and_types ::
  "'i iox2 \<Rightarrow> (service_details \<Rightarrow> bool) \<Rightarrow> 'i \<Rightarrow> (rmw_ret \<times> topic_details list) option" where
  "collect_topic_names_and_types api predicate i =
     (case service_list api i of
        Inl _ \<Rightarrow> Some (RMW_RET_ERROR, [])
      | Inr services \<Rightarrow> do {
          topics \<leftarrow> collect_topics predicate services [];
          Some (RMW_RET_OK, topics) })"

section \<open>String arrays\<close>

text \<open>
  A \<open>rcutils_string_array_t\<close>: its entries, \<open>None\<close> for a null pointer, and whether the fields of its
  allocator are null.
\<close>

record string_array =
  sa_data :: "string option list"
  sa_allocator_null :: bool

definition sa_zero :: "string_array \<Rightarrow> bool" where
  "sa_zero a \<longleftrightarrow> sa_data a = [] \<and> sa_allocator_null a"

text \<open>
  The message of a failure is read after the thread's error was reset, as the arguments of the
  macro are: what is chained is the text for "no error".
\<close>

definition init_string_array ::
  "'m ros_env \<Rightarrow> nat \<Rightarrow> string_array \<Rightarrow> ('i, 'm) world \<Rightarrow> (rmw_ret \<times> string_array) \<times> ('i, 'm) world" where
  "init_string_array env count array w =
     (let n = requests w; w = w\<lparr>requests := Suc n\<rparr> in
      case string_array_init env n count of
        Some (ret, msg) \<Rightarrow> ((ret, array), chain ''error not set'' (w\<lparr>errmsg := Some msg\<rparr>))
      | None \<Rightarrow> ((RMW_RET_OK, \<lparr>sa_data = replicate count None, sa_allocator_null = False\<rparr>), w))"

definition rcutils_strdup :: "'m ros_env \<Rightarrow> string \<Rightarrow> ('i, 'm) world \<Rightarrow> string option \<times> ('i, 'm) world" where
  "rcutils_strdup env s w =
     (let n = requests w in (if alloc_ok env n then Some s else None, w\<lparr>requests := Suc n\<rparr>))"

section \<open>\<open>rmw_get_node_names\<close>\<close>

definition set_entry :: "nat \<Rightarrow> string option \<Rightarrow> string_array \<Rightarrow> string_array" where
  "set_entry i s a = a\<lparr>sa_data := (sa_data a)[i := s]\<rparr>"

fun fill_node_arrays ::
  "'m ros_env \<Rightarrow> nat \<Rightarrow> node_name list \<Rightarrow> string_array \<Rightarrow> string_array \<Rightarrow> ('i, 'm) world \<Rightarrow>
   (rmw_ret \<times> string_array \<times> string_array) \<times> ('i, 'm) world" where
  "fill_node_arrays env i [] node_names node_namespaces w = ((RMW_RET_OK, node_names, node_namespaces), w)"
| "fill_node_arrays env i (name # names) node_names node_namespaces w =
     (case rcutils_strdup env (node_nm name) w of
        (None, w) \<Rightarrow> ((RMW_RET_BAD_ALLOC, set_entry i None node_names, node_namespaces),
                      chain ''failed to populate node name array'' w)
      | (Some s, w) \<Rightarrow>
        (case rcutils_strdup env (node_ns name) w of
           (None, w) \<Rightarrow> ((RMW_RET_BAD_ALLOC, set_entry i (Some s) node_names, set_entry i None node_namespaces),
                         chain ''failed to populate node namespace array'' w)
         | (Some t, w) \<Rightarrow>
             fill_node_arrays env (Suc i) names (set_entry i (Some s) node_names)
               (set_entry i (Some t) node_namespaces) w))"

text \<open>
  The arrays are in-out arguments, \<open>None\<close> for null pointers. The check that they are zero sets no
  message.
\<close>

definition rmw_get_node_names ::
  "'i iox2 \<Rightarrow> 'm ros_env \<Rightarrow> ptr \<Rightarrow> string_array option \<Rightarrow> string_array option \<Rightarrow> ('i, 'm) world \<Rightarrow>
   ((rmw_ret \<times> string_array option \<times> string_array option) \<times> ('i, 'm) world) option" where
  "rmw_get_node_names api env rmw_node node_names node_namespaces w =
     ensure_not_null rmw_node ''rmw_node'' (RMW_RET_INVALID_ARGUMENT, node_names, node_namespaces) w (do {
       node \<leftarrow> load as_node rmw_node w;
       ensure_implementation (rn_identifier node) ''rmw_node->implementation_identifier''
         (RMW_RET_INCORRECT_RMW_IMPLEMENTATION, node_names, node_namespaces) w (
         case node_names of
           None \<Rightarrow> fail (RMW_RET_INVALID_ARGUMENT, node_names, node_namespaces)
                     ''node_names argument is null'' w
         | Some names \<Rightarrow>
           if \<not> sa_zero names then Some ((RMW_RET_INVALID_ARGUMENT, node_names, node_namespaces), w)
           else case node_namespaces of
             None \<Rightarrow> fail (RMW_RET_INVALID_ARGUMENT, node_names, node_namespaces)
                       ''node_namespaces argument is null'' w
           | Some namespaces \<Rightarrow>
             if \<not> sa_zero namespaces then Some ((RMW_RET_INVALID_ARGUMENT, node_names, node_namespaces), w)
             else
               (case collect_node_names api (iox w) of (result, collected) \<Rightarrow>
                  if result \<noteq> RMW_RET_OK then Some ((result, node_names, node_namespaces), w)
                  else case init_string_array env (length collected) names w of ((result, names), w) \<Rightarrow>
                    if result \<noteq> RMW_RET_OK
                    then fail (result, Some names, node_namespaces) ''failed to allocate memory for node names'' w
                    else case init_string_array env (length collected) namespaces w of
                      ((result, namespaces), w) \<Rightarrow>
                        if result \<noteq> RMW_RET_OK
                        then fail (result, Some names, Some namespaces)
                               ''failed to allocate memory for node namespaces'' w
                        else case fill_node_arrays env 0 collected names namespaces w of
                          ((result, names, namespaces), w) \<Rightarrow>
                            Some ((result, Some names, Some namespaces), w))) })"

section \<open>What is collected\<close>

text \<open>The nodes an entry of the list contributes.\<close>

definition alive_name :: "node_state \<Rightarrow> node_name option" where
  "alive_name node = (case node of NodeAlive (Some name) \<Rightarrow> parse_name name | _ \<Rightarrow> None)"

lemma collect_node_alt:
  "collect_node node names = (case alive_name node of Some n \<Rightarrow> set_emplace n names | None \<Rightarrow> names)"
  by (simp add: collect_node_def alive_name_def split: node_state.split option.split)

lemma fold_collect_node:
  "sorted_wrt (<) names \<Longrightarrow>
   sorted_wrt (<) (fold collect_node nodes names) \<and>
   set (fold collect_node nodes names) = set names \<union> {n. \<exists>node \<in> set nodes. alive_name node = Some n}"
proof (induction nodes arbitrary: names)
  case Nil
  then show ?case by simp
next
  case (Cons node nodes)
  have "sorted_wrt (<) (collect_node node names)"
    using Cons.prems by (simp add: collect_node_alt sorted_set_emplace split: option.split)
  from Cons.IH [OF this] show ?case
    by (auto simp: collect_node_alt split: option.splits)
qed

lemma collect_topics_result:
  "sorted_wrt (<) topics \<Longrightarrow> collect_topics predicate services topics = Some result \<Longrightarrow>
   sorted_wrt (<) result \<and>
   set result = set topics \<union>
     {TopicDetails t [] |t. \<exists>s \<in> set services. predicate s \<and> parse_topic_name (static_name s) = Some t}"
proof (induction services arbitrary: topics)
  case Nil
  then show ?case by simp
next
  case (Cons s services)
  show ?case
  proof (cases "predicate s")
    case True
    with Cons.prems obtain t where t: "parse_topic_name (static_name s) = Some t"
      and r: "collect_topics predicate services (set_emplace (TopicDetails t []) topics) = Some result"
      by (auto split: Option.bind_splits)
    from Cons.IH [OF sorted_set_emplace [OF Cons.prems(1)] r] True t show ?thesis by auto
  next
    case False
    with Cons.prems have "collect_topics predicate services topics = Some result" by simp
    from Cons.IH [OF Cons.prems(1) this] False show ?thesis by auto
  qed
qed

lemma collect_topics_None:
  "collect_topics predicate services topics = None \<longleftrightarrow>
   (\<exists>s \<in> set services. predicate s \<and> parse_topic_name (static_name s) = None)"
  by (induction services arbitrary: topics) (auto split: Option.bind_split)

section \<open>Filling the arrays\<close>

lemma rcutils_strdup_cases:
  "rcutils_strdup env s w = (r, w') \<Longrightarrow> (r = Some s \<or> r = None) \<and> heap w' = heap w \<and> iox w' = iox w"
  by (auto simp: rcutils_strdup_def Let_def split: if_splits)

lemma fill_node_arrays_result:
  assumes "fill_node_arrays env i names ns nss w = ((r, ns', nss'), w')"
    and "length (sa_data ns) = i + length names" and "length (sa_data nss) = i + length names"
  shows "(r = RMW_RET_OK \<and> sa_data ns' = take i (sa_data ns) @ map (Some \<circ> node_nm) names \<and>
          sa_data nss' = take i (sa_data nss) @ map (Some \<circ> node_ns) names \<or>
          r = RMW_RET_BAD_ALLOC \<and> errmsg w' \<noteq> None) \<and> heap w' = heap w"
  using assms
proof (induction names arbitrary: i ns nss w)
  case Nil
  then show ?case by simp
next
  case (Cons name names)
  obtain r1 w1 where d1: "rcutils_strdup env (node_nm name) w = (r1, w1)" by fastforce
  obtain r2 w2 where d2: "rcutils_strdup env (node_ns name) w1 = (r2, w2)" by fastforce
  note h = rcutils_strdup_cases [OF d1] rcutils_strdup_cases [OF d2]
  show ?case
  proof (cases "r1 = None \<or> r2 = None")
    case True
    with Cons.prems(1) d1 d2 h show ?thesis by (auto split: option.splits)
  next
    case False
    with h have r: "r1 = Some (node_nm name)" "r2 = Some (node_ns name)" by auto
    have take: "take (Suc i) (xs[i := x]) = take i xs @ [x]" if "i < length xs" for xs :: "string option list" and x
      using that by (simp add: take_Suc_conv_app_nth)
    from Cons.prems(1) d1 d2 r have
      "fill_node_arrays env (Suc i) names (set_entry i (Some (node_nm name)) ns)
         (set_entry i (Some (node_ns name)) nss) w2 = ((r, ns', nss'), w')" by simp
    from Cons.IH [OF this] Cons.prems(2,3) h show ?thesis
      by (simp add: set_entry_def take)
  qed
qed

section \<open>Properties\<close>

text \<open>What rcutils reports as a failure is not success.\<close>

definition failures_are_errors :: "'m ros_env \<Rightarrow> bool" where
  "failures_are_errors env \<longleftrightarrow> (\<forall>n c msg. string_array_init env n c \<noteq> Some (RMW_RET_OK, msg))"

definition memory_granted :: "'m ros_env \<Rightarrow> bool" where
  "memory_granted env \<longleftrightarrow> (\<forall>n c. string_array_init env n c = None) \<and> (\<forall>n. alloc_ok env n)"

lemma fill_node_arrays_granted: "memory_granted env \<Longrightarrow> fst (fst (fill_node_arrays env i names ns nss w)) = RMW_RET_OK"
  by (induction names arbitrary: i ns nss w) (simp_all add: rcutils_strdup_def memory_granted_def Let_def)

lemma init_string_array_cases:
  assumes "failures_are_errors env"
  obtains r w' where "init_string_array env c a w = ((r, a), w')" "r \<noteq> RMW_RET_OK" "errmsg w' \<noteq> None"
      "heap w' = heap w" "iox w' = iox w" "\<not> memory_granted env"
  | a' w' where "init_string_array env c a w = ((RMW_RET_OK, a'), w')" "length (sa_data a') = c"
      "heap w' = heap w" "iox w' = iox w"
proof (cases "string_array_init env (requests w) c")
  case None
  then show thesis
    by (intro that(2) [of "\<lparr>sa_data = replicate c None, sa_allocator_null = False\<rparr>" "w\<lparr>requests := Suc (requests w)\<rparr>"])
      (auto simp: init_string_array_def)
next
  case (Some e)
  obtain r msg where e: "e = (r, msg)" by fastforce
  with assms Some have "r \<noteq> RMW_RET_OK" by (auto simp: failures_are_errors_def)
  with Some e show thesis
    by (intro that(1) [of r "snd (init_string_array env c a w)"]) (auto simp: init_string_array_def memory_granted_def)
qed

lemma node_names_copied:
  fixes w :: "('i, 'm) world"
  assumes env: "failures_are_errors env"
    and h: "heap w n = Some (NodeHandle h)" "n \<noteq> nullptr" "rn_identifier h = Iox2Ident"
    and l: "node_list api (iox w) = Inr nodes" and z: "sa_zero a" "sa_zero b"
    and c: "fold collect_node nodes [] = ns"
  shows "\<exists>r a' b' w'. rmw_get_node_names api env n (Some a) (Some b) w = Some ((r, Some a', Some b'), w') \<and>
    heap w' = heap w \<and> (memory_granted env \<longrightarrow> r = RMW_RET_OK) \<and>
    (r = RMW_RET_OK \<and> sa_data a' = map (Some \<circ> node_nm) ns \<and> sa_data b' = map (Some \<circ> node_ns) ns \<or>
     r \<noteq> RMW_RET_OK \<and> errmsg w' \<noteq> None)"
proof -
  have ld: "load as_node n w = Some h" using h(1) by (simp add: load_def)
  note def = rmw_get_node_names_def [of api env n "Some a" "Some b" w, unfolded ensure_ok(1) [OF h(2)] ld
      Option.bind.bind_lunit ensure_ok(2) [OF h(3)] option.case]
  have cn: "collect_node_names api (iox w) = (RMW_RET_OK, ns)" using l c by (simp add: collect_node_names_def)
  show ?thesis
  proof (rule init_string_array_cases [OF env, of "length ns" a w])
    fix r w1 assume "init_string_array env (length ns) a w = ((r, a), w1)" "r \<noteq> RMW_RET_OK" "heap w1 = heap w"
      "\<not> memory_granted env"
    with z cn show ?thesis by (auto simp: def fail_def)
  next
    fix a1 w1
    assume i1: "init_string_array env (length ns) a w = ((RMW_RET_OK, a1), w1)" "length (sa_data a1) = length ns"
      "heap w1 = heap w"
    show ?thesis
    proof (rule init_string_array_cases [OF env, of "length ns" b w1])
      fix r w2 assume "init_string_array env (length ns) b w1 = ((r, b), w2)" "r \<noteq> RMW_RET_OK" "heap w2 = heap w1"
        "\<not> memory_granted env"
      with z cn i1 show ?thesis by (auto simp: def fail_def)
    next
      fix b1 w2
      assume i2: "init_string_array env (length ns) b w1 = ((RMW_RET_OK, b1), w2)" "length (sa_data b1) = length ns"
        "heap w2 = heap w1"
      obtain r a2 b2 w3 where f: "fill_node_arrays env 0 ns a1 b1 w2 = ((r, a2, b2), w3)"
        by (metis prod.collapse)
      from fill_node_arrays_result [OF f] fill_node_arrays_granted [of env 0 ns a1 b1 w2] i1 i2 z cn f
      show ?thesis by (auto simp: def)
    qed
  qed
qed

text \<open>C27. \<open>rmw_get_node_names\<close> with a node of this implementation and zeroed arrays returns, when rcutils reports no
  failure as success. If iceoryx2 fails to list the nodes, it returns \<open>RMW_RET_ERROR\<close> and nothing else happens: the
  arrays stay zeroed and there is no message. Otherwise, on success, the two arrays list, in parallel and strictly
  ordered by namespace and name, exactly the nodes
  whose iceoryx2 instances are alive and named by the RMW's scheme, each once; a failure has a message, and there is
  none when all requests for memory are granted. No handle or object of the RMW changes.\<close>
theorem node_names_query:
  fixes w :: "('i, 'm) world"
  assumes "failures_are_errors env"
    and "heap w n = Some (NodeHandle h)" and "n \<noteq> nullptr" and "rn_identifier h = Iox2Ident"
    and "sa_zero a" and "sa_zero b"
  shows "\<exists>r a' b' w'. rmw_get_node_names api env n (Some a) (Some b) w = Some ((r, Some a', Some b'), w') \<and>
    (case node_list api (iox w) of
       Inl _ \<Rightarrow> r = RMW_RET_ERROR \<and> a' = a \<and> b' = b \<and> w' = w
     | Inr nodes \<Rightarrow>
         heap w' = heap w \<and> (memory_granted env \<longrightarrow> r = RMW_RET_OK) \<and>
         (if r = RMW_RET_OK
          then \<exists>ns. sorted_wrt (<) ns \<and> set ns = {x. \<exists>node \<in> set nodes. alive_name node = Some x} \<and>
            sa_data a' = map (Some \<circ> node_nm) ns \<and> sa_data b' = map (Some \<circ> node_ns) ns
          else errmsg w' \<noteq> None))"
proof (cases "node_list api (iox w)")
  case (Inl e)
  have "load as_node n w = Some h" using assms(2) by (simp add: load_def)
  with assms(3-6) Inl show ?thesis by (simp add: rmw_get_node_names_def ensure_ok collect_node_names_def)
next
  case (Inr nodes)
  from node_names_copied [OF assms(1-4) Inr assms(5,6) refl] obtain r a' b' w' where
    r: "rmw_get_node_names api env n (Some a) (Some b) w = Some ((r, Some a', Some b'), w')" "heap w' = heap w"
      "memory_granted env \<longrightarrow> r = RMW_RET_OK"
      "r = RMW_RET_OK \<and> sa_data a' = map (Some \<circ> node_nm) (fold collect_node nodes []) \<and>
         sa_data b' = map (Some \<circ> node_ns) (fold collect_node nodes []) \<or>
       r \<noteq> RMW_RET_OK \<and> errmsg w' \<noteq> None"
    by blast
  have "sorted_wrt (<) (fold collect_node nodes [])"
    "set (fold collect_node nodes []) = {x. \<exists>node \<in> set nodes. alive_name node = Some x}"
    using fold_collect_node [of "[]" nodes] by simp_all
  with r Inr show ?thesis by auto
qed

text \<open>One of the three instances the middleware lists is a node of the RMW.\<close>
theorem node_names_query_witness:
  "\<exists>a' b' w'. rmw_get_node_names sim_api sim_env 6 (Some \<lparr>sa_data = [], sa_allocator_null = True\<rparr>)
      (Some \<lparr>sa_data = [], sa_allocator_null = True\<rparr>) sim_world = Some ((RMW_RET_OK, Some a', Some b'), w') \<and>
    heap w' = heap sim_world \<and>
    (\<exists>ns. sorted_wrt (<) ns \<and>
       set ns = {x. \<exists>node \<in> {NodeAlive (Some ''ros2://context/0/nodes/demo/talker''), NodeNotAlive,
                             NodeAlive (Some ''other'')}. alive_name node = Some x} \<and>
       sa_data a' = map (Some \<circ> node_nm) ns \<and> sa_data b' = map (Some \<circ> node_ns) ns)"
proof -
  let ?z = "\<lparr>sa_data = [], sa_allocator_null = True\<rparr>"
  have "failures_are_errors sim_env" by (simp add: failures_are_errors_def sim_env_def)
  moreover have "heap sim_world 6 = Some (NodeHandle \<lparr>rn_identifier = Iox2Ident, rn_data = 8, rn_name = 10,
      rn_namespace = 12, rn_context = 2\<rparr>)" by (simp add: sim_world_def)
  moreover have l: "node_list sim_api (iox sim_world) = Inr [NodeAlive (Some ''ros2://context/0/nodes/demo/talker''),
      NodeNotAlive, NodeAlive (Some ''other'')]" by (simp add: sim_api_def)
  moreover have "memory_granted sim_env" by (simp add: memory_granted_def sim_env_def)
  moreover have "sa_zero ?z" by (simp add: sa_zero_def)
  ultimately show ?thesis
    using node_names_query [of sim_env sim_world 6 _ ?z ?z sim_api] by fastforce
qed

text \<open>A node the RMW created with a valid name is among the collected nodes, under its own name and
  namespace, whatever else iceoryx2 lists.\<close>
lemma created_node_is_collected:
  assumes "name \<noteq> []" and "CHR ''/'' \<notin> set name"
    and "node_list api i = Inr nodes" and "NodeAlive (Some (names_node ctx name ns)) \<in> set nodes"
  shows "NodeName (case ns of Some n \<Rightarrow> n | None \<Rightarrow> []) name \<in> set (snd (collect_node_names api i))"
proof -
  have "alive_name (NodeAlive (Some (names_node ctx name ns))) =
      Some (NodeName (case ns of Some n \<Rightarrow> n | None \<Rightarrow> []) name)"
    using assms(1,2) by (simp add: alive_name_def parse_names_node)
  with assms(3,4) fold_collect_node [of "[]" nodes] show ?thesis
    by (auto simp: collect_node_names_def)
qed

text \<open>The node \<open>talker\<close> of context 0 is listed.\<close>
lemma created_node_is_collected_witness:
  "NodeName [] ''talker'' \<in> set (snd (collect_node_names
     (sim_api\<lparr>node_list := (\<lambda>i. Inr [NodeNotAlive, NodeAlive (Some (names_node 0 ''talker'' None))])\<rparr>) sim_start))"
  using created_node_is_collected [of "''talker''"
      "sim_api\<lparr>node_list := (\<lambda>i. Inr [NodeNotAlive, NodeAlive (Some (names_node 0 ''talker'' None))])\<rparr>" sim_start
      "[NodeNotAlive, NodeAlive (Some (names_node 0 ''talker'' None))]" 0 None] by simp

text \<open>Collecting topics terminates the process exactly when a service that the predicate selects has
  a name outside the topic scheme; otherwise the result holds, strictly ordered, each topic of a
  selected service once, with an empty type.\<close>
lemma topics_collected:
  assumes "service_list api i = Inr services"
  shows "case collect_topic_names_and_types api predicate i of
      None \<Rightarrow> \<exists>s \<in> set services. predicate s \<and> (\<nexists>t. t \<noteq> [] \<and> static_name s = names_topic t)
    | Some (r, topics) \<Rightarrow> r = RMW_RET_OK \<and> sorted_wrt (<) topics \<and>
        set topics = {TopicDetails t [] |t. t \<noteq> [] \<and> (\<exists>s \<in> set services. predicate s \<and> static_name s = names_topic t)}"
proof -
  have scheme: "parse_topic_name s = Some t \<longleftrightarrow> t \<noteq> [] \<and> s = names_topic t" for s t
    by (rule parse_topic_name_iff)
  show ?thesis
  proof (cases "collect_topics predicate services []")
    case None
    then obtain s where "s \<in> set services" "predicate s" "parse_topic_name (static_name s) = None"
      by (auto simp: collect_topics_None)
    moreover from this have "\<nexists>t. t \<noteq> [] \<and> static_name s = names_topic t" using scheme by (metis option.distinct(1))
    ultimately show ?thesis using None assms by (auto simp: collect_topic_names_and_types_def)
  next
    case (Some topics)
    from collect_topics_result [OF _ Some] Some assms show ?thesis
      by (auto simp: collect_topic_names_and_types_def scheme)
  qed
qed

text \<open>The middleware's one topic.\<close>
lemma topics_collected_witness:
  "\<exists>r topics. collect_topic_names_and_types sim_api (\<lambda>s. static_pattern s = PublishSubscribe) sim_start = Some (r, topics) \<and>
    r = RMW_RET_OK \<and> set topics = {TopicDetails ''/chatter'' []}"
proof -
  have l: "service_list sim_api sim_start = Inr [\<lparr>static_name = ''ros2://topics/chatter'', static_pattern = PublishSubscribe\<rparr>]"
    by (simp add: sim_api_def)
  have "names_topic t = ''ros2://topics/chatter'' \<longleftrightarrow> t = ''/chatter''" for t
    by (simp add: names_topic_def)
  with topics_collected [OF l, of "\<lambda>s. static_pattern s = PublishSubscribe"] show ?thesis
    by (cases "collect_topic_names_and_types sim_api (\<lambda>s. static_pattern s = PublishSubscribe) sim_start")
      (auto simp: eq_commute [of "''ros2://topics/chatter''"])
qed

end
