(* ===== verification/Rmw_Guard_Condition.thy ===== *)
theory Rmw_Guard_Condition
  imports Rmw_Heap
begin

text \<open>
  \<open>rmw/guard_condition.cpp\<close>: creating, destroying and triggering guard conditions through the C
  interface, over the memory of \<open>Rmw_Heap\<close>.
\<close>

definition rmw_create_guard_condition ::
  "'i iox2 \<Rightarrow> 'm ros_env \<Rightarrow> ptr \<Rightarrow> ('i, 'm) world \<Rightarrow> (ptr \<times> ('i, 'm) world) option" where
  "rmw_create_guard_condition api env rmw_context w =
     ensure_not_null rmw_context ''rmw_context'' nullptr w (do {
       ctx \<leftarrow> load as_context rmw_context w;
       ensure_implementation (rc_identifier ctx) ''rmw_context->implementation_identifier'' nullptr w (
       ensure_not_null (rc_impl ctx) ''rmw_context->impl'' nullptr w (
         case rmw_allocate env (\<lambda>g. GuardConditionHandle
                \<lparr>rg_identifier = rmw_get_implementation_identifier, rg_data = g,
                 rg_context = rmw_context\<rparr>) w of
           (rmw_guard_condition, w) \<Rightarrow>
             if rmw_guard_condition = nullptr
             then fail nullptr ''failed to allocate memory for rmw_guard_condition_t'' w
             else
               create_impl env GC_INVARIANT_VIOLATION GuardConditionObj as_guard_condition_impl
                 (GuardCondition_dtor api) (with_context (rc_impl ctx) (GuardCondition_ctor api))
                 (rmw_free rmw_guard_condition)
                 (\<lambda>guard_condition_impl w. do {
                    handle \<leftarrow> load as_guard_condition rmw_guard_condition w;
                    w \<leftarrow> store GuardConditionHandle rmw_guard_condition
                           (handle\<lparr>rg_data := guard_condition_impl\<rparr>) w;
                    Some (rmw_guard_condition, w) })
                 ''failed to allocate memory for GuardCondition'' ''failed to construct GuardCondition'' w)) })"

text \<open>\<open>destruct\<close> at the address of the node's guard condition would destroy an object it does not own.\<close>

definition rmw_destroy_guard_condition ::
  "'i iox2 \<Rightarrow> ptr \<Rightarrow> ('i, 'm) world \<Rightarrow> (rmw_ret \<times> ('i, 'm) world) option" where
  "rmw_destroy_guard_condition api rmw_guard_condition w =
     ensure_not_null rmw_guard_condition ''rmw_guard_condition'' RMW_RET_INVALID_ARGUMENT w (do {
       handle \<leftarrow> load as_guard_condition rmw_guard_condition w;
       ensure_implementation (rg_identifier handle) ''rmw_guard_condition->implementation_identifier''
         RMW_RET_INCORRECT_RMW_IMPLEMENTATION w (do {
           w \<leftarrow> (if rg_data handle \<noteq> nullptr
                 then do {
                   w \<leftarrow> destruct as_guard_condition_impl (GuardCondition_dtor api) (rg_data handle) w;
                   w \<leftarrow> deallocate (rg_data handle) w;
                   store GuardConditionHandle rmw_guard_condition (handle\<lparr>rg_data := nullptr\<rparr>) w }
                 else Some w);
           w \<leftarrow> rmw_free rmw_guard_condition w;
           Some (RMW_RET_OK, w) }) })"

definition rmw_trigger_guard_condition ::
  "'i iox2 \<Rightarrow> ptr \<Rightarrow> ('i, 'm) world \<Rightarrow> (rmw_ret \<times> ('i, 'm) world) option" where
  "rmw_trigger_guard_condition api rmw_guard_condition w =
     ensure_not_null rmw_guard_condition ''rmw_guard_condition'' RMW_RET_INVALID_ARGUMENT w (do {
       handle \<leftarrow> load as_guard_condition rmw_guard_condition w;
       ensure_implementation (rg_identifier handle) ''rmw_guard_condition->implementation_identifier''
         RMW_RET_INCORRECT_RMW_IMPLEMENTATION w (
           case unsafe_cast (rg_data handle) w of
             (Inl _, w) \<Rightarrow> Some (RMW_RET_OK, w)
           | (Inr p, w) \<Rightarrow> do {
               g \<leftarrow> load_guard_condition p w;
               (result, w) \<leftarrow> GuardCondition_trigger api g w;
               case result of
                 Inl _ \<Rightarrow> fail RMW_RET_ERROR ''failed to trigger guard condition'' w
               | Inr _ \<Rightarrow> Some (RMW_RET_OK, w) }) })"

section \<open>Creation\<close>

text \<open>A context handle of this implementation that is initialised and whose object is complete.\<close>

definition context_ready :: "ptr \<Rightarrow> ptr \<Rightarrow> rmw_context_impl \<Rightarrow> ('i, 'm) world \<Rightarrow> bool" where
  "context_ready rmw_context c ctx w \<longleftrightarrow>
     (\<exists>h. heap w rmw_context = Some (ContextHandle h) \<and> rc_identifier h = Iox2Ident \<and> rc_impl h = c) \<and>
     rmw_context \<noteq> nullptr \<and> c \<noteq> nullptr \<and> heap w c = Some (ContextObj ctx) \<and> context_wf ctx"

lemma GuardCondition_ctor_frame:
  "GuardCondition_ctor api (c, w) = Some (r, c', w') \<Longrightarrow> sys.more w' = sys.more w"
  by (auto simp: GuardCondition_ctor_def generate_guard_condition_id_def Let_def dest!: call_more
      split: Option.bind_splits sum.splits prod.splits)

lemma with_context_guard_condition:
  fixes w :: "('i, 'm) world"
  assumes "with_context c (GuardCondition_ctor api) w = Some ((g, e), w1)"
    and "heap w c = Some (ContextObj ctx)"
  shows "heap w1 = (heap w)(c \<mapsto> ContextObj
           (ctx\<lparr>ctx_guard_condition_counter := ctx_guard_condition_counter ctx + 1\<rparr>))"
    and "next_ptr w1 = next_ptr w"
    and "gc_trigger_id g = ctx_guard_condition_counter ctx"
    and "gc_service_name g = names_guard_condition (ctx_id ctx) (ctx_guard_condition_counter ctx)"
proof -
  from assms obtain ctx' w' where r: "GuardCondition_ctor api (ctx, w) = Some ((g, e), ctx', w')"
    and s: "store ContextObj c ctx' w' = Some w1"
    by (auto simp: with_context_def load_def split: Option.bind_splits)
  have "heap w' = heap w" "next_ptr w' = next_ptr w"
    using world_more [OF GuardCondition_ctor_frame [OF r]] by simp_all
  with s GuardCondition_ctor_context [OF r]
  show "heap w1 = (heap w)(c \<mapsto> ContextObj
          (ctx\<lparr>ctx_guard_condition_counter := ctx_guard_condition_counter ctx + 1\<rparr>))"
    and "next_ptr w1 = next_ptr w"
    and "gc_trigger_id g = ctx_guard_condition_counter ctx"
    and "gc_service_name g = names_guard_condition (ctx_id ctx) (ctx_guard_condition_counter ctx)"
    by (auto simp: store_def split: option.splits)
qed

text \<open>
  Creating a guard condition: null with the memory as it was, up to the id that was used up, and an
  error message; or a new handle and a new complete object, named after the context's next id.
\<close>

definition next_context :: "rmw_context_impl \<Rightarrow> rmw_context_impl" where
  "next_context ctx = ctx\<lparr>ctx_guard_condition_counter := ctx_guard_condition_counter ctx + 1\<rparr>"

lemma rmw_create_guard_condition_simp:
  fixes w :: "('i, 'm) world"
  assumes "context_ready rmw_context c ctx w"
  shows "rmw_create_guard_condition api env rmw_context w =
    (case rmw_allocate env (\<lambda>g. GuardConditionHandle \<lparr>rg_identifier = Iox2Ident, rg_data = g, rg_context = rmw_context\<rparr>) w of
       (p, w) \<Rightarrow>
         if p = nullptr then fail nullptr ''failed to allocate memory for rmw_guard_condition_t'' w
         else create_impl env GC_INVARIANT_VIOLATION GuardConditionObj as_guard_condition_impl (GuardCondition_dtor api)
           (with_context c (GuardCondition_ctor api)) (rmw_free p)
           (handle_finish GuardConditionHandle as_guard_condition (\<lambda>q h. h\<lparr>rg_data := q\<rparr>) p)
           ''failed to allocate memory for GuardCondition'' ''failed to construct GuardCondition'' w)"
  unfolding handle_finish_fun using assms
  by (auto simp: rmw_create_guard_condition_def context_ready_def ensure_ok load_def
      rmw_get_implementation_identifier_def)

lemma create_guard_condition_cases:
  fixes w :: "('i, 'm) world"
  assumes "world_wf w" and ctx: "context_ready rmw_context c ctx w"
  obtains w' ctx' where "rmw_create_guard_condition api env rmw_context w = Some (nullptr, w')"
      "errmsg w' \<noteq> None" "heap w' = (heap w)(c \<mapsto> ContextObj ctx')" "ctx' = ctx \<or> ctx' = next_context ctx"
      "world_wf w'"
  | p q g w' where "rmw_create_guard_condition api env rmw_context w = Some (p, w')"
      "p \<noteq> nullptr" "q \<noteq> nullptr" "even q" "heap w p = None" "heap w q = None" "p \<noteq> q"
      "heap w' = (heap w)(c \<mapsto> ContextObj (next_context ctx), q \<mapsto> GuardConditionObj g,
         p \<mapsto> GuardConditionHandle \<lparr>rg_identifier = Iox2Ident, rg_data = q, rg_context = rmw_context\<rparr>)"
      "guard_condition_wf g" "gc_trigger_id g = ctx_guard_condition_counter ctx"
      "gc_service_name g = names_guard_condition (ctx_id ctx) (ctx_guard_condition_counter ctx)"
      "world_wf w'"
proof -
  from ctx have c: "heap w c = Some (ContextObj ctx)" "context_wf ctx" by (auto simp: context_ready_def)
  let ?H = "\<lambda>q. \<lparr>rg_identifier = Iox2Ident, rg_data = q, rg_context = rmw_context\<rparr>"
  let ?G = "\<lambda>g. GuardConditionHandle (?H g)"
  note def = rmw_create_guard_condition_simp [OF ctx, of api env]
  show thesis
  proof (rule rmw_allocate_cases [OF assms(1), of env ?G])
    fix w1 assume "rmw_allocate env ?G w = (nullptr, w1)" "heap w1 = heap w" "world_wf w1"
    then show thesis
      by (intro that(1) [of "chain ''failed to allocate memory for rmw_guard_condition_t'' w1" ctx])
        (simp_all add: def fail_def c fun_upd_idem)
  next
    fix p g w1
    assume p: "rmw_allocate env ?G w = (p, w1)" "p \<noteq> nullptr" "even p" "heap w p = None"
      "heap w1 = (heap w)(p \<mapsto> ?G g)" "world_wf w1"
    have cp: "c \<noteq> p" and hp: "heap w1 p = Some (?G g)" and c1: "heap w1 c = Some (ContextObj ctx)" using c(1) p(4,5) by auto
    let ?R = "\<lambda>x g. x = Some (ContextObj (next_context ctx)) \<and> gc_trigger_id g = ctx_guard_condition_counter ctx \<and>
      gc_service_name g = names_guard_condition (ctx_id ctx) (ctx_guard_condition_counter ctx)"
    show thesis
    proof (rule guard_obj.create_handle_cases [OF guard_handle.object_kind_axioms p(6) hp cp, where R = ?R
          and good = guard_condition_wf and ctor = "with_context c (GuardCondition_ctor api)" and undo = "rmw_free p"
          and h = "heap w" and env = env and invariant = GC_INVARIANT_VIOLATION and dtor = "GuardCondition_dtor api"
          and set_data = "\<lambda>q h. h\<lparr>rg_data := q\<rparr>"
          and ?m1.0 = "''failed to allocate memory for GuardCondition''" and ?m2.0 = "''failed to construct GuardCondition''"],
        goal_cases)
      case (1 w2)
      then show ?case
        by (intro with_context_ok [where ctx = ctx])
          (use c c1 in \<open>auto simp: context_obj.load_iff intro: GuardCondition_ctor_ok
             dest!: world_more [OF GuardCondition_ctor_frame]\<close>)
    next
      case (2 w2 g e w3)
      with with_context_guard_condition [OF 2(2)] c1 show ?case by (auto simp: next_context_def)
    next
      case 3
      show ?case using c1 by simp
    next
      case (4 w2 x)
      then show ?case using p(4,5) cp hp by (auto simp: rmw_free_simp fun_upd_idem fun_upd_twist intro!: world_wf_sub)
    next
      case (5 x w')
      with c1 obtain ctx' where "x = Some (ContextObj ctx')" "ctx' = ctx \<or> ctx' = next_context ctx" by auto
      with 5 p show ?case by (intro that(1) [of w' ctx']) (simp_all add: def)
    next
      case (6 q obj x w')
      have "heap w q = None" using 6(4) p(5) by (simp split: if_splits)
      with 6 p cp show ?case by (intro that(2) [of p w' q obj]) (auto simp: def fun_eq_iff)
    qed
  qed
qed

section \<open>Destruction and triggering\<close>

lemma destroy_guard_condition:
  fixes w :: "('i, 'm) world"
  assumes p: "heap w p = Some (GuardConditionHandle h)" "p \<noteq> nullptr" "rg_identifier h = Iox2Ident"
    and q: "heap w (rg_data h) = Some (GuardConditionObj g)" "rg_data h \<noteq> nullptr"
  shows "\<exists>w'. rmw_destroy_guard_condition api p w = Some (RMW_RET_OK, w') \<and>
    heap w' = (heap w)(p := None, rg_data h := None) \<and>
    iox w' = GuardCondition_dtor api g (iox w) \<and> errmsg w' = errmsg w"
proof -
  have "rg_data h \<noteq> p" using p(1) q(1) by auto
  with assms show ?thesis
    by (simp add: rmw_destroy_guard_condition_def ensure_ok load_def destruct_def deallocate_def
        rmw_free_def store_def run_iox_def fun_upd_twist)
qed

lemma trigger_guard_condition:
  fixes w :: "('i, 'm) world"
  assumes p: "heap w p = Some (GuardConditionHandle h)" "p \<noteq> nullptr" "rg_identifier h = Iox2Ident"
    and q: "load_guard_condition (rg_data h) w = Some g" "rg_data h \<noteq> nullptr"
    and n: "gc_notifier g = Some n"
    and r: "notify api n (Some (unat (gc_trigger_id g))) (iox w) = (r, i)"
  shows "\<exists>w'. rmw_trigger_guard_condition api p w =
      Some (case r of Inr _ \<Rightarrow> RMW_RET_OK | Inl _ \<Rightarrow> RMW_RET_ERROR, w') \<and>
    heap w' = heap w \<and> iox w' = i \<and> (case r of Inr _ \<Rightarrow> errmsg w' = errmsg w | Inl _ \<Rightarrow> errmsg w' \<noteq> None)"
  using assms
  by (cases r)
    (simp_all add: rmw_trigger_guard_condition_def ensure_ok load_def unsafe_cast_def
      GuardCondition_trigger_def call_def fail_def)

section \<open>Properties\<close>

lemma sim_context_ready: "context_ready 2 4 sim_context sim_world"
  by (simp add: context_ready_def sim_world_def)

text \<open>\<open>rmw_create_guard_condition\<close> on an initialised context returns. Null comes with an error message
  and leaves nothing behind, whichever step failed: every allocation is undone and at most the
  context's next id is used up. Otherwise the result is a new handle of this implementation with a
  new, complete object, named after the context and its next id, and nothing else changed.\<close>
lemma guard_condition_creation:
  fixes w :: "('i, 'm) world"
  assumes "world_wf w" and "context_ready rmw_context c ctx w"
  shows "\<exists>p w'. rmw_create_guard_condition api env rmw_context w = Some (p, w') \<and> world_wf w' \<and>
    (if p = nullptr
     then errmsg w' \<noteq> None \<and> (\<exists>ctx'. heap w' = (heap w)(c \<mapsto> ContextObj ctx') \<and> (ctx' = ctx \<or> ctx' = next_context ctx))
     else \<exists>q g. heap w p = None \<and> heap w q = None \<and> p \<noteq> q \<and> guard_condition_wf g \<and>
       gc_trigger_id g = ctx_guard_condition_counter ctx \<and>
       gc_service_name g = names_guard_condition (ctx_id ctx) (ctx_guard_condition_counter ctx) \<and>
       heap w' = (heap w)(c \<mapsto> ContextObj (next_context ctx), q \<mapsto> GuardConditionObj g,
         p \<mapsto> GuardConditionHandle \<lparr>rg_identifier = Iox2Ident, rg_data = q, rg_context = rmw_context\<rparr>))"
  by (rule create_guard_condition_cases [OF assms, of api env]) fastforce+

text \<open>In a process with a context.\<close>
lemma guard_condition_creation_witness:
  "\<exists>p w'. rmw_create_guard_condition sim_api sim_env 2 sim_world = Some (p, w') \<and> world_wf w'"
  using guard_condition_creation [OF sim_world_wf sim_context_ready, of sim_api sim_env] by blast

text \<open>C21. A guard condition that was created can be destroyed, after any change to the iceoryx2 runtime;
  the memory is then what it was before the creation, but for the id the context used up, and the
  notifier's port is closed.\<close>
theorem guard_condition_create_destroy:
  fixes w :: "('i, 'm) world"
  assumes "world_wf w" and "context_ready rmw_context c ctx w"
    and "rmw_create_guard_condition api env rmw_context w = Some (p, w1)" and "p \<noteq> nullptr"
    and "heap w2 = heap w1"
  shows "\<exists>g w3. rmw_destroy_guard_condition api p w2 = Some (RMW_RET_OK, w3) \<and>
    heap w3 = (heap w)(c \<mapsto> ContextObj (next_context ctx)) \<and> guard_condition_wf g \<and>
    iox w3 = GuardCondition_dtor api g (iox w2)"
proof (rule create_guard_condition_cases [OF assms(1,2), of api env])
  fix w' ctx' assume "rmw_create_guard_condition api env rmw_context w = Some (nullptr, w')"
  with assms(3,4) show ?thesis by simp
next
  fix p' q g w'
  assume r: "rmw_create_guard_condition api env rmw_context w = Some (p', w')" "p' \<noteq> nullptr" "q \<noteq> nullptr"
    "heap w p' = None" "heap w q = None" "p' \<noteq> q" "guard_condition_wf g"
    "heap w' = (heap w)(c \<mapsto> ContextObj (next_context ctx), q \<mapsto> GuardConditionObj g,
       p' \<mapsto> GuardConditionHandle \<lparr>rg_identifier = Iox2Ident, rg_data = q, rg_context = rmw_context\<rparr>)"
  let ?h = "\<lparr>rg_identifier = Iox2Ident, rg_data = q, rg_context = rmw_context\<rparr>"
  have c: "c \<noteq> p'" "c \<noteq> q" using assms(2) r by (auto simp: context_ready_def)
  have "heap w2 p' = Some (GuardConditionHandle ?h)" "heap w2 (rg_data ?h) = Some (GuardConditionObj g)"
    using assms(3,5) r by auto
  from destroy_guard_condition [OF this(1) r(2) _ this(2)] r(3) obtain w3 where
    d: "rmw_destroy_guard_condition api p' w2 = Some (RMW_RET_OK, w3)"
      "heap w3 = (heap w2)(p' := None, q := None)" "iox w3 = GuardCondition_dtor api g (iox w2)"
    by auto
  have "heap w3 = (heap w)(c \<mapsto> ContextObj (next_context ctx))"
    unfolding d(2) using assms(3,5) r c by (auto simp: fun_eq_iff)
  with d assms(3) r show ?thesis by auto
qed

text \<open>Creation in a process with a context, then destruction.\<close>
theorem guard_condition_create_destroy_witness:
  "\<exists>p w1 g w3. rmw_create_guard_condition sim_api sim_env 2 sim_world = Some (p, w1) \<and>
    rmw_destroy_guard_condition sim_api p w1 = Some (RMW_RET_OK, w3) \<and>
    heap w3 = (heap sim_world)(4 \<mapsto> ContextObj (next_context sim_context)) \<and> guard_condition_wf g"
proof -
  have "\<exists>w1. rmw_create_guard_condition sim_api sim_env 2 sim_world = Some (34, w1)"
    by (simp add: rmw_create_guard_condition_def ensure_not_null_def ensure_implementation_def load_def
        sim_world_def rmw_allocate_def create_impl_def allocate_def create_in_place_at_def with_context_def
        GuardCondition_ctor_def generate_guard_condition_id_def sim_context_def sim_handle_def Context_iox2_def
        call_def sim_api_def sim_env_def store_def rmw_get_implementation_identifier_def)
  then obtain w1 where w1: "rmw_create_guard_condition sim_api sim_env 2 sim_world = Some (34, w1)" by blast
  from guard_condition_create_destroy [OF sim_world_wf sim_context_ready w1 _ refl] w1 show ?thesis by auto
qed

text \<open>Triggering a guard condition, its own or a node's graph guard condition, notifies its event service
  once, with its id as the event; the return code says whether iceoryx2 accepted it, an error has a
  message, and no object changes.\<close>
lemma guard_condition_trigger:
  fixes w :: "('i, 'm) world"
  assumes "heap w p = Some (GuardConditionHandle h)" and "p \<noteq> nullptr" and "rg_identifier h = Iox2Ident"
    and "load_guard_condition (rg_data h) w = Some g" and "rg_data h \<noteq> nullptr" and "gc_notifier g = Some n"
    and "notify api n (Some (unat (gc_trigger_id g))) (iox w) = (r, i)"
  shows "\<exists>w'. rmw_trigger_guard_condition api p w =
      Some (case r of Inr _ \<Rightarrow> RMW_RET_OK | Inl _ \<Rightarrow> RMW_RET_ERROR, w') \<and>
    heap w' = heap w \<and> iox w' = i \<and> (case r of Inr _ \<Rightarrow> errmsg w' = errmsg w | Inl _ \<Rightarrow> errmsg w' \<noteq> None)"
  by (rule trigger_guard_condition [OF assms])

text \<open>The guard condition at 18.\<close>
lemma guard_condition_trigger_witness:
  "\<exists>w'. rmw_trigger_guard_condition sim_api 18 sim_world = Some (RMW_RET_OK, w')"
proof -
  have "heap sim_world 18 = Some (GuardConditionHandle \<lparr>rg_identifier = Iox2Ident, rg_data = 20, rg_context = 2\<rparr>)"
    and "load_guard_condition 20 sim_world = Some sim_guard"
    by (simp_all add: sim_world_def load_guard_condition_def load_def)
  from guard_condition_trigger [OF this(1) _ _ _ _ _, of sim_guard 4 sim_api "Inr 1" sim_start] this(2)
  show ?thesis by (auto simp: sim_guard_def sim_api_def)
qed

end
