(* ===== verification/Rmw_Node.thy ===== *)
theory Rmw_Node
  imports Rmw_Guard_Condition
begin

text \<open>
  \<open>rmw/node.cpp\<close>: creating and destroying nodes through the C interface, and the handle for a
  node's graph guard condition. \<open>cleanup_node\<close> releases what a handle refers to; the failures of the
  creation rely on it with a handle that is only partly filled in, so they rely on an allocator that
  zeroes the memory.
\<close>

definition cleanup_node :: "'i iox2 \<Rightarrow> ptr \<Rightarrow> ('i, 'm) world \<Rightarrow> ('i, 'm) world option" where
  "cleanup_node api rmw_node w =
     (if rmw_node \<noteq> nullptr
      then do {
        handle \<leftarrow> load as_node rmw_node w;
        w \<leftarrow> deallocate (rn_name handle) w;
        w \<leftarrow> deallocate (rn_namespace handle) w;
        w \<leftarrow> store NodeHandle rmw_node (handle\<lparr>rn_name := nullptr, rn_namespace := nullptr\<rparr>) w;
        w \<leftarrow> (if rn_data handle \<noteq> nullptr
              then do {
                w \<leftarrow> destruct as_node_impl (Node_dtor api) (rn_data handle) w;
                deallocate (rn_data handle) w }
              else Some w);
        rmw_free rmw_node w }
      else Some w)"

definition rmw_create_node ::
  "'i iox2 \<Rightarrow> 'm ros_env \<Rightarrow> ptr \<Rightarrow> ptr \<Rightarrow> ptr \<Rightarrow> ('i, 'm) world \<Rightarrow> (ptr \<times> ('i, 'm) world) option" where
  "rmw_create_node api env rmw_context name namespace' w =
     ensure_not_null rmw_context ''rmw_context'' nullptr w (
     ensure_not_null name ''name'' nullptr w (do {
       name_str \<leftarrow> load as_string name w;
       ensure_valid (validate_node_name env) ''invalid node name: '' name_str nullptr w (
       ensure_not_null namespace' ''namespace_'' nullptr w (do {
         namespace_str \<leftarrow> load as_string namespace' w;
         ensure_valid (validate_namespace env) ''invalid node namespace: '' namespace_str nullptr w (do {
           ctx \<leftarrow> load as_context rmw_context w;
           if rc_impl ctx = nullptr then fail nullptr ''rmw_context must be initialized'' w
           else
             ensure_implementation (rc_identifier ctx) ''rmw_context->implementation_identifier'' nullptr w (
             case rmw_allocate env (\<lambda>g. NodeHandle
                    \<lparr>rn_identifier = rmw_get_implementation_identifier, rn_data = g, rn_name = g,
                     rn_namespace = g, rn_context = rmw_context\<rparr>) w of
               (rmw_node, w) \<Rightarrow>
                 if rmw_node = nullptr then fail nullptr ''failed to allocate memory for node handle'' w
                 else
                   case allocate_copy env name_str w of
                     (Inl _, w) \<Rightarrow> do {
                       w \<leftarrow> cleanup_node api rmw_node w;
                       fail nullptr ''failed to allocate memory for node name'' w }
                   | (Inr name_ptr, w) \<Rightarrow> do {
                       handle \<leftarrow> load as_node rmw_node w;
                       w \<leftarrow> store NodeHandle rmw_node (handle\<lparr>rn_name := name_ptr\<rparr>) w;
                       case allocate_copy env namespace_str w of
                         (Inl _, w) \<Rightarrow> do {
                           w \<leftarrow> cleanup_node api rmw_node w;
                           fail nullptr ''failed to allocate memory for node namespace'' w }
                       | (Inr namespace_ptr, w) \<Rightarrow> do {
                           handle \<leftarrow> load as_node rmw_node w;
                           w \<leftarrow> store NodeHandle rmw_node (handle\<lparr>rn_namespace := namespace_ptr\<rparr>) w;
                           name_copy \<leftarrow> load as_string name_ptr w;
                           namespace_copy \<leftarrow> load as_string namespace_ptr w;
                           create_impl env Node_INVARIANT_VIOLATION NodeObj as_node_impl (Node_dtor api)
                             (with_context (rc_impl ctx) (Node_ctor api name_copy (Some namespace_copy)))
                             (cleanup_node api rmw_node)
                             (\<lambda>node_impl w. do {
                                handle \<leftarrow> load as_node rmw_node w;
                                w \<leftarrow> store NodeHandle rmw_node (handle\<lparr>rn_data := node_impl\<rparr>) w;
                                Some (rmw_node, w) })
                             ''failed to allocate memory for Node'' ''failed to construct Node'' w } }) }) })) }))"

definition rmw_destroy_node ::
  "'i iox2 \<Rightarrow> ptr \<Rightarrow> ('i, 'm) world \<Rightarrow> (rmw_ret \<times> ('i, 'm) world) option" where
  "rmw_destroy_node api rmw_node w =
     ensure_not_null rmw_node ''rmw_node'' RMW_RET_INVALID_ARGUMENT w (do {
       handle \<leftarrow> load as_node rmw_node w;
       ensure_implementation (rn_identifier handle) ''rmw_node->implementation_identifier''
         RMW_RET_INCORRECT_RMW_IMPLEMENTATION w (do {
           w \<leftarrow> cleanup_node api rmw_node w;
           Some (RMW_RET_OK, w) }) })"

text \<open>The handle is new in every call, and stays allocated when the node has no object.\<close>

definition rmw_node_get_graph_guard_condition ::
  "'m ros_env \<Rightarrow> ptr \<Rightarrow> ('i, 'm) world \<Rightarrow> (ptr \<times> ('i, 'm) world) option" where
  "rmw_node_get_graph_guard_condition env rmw_node w =
     ensure_not_null rmw_node ''rmw_node'' nullptr w (do {
       handle \<leftarrow> load as_node rmw_node w;
       ensure_not_null (rn_context handle) ''rmw_node->context'' nullptr w (do {
         ctx \<leftarrow> load as_context (rn_context handle) w;
         ensure_not_null (rc_impl ctx) ''rmw_node->context->impl'' nullptr w (
         ensure_implementation (rn_identifier handle) ''rmw_node->implementation_identifier'' nullptr w (
           case rmw_allocate env (\<lambda>g. GuardConditionHandle
                  \<lparr>rg_identifier = rmw_get_implementation_identifier, rg_data = g,
                   rg_context = rn_context handle\<rparr>) w of
             (rmw_guard_condition, w) \<Rightarrow>
               if rmw_guard_condition = nullptr
               then fail nullptr ''failed to allocate memory for rmw_guard_condition_t'' w
               else case unsafe_cast (rn_data handle) w of
                 (Inl _, w) \<Rightarrow> fail nullptr ''failed to retrieve Node'' w
               | (Inr node_impl, w) \<Rightarrow> do {
                   n \<leftarrow> load as_node_impl node_impl w;
                   _ \<leftarrow> Node_graph_guard_condition n;
                   guard \<leftarrow> load as_guard_condition rmw_guard_condition w;
                   w \<leftarrow> store GuardConditionHandle rmw_guard_condition
                          (guard\<lparr>rg_data := graph_guard_condition_address node_impl\<rparr>) w;
                   Some (rmw_guard_condition, w) })) }) })"

section \<open>Cleaning up\<close>

lemma cleanup_node:
  fixes w :: "('i, 'm) world"
  assumes wf: "world_wf w" and p: "heap w p = Some (NodeHandle n)"
    and nm: "rn_name n = nullptr \<or> heap w (rn_name n) = Some (CString s)"
    and ns: "rn_namespace n = nullptr \<or> heap w (rn_namespace n) = Some (CString t)"
    and dt: "rn_data n = nullptr \<or> heap w (rn_data n) = Some (NodeObj d)"
    and ne: "rn_name n = rn_namespace n \<Longrightarrow> rn_name n = nullptr"
  shows "\<exists>w'. cleanup_node api p w = Some w' \<and> world_wf w' \<and> errmsg w' = errmsg w \<and>
    heap w' = heap w |` (- {p, rn_name n, rn_namespace n, rn_data n}) \<and>
    iox w' = (if rn_data n = nullptr then iox w else Node_dtor api d (iox w))"
proof -
  have z: "heap w 0 = None" "p \<noteq> 0" using wf p by (auto simp: world_wf_def)
  have d: "rn_name n \<noteq> p" "rn_namespace n \<noteq> p" "rn_data n \<noteq> p"
    "rn_data n \<noteq> nullptr \<Longrightarrow> rn_data n \<noteq> rn_name n \<and> rn_data n \<noteq> rn_namespace n"
    using z p nm ns dt by (auto)
  have "\<exists>w'. cleanup_node api p w = Some w' \<and> errmsg w' = errmsg w \<and> next_ptr w' = next_ptr w \<and>
    heap w' = heap w |` (- {p, rn_name n, rn_namespace n, rn_data n}) \<and>
    iox w' = (if rn_data n = nullptr then iox w else Node_dtor api d (iox w))"
    using z(2) d nm ns dt ne p z(1)
    by (auto simp: cleanup_node_def load_def deallocate_def rmw_free_def store_def destruct_def run_iox_def
        fun_eq_iff restrict_map_def)
  moreover from this have "\<And>w'. dom (heap w |` (- {p, rn_name n, rn_namespace n, rn_data n})) \<subseteq> dom (heap w)"
    by auto
  ultimately show ?thesis using world_wf_dom [OF wf] by metis
qed

section \<open>Creation\<close>

lemma Iceoryx2_ctor_frame: "Iceoryx2_ctor api name w = Some (r, w') \<Longrightarrow> sys.more w' = sys.more w"
  by (auto simp: Iceoryx2_ctor_def Let_def dest!: call_more split: Option.bind_splits sum.splits prod.splits)

lemma Node_ctor_frame:
  "Node_ctor api nm ns (c, w) = Some (r, c', w') \<Longrightarrow> sys.more w' = sys.more w"
  by (auto simp: Node_ctor_def create_in_place_def Let_def dest!: Iceoryx2_ctor_frame GuardCondition_ctor_frame
      split: Option.bind_splits sum.splits prod.splits option.splits)

lemma with_context_node:
  fixes w :: "('i, 'm) world"
  assumes "with_context c (Node_ctor api nm ns) w = Some ((n, e), w1)" and "heap w c = Some (ContextObj ctx)"
  shows "\<exists>ctx'. heap w1 = (heap w)(c \<mapsto> ContextObj ctx') \<and> (ctx' = ctx \<or> ctx' = next_context ctx) \<and>
      nd_name n = nm" and "next_ptr w1 = next_ptr w"
proof -
  from assms obtain ctx' w' where r: "Node_ctor api nm ns (ctx, w) = Some ((n, e), ctx', w')"
    and s: "store ContextObj c ctx' w' = Some w1"
    by (auto simp: with_context_def load_def split: Option.bind_splits)
  have "heap w' = heap w" "next_ptr w' = next_ptr w"
    using world_more [OF Node_ctor_frame [OF r]] by simp_all
  with s Node_ctor_context [OF r]
  show "\<exists>ctx'. heap w1 = (heap w)(c \<mapsto> ContextObj ctx') \<and> (ctx' = ctx \<or> ctx' = next_context ctx) \<and> nd_name n = nm"
    and "next_ptr w1 = next_ptr w"
    by (auto simp: store_def next_context_def split: option.splits)
qed

text \<open>The handle of a node under construction, with its two strings, on top of the memory \<open>h\<close>.\<close>

definition node_handle :: "ptr \<Rightarrow> ptr \<Rightarrow> ptr \<Rightarrow> ptr \<Rightarrow> rmw_node" where
  "node_handle rmw_context a b q =
     \<lparr>rn_identifier = Iox2Ident, rn_data = q, rn_name = a, rn_namespace = b, rn_context = rmw_context\<rparr>"

lemma node_handle_simps [simp]:
  "rn_identifier (node_handle c a b q) = Iox2Ident" "rn_data (node_handle c a b q) = q"
  "rn_name (node_handle c a b q) = a" "rn_namespace (node_handle c a b q) = b"
  "rn_context (node_handle c a b q) = c"
  "(node_handle c a b q)\<lparr>rn_data := q'\<rparr> = node_handle c a b q'"
  "(node_handle c a b q)\<lparr>rn_name := a'\<rparr> = node_handle c a' b q"
  "(node_handle c a b q)\<lparr>rn_namespace := b'\<rparr> = node_handle c a b' q"
  by (simp_all add: node_handle_def)

lemma create_node_tail:
  fixes w w2 :: "('i, 'm) world"
  assumes wf: "world_wf w2" and h: "heap w2 = h(p \<mapsto> NodeHandle (node_handle rmw_context a b nullptr),
      a \<mapsto> CString nm, b \<mapsto> CString ns)"
    and fresh: "h p = None" "h a = None" "h b = None" "p \<noteq> a" "p \<noteq> b" "a \<noteq> b"
    and c: "h c = Some (ContextObj ctx)" "context_wf ctx" and z: "h nullptr = None"
    and step: "step = create_impl env Node_INVARIANT_VIOLATION NodeObj as_node_impl (Node_dtor api)
      (with_context c (Node_ctor api nm (Some ns))) (cleanup_node api p)
      (handle_finish NodeHandle as_node (\<lambda>q h. h\<lparr>rn_data := q\<rparr>) p) m1 m2 w2"
  obtains w' ctx' where "step = Some (nullptr, w')" "errmsg w' \<noteq> None" "world_wf w'"
      "heap w' = h(c \<mapsto> ContextObj ctx')" "ctx' = ctx \<or> ctx' = next_context ctx"
  | q n w' ctx' where "step = Some (p, w')" "world_wf w'" "q \<noteq> nullptr" "even q" "h q = None" "q \<notin> {p, a, b}"
      "heap w' = h(c \<mapsto> ContextObj ctx', p \<mapsto> NodeHandle (node_handle rmw_context a b q),
         a \<mapsto> CString nm, b \<mapsto> CString ns, q \<mapsto> NodeObj n)"
      "ctx' = ctx \<or> ctx' = next_context ctx" "node_wf n" "nd_name n = nm"
proof -
  have cn: "c \<noteq> p" "c \<noteq> a" "c \<noteq> b" "c \<noteq> nullptr" using c fresh z by (auto intro!: gr0I)
  have c2: "heap w2 c = Some (ContextObj ctx)" and hp: "heap w2 p = Some (NodeHandle (node_handle rmw_context a b nullptr))"
    using h c cn fresh by simp_all
  let ?R = "\<lambda>x n. \<exists>ctx'. x = Some (ContextObj ctx') \<and> (ctx' = ctx \<or> ctx' = next_context ctx) \<and> nd_name n = nm"
  show thesis
  proof (rule node_obj.create_handle_cases [OF node.object_kind_axioms wf hp cn(1), where R = ?R and good = node_wf
        and ctor = "with_context c (Node_ctor api nm (Some ns))" and undo = "cleanup_node api p" and h = h and env = env
        and invariant = Node_INVARIANT_VIOLATION and dtor = "Node_dtor api" and ?m1.0 = m1 and ?m2.0 = m2
        and set_data = "\<lambda>q h. h\<lparr>rn_data := q\<rparr>"], goal_cases)
    case (1 w3)
    then show ?case
      by (intro with_context_ok [where ctx = ctx])
        (use c c2 in \<open>auto simp: context_obj.load_iff intro: Node_ctor_ok dest!: world_more [OF Node_ctor_frame]\<close>)
  next
    case (2 w3 n e w4)
    with with_context_node [OF 2(2)] c2 show ?case by fastforce
  next
    case 3
    show ?case using c2 by simp
  next
    case (4 w3 x)
    have "heap w3 p = Some (NodeHandle (node_handle rmw_context a b nullptr))" "heap w3 a = Some (CString nm)"
      "heap w3 b = Some (CString ns)" using 4(2) h fresh cn by auto
    from cleanup_node [OF 4(1) this(1), of nm ns undefined api] this fresh 4(2) h cn z show ?case
      by (auto simp: fun_eq_iff restrict_map_def)
  next
    case (5 x w')
    with c2 obtain ctx' where "x = Some (ContextObj ctx')" "ctx' = ctx \<or> ctx' = next_context ctx" by auto
    with 5 show ?case by (intro that(1) [of w' ctx']) (simp_all add: step)
  next
    case (6 q n x w')
    then obtain ctx' where x: "x = Some (ContextObj ctx')" "ctx' = ctx \<or> ctx' = next_context ctx" "nd_name n = nm" by auto
    have q: "h q = None" "q \<notin> {p, a, b}" using 6(4) h by (auto split: if_splits)
    with 6 x h cn fresh show ?case
      by (intro that(2) [of w' q ctx' n]) (auto simp: step fun_eq_iff)
  qed
qed

text \<open>
  Creating a node: null with the memory as it was, up to at most one id of the context, and an
  error message; or a handle with copies of the two strings and a complete object.
\<close>

definition node_arguments_ok :: "'m ros_env \<Rightarrow> ptr \<Rightarrow> ptr \<Rightarrow> string \<Rightarrow> string \<Rightarrow> ('i, 'm) world \<Rightarrow> bool" where
  "node_arguments_ok env name ns nm nsp w \<longleftrightarrow>
     heap w name = Some (CString nm) \<and> heap w ns = Some (CString nsp) \<and>
     validate_node_name env nm = Inr None \<and> validate_namespace env nsp = Inr None"

text \<open>What is left of the function once its arguments are checked, and once the handle exists.\<close>

definition node_object_step ::
  "'i iox2 \<Rightarrow> 'm ros_env \<Rightarrow> ptr \<Rightarrow> ptr \<Rightarrow> ptr \<Rightarrow> ptr \<Rightarrow> ('i, 'm) world \<Rightarrow> (ptr \<times> ('i, 'm) world) option" where
  "node_object_step api env c p a b w = do {
     name_copy \<leftarrow> load as_string a w;
     namespace_copy \<leftarrow> load as_string b w;
     create_impl env Node_INVARIANT_VIOLATION NodeObj as_node_impl (Node_dtor api)
       (with_context c (Node_ctor api name_copy (Some namespace_copy))) (cleanup_node api p)
       (handle_finish NodeHandle as_node (\<lambda>q h. h\<lparr>rn_data := q\<rparr>) p)
       ''failed to allocate memory for Node'' ''failed to construct Node'' w }"

definition node_namespace_step ::
  "'i iox2 \<Rightarrow> 'm ros_env \<Rightarrow> ptr \<Rightarrow> string \<Rightarrow> ptr \<Rightarrow> ptr \<Rightarrow> ('i, 'm) world \<Rightarrow> (ptr \<times> ('i, 'm) world) option" where
  "node_namespace_step api env c ns p a =
     copy_into env ns NodeHandle as_node (\<lambda>b h. h\<lparr>rn_namespace := b\<rparr>) p (cleanup_node api p)
       ''failed to allocate memory for node namespace'' (node_object_step api env c p a)"

definition node_name_step ::
  "'i iox2 \<Rightarrow> 'm ros_env \<Rightarrow> ptr \<Rightarrow> string \<Rightarrow> string \<Rightarrow> ptr \<Rightarrow> ('i, 'm) world \<Rightarrow> (ptr \<times> ('i, 'm) world) option" where
  "node_name_step api env c nm ns p =
     copy_into env nm NodeHandle as_node (\<lambda>a h. h\<lparr>rn_name := a\<rparr>) p (cleanup_node api p)
       ''failed to allocate memory for node name'' (node_namespace_step api env c ns p)"

lemma rmw_create_node_simp:
  fixes w :: "('i, 'm) world"
  assumes wf: "world_wf w" and env: "zeroing env" and ctx: "context_ready rmw_context c ctx w"
    and args: "node_arguments_ok env name namespace nm ns w"
  shows "rmw_create_node api env rmw_context name namespace w =
    (case rmw_allocate env (\<lambda>_. NodeHandle (node_handle rmw_context nullptr nullptr nullptr)) w of
       (p, w) \<Rightarrow> if p = nullptr then fail nullptr ''failed to allocate memory for node handle'' w
                 else node_name_step api env c nm ns p w)"
proof -
  from ctx obtain h where h: "heap w rmw_context = Some (ContextHandle h)" "rc_identifier h = Iox2Ident"
    "rc_impl h = c" and nn: "rmw_context \<noteq> nullptr" "c \<noteq> nullptr"
    by (auto simp: context_ready_def)
  have nz: "name \<noteq> nullptr" "namespace \<noteq> nullptr"
    using wf args by (auto simp: world_wf_def node_arguments_ok_def)
  have ld: "load as_context rmw_context w = Some h" "load as_string name w = Some nm"
    "load as_string namespace w = Some ns" "validate_node_name env nm = Inr None" "validate_namespace env ns = Inr None"
    using h args by (simp_all add: context_handle.load_iff cstring.load_iff node_arguments_ok_def)
  let ?N = "\<lambda>g. NodeHandle \<lparr>rn_identifier = rmw_get_implementation_identifier, rn_data = g, rn_name = g,
    rn_namespace = g, rn_context = rmw_context\<rparr> :: 'm obj"
  have N: "?N nullptr = NodeHandle (node_handle rmw_context nullptr nullptr nullptr)"
    by (simp add: node_handle_def rmw_get_implementation_identifier_def)
  show ?thesis
    unfolding node_name_step_def node_namespace_step_def node_object_step_def copy_into_def handle_finish_fun rmw_create_node_def ld ensure_ok(1) [OF nn(1)]
      ensure_ok(1) [OF nz(1)] ensure_ok(1) [OF nz(2)] Option.bind.bind_lunit ensure_valid_def sum.case option.case
      ensure_ok(2) [OF h(2)] h(3) if_not_P [OF nn(2)] rmw_allocate_zeroed [OF env, of ?N] N ..
qed

lemma node_steps_undone:
  fixes w :: "('i, 'm) world"
  assumes "world_wf w" and "heap w = h(p \<mapsto> NodeHandle (node_handle rmw_context a nullptr nullptr))"
    and "h p = None" and "h nullptr = None" and "a = nullptr \<or> h a = Some (CString nm)"
  shows "\<exists>w'. cleanup_node api p w = Some w' \<and> world_wf w' \<and> heap w' = h(a := None)"
proof -
  have "0 < p" using assms(1,2) by (simp add: world_wf_def)
  moreover have "a \<noteq> p" using assms(3,5) calculation by auto
  ultimately show ?thesis
    using cleanup_node [OF assms(1), of p "node_handle rmw_context a nullptr nullptr" nm undefined undefined api] assms
    by (auto simp: fun_eq_iff restrict_map_def)
qed

lemma node_namespace_step_cases:
  fixes w2 :: "('i, 'm) world"
  assumes wf: "world_wf w2" and h2: "heap w2 = h(a \<mapsto> CString nm, p \<mapsto> NodeHandle (node_handle rmw_context a nullptr nullptr))"
    and fresh: "h p = None" "h a = None" "a \<noteq> p" and c: "h c = Some (ContextObj ctx)" "context_wf ctx" and z: "h nullptr = None"
  obtains w' ctx' where "node_namespace_step api env c ns p a w2 = Some (nullptr, w')" "errmsg w' \<noteq> None" "world_wf w'"
      "heap w' = h(c \<mapsto> ContextObj ctx')" "ctx' = ctx \<or> ctx' = next_context ctx"
  | b q n w' ctx' where "node_namespace_step api env c ns p a w2 = Some (p, w')" "world_wf w'" "q \<noteq> nullptr" "even q"
      "h b = None" "h q = None" "distinct [p, a, b, q]"
      "heap w' = h(c \<mapsto> ContextObj ctx', p \<mapsto> NodeHandle (node_handle rmw_context a b q),
         a \<mapsto> CString nm, b \<mapsto> CString ns, q \<mapsto> NodeObj n)"
      "ctx' = ctx \<or> ctx' = next_context ctx" "node_wf n" "nd_name n = nm"
proof -
  have hp: "heap w2 p = Some (NodeHandle (node_handle rmw_context a nullptr nullptr))"
    and ha: "heap w2 a = Some (CString nm)" using h2 fresh(3) by simp_all
  have az: "a \<noteq> nullptr" using wf ha by (auto simp: world_wf_def)
  note none = that(1) and made = that(2)
  show thesis
  proof (rule copy_into_cases [OF node.object_kind_axioms wf hp, of env ns "\<lambda>a h. h\<lparr>rn_namespace := a\<rparr>" "cleanup_node api p"
        "''failed to allocate memory for node namespace''" "node_object_step api env c p a"], goal_cases)
    case (1 w3)
    from node_steps_undone [OF 1(3), of "h(a \<mapsto> CString nm)" p rmw_context a] 1(2) h2 fresh z az obtain w4 where
      "cleanup_node api p w3 = Some w4" "world_wf w4" "heap w4 = h" by (auto simp: fun_upd_idem)
    with 1(1) c show ?case
      by (intro none [of "chain ''failed to allocate memory for node namespace'' w4" ctx])
        (simp_all add: node_namespace_step_def fail_def fun_upd_idem)
  next
    case (2 b w3)
    have b: "b \<noteq> p" "b \<noteq> a" "h b = None" using 2(3,4) h2 by (auto split: if_splits)
    have h3: "heap w3 = h(p \<mapsto> NodeHandle (node_handle rmw_context a b nullptr), a \<mapsto> CString nm, b \<mapsto> CString ns)"
      using 2(5) h2 b fresh(3) by (auto simp: fun_eq_iff)
    then have "load as_string a w3 = Some nm" "load as_string b w3 = Some ns" using b by (simp_all add: load_def)
    then have step: "node_namespace_step api env c ns p a w2 =
        create_impl env Node_INVARIANT_VIOLATION NodeObj as_node_impl (Node_dtor api)
          (with_context c (Node_ctor api nm (Some ns))) (cleanup_node api p)
          (handle_finish NodeHandle as_node (\<lambda>q h. h\<lparr>rn_data := q\<rparr>) p)
          ''failed to allocate memory for Node'' ''failed to construct Node'' w3"
      using 2(1) by (simp add: node_namespace_step_def node_object_step_def)
    show ?case
      by (rule create_node_tail [OF 2(6) h3 fresh(1,2) b(3) fresh(3) [symmetric] b(1) [symmetric] b(2) [symmetric] c z step])
        (use b fresh(3) in \<open>auto intro: none made\<close>)
  qed
qed

lemma create_node_cases:
  fixes w :: "('i, 'm) world"
  assumes wf: "world_wf w" and env: "zeroing env" and ctx: "context_ready rmw_context c ctx w"
    and args: "node_arguments_ok env name namespace nm ns w"
  obtains w' ctx' where "rmw_create_node api env rmw_context name namespace w = Some (nullptr, w')"
      "errmsg w' \<noteq> None" "heap w' = (heap w)(c \<mapsto> ContextObj ctx')" "ctx' = ctx \<or> ctx' = next_context ctx"
      "world_wf w'"
  | p a b q n w' ctx' where "rmw_create_node api env rmw_context name namespace w = Some (p, w')"
      "p \<noteq> nullptr" "q \<noteq> nullptr" "even q" "distinct [p, a, b, q]"
      "heap w p = None" "heap w a = None" "heap w b = None" "heap w q = None"
      "heap w' = (heap w)(c \<mapsto> ContextObj ctx', p \<mapsto> NodeHandle (node_handle rmw_context a b q),
         a \<mapsto> CString nm, b \<mapsto> CString ns, q \<mapsto> NodeObj n)"
      "ctx' = ctx \<or> ctx' = next_context ctx" "node_wf n" "nd_name n = nm" "world_wf w'"
proof -
  from ctx have c: "heap w c = Some (ContextObj ctx)" "context_wf ctx" by (auto simp: context_ready_def)
  have z: "heap w nullptr = None" using wf by (auto simp: world_wf_def)
  let ?H = "\<lambda>a b. node_handle rmw_context a b nullptr"
  note def = rmw_create_node_simp [OF assms, of api]
  note none = that(1) and made = that(2)
  have failed: thesis if "rmw_create_node api env rmw_context name namespace w = fail nullptr m v" "world_wf v" "heap v = heap w"
    for m and v :: "('i, 'm) world"
    using that c by (intro none [of "chain m v" ctx]) (simp_all add: fail_def fun_upd_idem)
  show thesis
  proof (rule rmw_allocate_cases [OF wf, of env "\<lambda>_. NodeHandle (?H nullptr nullptr)"])
    fix w1 assume "rmw_allocate env (\<lambda>_. NodeHandle (?H nullptr nullptr)) w = (nullptr, w1)" "heap w1 = heap w" "world_wf w1"
    then show thesis
      by (intro failed [of "''failed to allocate memory for node handle''" w1]) (simp_all add: def)
  next
    fix p w1
    assume p: "rmw_allocate env (\<lambda>_. NodeHandle (?H nullptr nullptr)) w = (p, w1)" "p \<noteq> nullptr" "heap w p = None"
      "heap w1 = (heap w)(p \<mapsto> NodeHandle (?H nullptr nullptr))" "world_wf w1"
    then have h1: "heap w1 p = Some (NodeHandle (?H nullptr nullptr))" by simp
    have def1: "rmw_create_node api env rmw_context name namespace w = node_name_step api env c nm ns p w1"
      using p(1,2) by (simp add: def)
    show thesis
    proof (rule copy_into_cases [OF node.object_kind_axioms p(5) h1, of env nm "\<lambda>a h. h\<lparr>rn_name := a\<rparr>"
          "cleanup_node api p" "''failed to allocate memory for node name''" "node_namespace_step api env c ns p"], goal_cases)
      case (1 w2)
      from node_steps_undone [OF 1(3), of "heap w" p rmw_context nullptr] 1(2) p z obtain w3 where
        "cleanup_node api p w2 = Some w3" "world_wf w3" "heap w3 = heap w" by (auto simp: fun_upd_idem)
      with 1(1) show ?case by (intro failed [of _ w3]) (simp_all add: def1 node_name_step_def)
    next
      case (2 a w2)
      then have a: "a \<noteq> p" "heap w a = None" "heap w2 = (heap w)(a \<mapsto> CString nm, p \<mapsto> NodeHandle (?H a nullptr))"
        using p(4) by (auto simp: fun_upd_twist split: if_splits)
      note def2 = def1 [unfolded node_name_step_def 2(1)]
      show ?case
        by (rule node_namespace_step_cases [OF 2(6) a(3) p(3) a(2,1) c z, of api env ns])
          (use def2 p(2,3) a(2) in \<open>auto intro: none made\<close>)
    qed
  qed
qed

section \<open>Destruction and the graph guard condition\<close>

lemma destroy_node:
  fixes w :: "('i, 'm) world"
  assumes wf: "world_wf w" and p: "heap w p = Some (NodeHandle (node_handle c a b q))"
    and o: "heap w a = Some (CString nm)" "heap w b = Some (CString ns)" "heap w q = Some (NodeObj n)" "a \<noteq> b"
  shows "\<exists>w'. rmw_destroy_node api p w = Some (RMW_RET_OK, w') \<and> world_wf w' \<and>
    heap w' = heap w |` (- {p, a, b, q}) \<and> iox w' = Node_dtor api n (iox w) \<and> errmsg w' = errmsg w"
proof -
  have "p \<noteq> nullptr" "q \<noteq> nullptr" using wf p o by (auto simp: world_wf_def)
  moreover obtain w' where "cleanup_node api p w = Some w'" "world_wf w'" "errmsg w' = errmsg w"
    "heap w' = heap w |` (- {p, a, b, q})" "iox w' = Node_dtor api n (iox w)"
    using cleanup_node [OF wf p, of nm ns n api] o \<open>q \<noteq> nullptr\<close> by auto
  ultimately show ?thesis
    using p by (simp add: rmw_destroy_node_def ensure_ok load_def)
qed

lemma graph_guard_condition:
  fixes w :: "('i, 'm) world"
  assumes wf: "world_wf w" and p: "heap w p = Some (NodeHandle n)" "rn_identifier n = Iox2Ident"
    and ctx: "context_ready (rn_context n) c ctx w"
    and d: "heap w (rn_data n) = Some (NodeObj d)" "nd_graph_guard_condition d = Some gc"
  shows "\<exists>g w'. rmw_node_get_graph_guard_condition env p w = Some (g, w') \<and> world_wf w' \<and> iox w' = iox w \<and>
    (if g = nullptr then errmsg w' \<noteq> None \<and> heap w' = heap w
     else heap w g = None \<and> load_guard_condition (rn_data n + 1) w' = Some gc \<and>
       heap w' = (heap w)(g \<mapsto> GuardConditionHandle
         \<lparr>rg_identifier = Iox2Ident, rg_data = rn_data n + 1, rg_context = rn_context n\<rparr>))"
proof -
  let ?G = "\<lambda>g. GuardConditionHandle \<lparr>rg_identifier = rmw_get_implementation_identifier, rg_data = g,
    rg_context = rn_context n\<rparr> :: 'm obj"
  from ctx obtain h where h: "load as_context (rn_context n) w = Some h" "rc_impl h = c"
    and nn: "rn_context n \<noteq> nullptr" "c \<noteq> nullptr"
    by (auto simp: context_ready_def context_handle.load_iff)
  have nz: "p \<noteq> nullptr" "rn_data n \<noteq> nullptr" and ev: "even (rn_data n)"
    using wf p d by (auto simp: world_wf_def)
  have ld: "load as_node p w = Some n" using p by (simp add: load_def)
  note def = rmw_node_get_graph_guard_condition_def [of env p w, unfolded ld h ensure_ok(1) [OF nz(1)]
      ensure_ok(1) [OF nn(1)] ensure_ok(1) [OF nn(2)] Option.bind.bind_lunit ensure_ok(2) [OF p(2)]]
  show ?thesis
  proof (rule rmw_allocate_cases [OF wf, of env ?G])
    fix w1 assume "rmw_allocate env ?G w = (nullptr, w1)" "heap w1 = heap w" "world_wf w1" "iox w1 = iox w"
    then show ?thesis by (auto simp: def fail_def)
  next
    fix g x w1
    assume g: "rmw_allocate env ?G w = (g, w1)" "g \<noteq> nullptr" "heap w g = None" "world_wf w1" "iox w1 = iox w"
      "heap w1 = (heap w)(g \<mapsto> ?G x)"
    have ne: "rn_data n \<noteq> g" using d g by auto
    let ?w = "w1\<lparr>heap := (heap w1)(g \<mapsto> GuardConditionHandle
      \<lparr>rg_identifier = Iox2Ident, rg_data = rn_data n + 1, rg_context = rn_context n\<rparr>)\<rparr>"
    have "rmw_node_get_graph_guard_condition env p w = Some (g, ?w)"
      using g nz d ne
      by (simp add: def unsafe_cast_def load_def store_def Node_graph_guard_condition_def
          graph_guard_condition_address_def rmw_get_implementation_identifier_def)
    moreover have "world_wf ?w" by (rule world_wf_upd [OF g(4)]) (simp add: g(6))
    moreover have "load_guard_condition (rn_data n + 1) ?w = Some gc"
      using ev d ne g(6) by (simp add: load_guard_condition_def load_def Node_graph_guard_condition_def)
    ultimately show ?thesis using g by (intro exI [of _ g] exI [of _ ?w]) simp
  qed
qed

section \<open>Properties\<close>

text \<open>\<open>rmw_create_node\<close> with an initialised context, valid names and a zeroing allocator returns. Null
  comes with an error message and leaves nothing behind, whichever of the five steps failed: both
  strings, the object and the handle are released again, and at most one id of the context is used
  up. Otherwise the result is a new handle with its own copies of the names and a complete object of
  that name, and nothing else changed.\<close>
lemma rmw_node_creation:
  fixes w :: "('i, 'm) world"
  assumes "world_wf w" and "zeroing env" and "context_ready rmw_context c ctx w"
    and "node_arguments_ok env name namespace nm ns w"
  shows "\<exists>p w' ctx'. rmw_create_node api env rmw_context name namespace w = Some (p, w') \<and> world_wf w' \<and>
    (ctx' = ctx \<or> ctx' = next_context ctx) \<and>
    (if p = nullptr then errmsg w' \<noteq> None \<and> heap w' = (heap w)(c \<mapsto> ContextObj ctx')
     else \<exists>a b q n. distinct [p, a, b, q] \<and> heap w p = None \<and> heap w a = None \<and> heap w b = None \<and> heap w q = None \<and>
       node_wf n \<and> nd_name n = nm \<and>
       heap w' = (heap w)(c \<mapsto> ContextObj ctx', p \<mapsto> NodeHandle (node_handle rmw_context a b q),
         a \<mapsto> CString nm, b \<mapsto> CString ns, q \<mapsto> NodeObj n))"
proof (rule create_node_cases [OF assms, of api], goal_cases)
  case (1 w' ctx')
  then show ?case by (intro exI [of _ nullptr] exI [of _ w'] exI [of _ ctx']) simp
next
  case (2 p a b q n w' ctx')
  show ?case
    by (intro exI [of _ p] exI [of _ w'] exI [of _ ctx'] conjI; (rule 2)?)
      (simp only: 2(2) if_False, intro exI [of _ a] exI [of _ b] exI [of _ q] exI [of _ n] conjI; rule 2)
qed

text \<open>The names of the node at 6, used again.\<close>
lemma rmw_node_creation_witness:
  "\<exists>p w'. rmw_create_node sim_api sim_env 2 10 12 sim_world = Some (p, w') \<and> world_wf w'"
  using rmw_node_creation [OF sim_world_wf sim_env_zeroing sim_context_ready, of 10 12 "''talker''" "''/''" sim_api]
  by (auto simp: node_arguments_ok_def sim_world_def sim_env_def)

text \<open>C19. A node that was created can be destroyed, whatever the iceoryx2 runtime did in between: the memory
  is then what it was before the creation, but for the id the context used up, and the destructor
  of the node's object has closed its instances and its guard condition.\<close>
theorem node_create_destroy:
  fixes w :: "('i, 'm) world"
  assumes "world_wf w" and "zeroing env" and "context_ready rmw_context c ctx w"
    and "node_arguments_ok env name namespace nm ns w"
    and "rmw_create_node api env rmw_context name namespace w = Some (p, w1)" and "p \<noteq> nullptr"
    and "world_wf w2" and "heap w2 = heap w1"
  shows "\<exists>n w3 ctx'. rmw_destroy_node api p w2 = Some (RMW_RET_OK, w3) \<and> node_wf n \<and>
    iox w3 = Node_dtor api n (iox w2) \<and> (ctx' = ctx \<or> ctx' = next_context ctx) \<and>
    heap w3 = (heap w)(c \<mapsto> ContextObj ctx')"
proof (rule create_node_cases [OF assms(1-4), of api], goal_cases)
  case (1 w' ctx')
  with assms(5,6) show ?case by simp
next
  case (2 p' a b q n w' ctx')
  from 2(1) assms(5) have e: "p' = p" "w' = w1" by simp_all
  have c: "c \<notin> {p, a, b, q}" using assms(3) 2(6-9) e by (auto simp: context_ready_def)
  have o: "heap w2 p = Some (NodeHandle (node_handle rmw_context a b q))" "heap w2 a = Some (CString nm)"
    "heap w2 b = Some (CString ns)" "heap w2 q = Some (NodeObj n)" "a \<noteq> b"
    using 2(5,10) assms(8) e by auto
  obtain w3 where w3: "rmw_destroy_node api p w2 = Some (RMW_RET_OK, w3)" "iox w3 = Node_dtor api n (iox w2)"
    "heap w3 = heap w2 |` (- {p, a, b, q})"
    using destroy_node [OF assms(7) o] by blast
  have "heap w3 = (heap w)(c \<mapsto> ContextObj ctx')"
    using w3(3) 2(6-10) assms(8) e c by (auto simp: fun_eq_iff restrict_map_def)
  with w3 2(11,12) show ?case by blast
qed

text \<open>Creation in the sample process, then destruction.\<close>
theorem node_create_destroy_witness:
  "\<exists>p w1 n w3. rmw_create_node sim_api sim_env 2 10 12 sim_world = Some (p, w1) \<and>
    rmw_destroy_node sim_api p w1 = Some (RMW_RET_OK, w3) \<and> node_wf n \<and> iox w3 = Node_dtor sim_api n (iox w1)"
proof -
  have ok: "node_arguments_ok sim_env 10 12 ''talker'' ''/'' sim_world"
    by (simp add: node_arguments_ok_def sim_world_def sim_env_def)
  have "\<exists>w1. rmw_create_node sim_api sim_env 2 10 12 sim_world = Some (34, w1)"
    by (simp add: rmw_create_node_def ensure_defs load_def sim_world_def rmw_allocate_def create_impl_def
        allocate_def allocate_copy_def create_in_place_at_def create_in_place_def with_context_def
        Node_ctor_def Iceoryx2_ctor_def GuardCondition_ctor_def generate_guard_condition_id_def sim_context_def
        sim_handle_def Context_iox2_def call_def sim_api_def sim_env_def store_def rmw_get_implementation_identifier_def)
  then obtain w1 where w1: "rmw_create_node sim_api sim_env 2 10 12 sim_world = Some (34, w1)" by blast
  moreover from this have "world_wf w1"
    by (rule_tac create_node_cases [OF sim_world_wf sim_env_zeroing sim_context_ready ok, of sim_api]) auto
  ultimately have w1: "rmw_create_node sim_api sim_env 2 10 12 sim_world = Some (34, w1)" "world_wf w1" by blast+
  from node_create_destroy [OF sim_world_wf sim_env_zeroing sim_context_ready ok w1(1) _ w1(2) refl] w1(1)
  show ?thesis by auto
qed

text \<open>C25. The graph guard condition of a node can be triggered through the handle
  \<open>rmw_node_get_graph_guard_condition\<close> returns: the call yields null with an error message, or a new
  handle, and triggering that handle notifies the event service of the guard condition inside the
  node, with its id, exactly once. No existing object changes.\<close>
theorem graph_guard_condition_triggers_node:
  fixes w :: "('i, 'm) world"
  assumes "world_wf w" and "heap w p = Some (NodeHandle n)" and "rn_identifier n = Iox2Ident"
    and "context_ready (rn_context n) c ctx w"
    and "heap w (rn_data n) = Some (NodeObj d)" and "nd_graph_guard_condition d = Some gc"
    and "gc_notifier gc = Some port"
    and "notify api port (Some (unat (gc_trigger_id gc))) (iox w) = (r, i)"
  shows "\<exists>g w1. rmw_node_get_graph_guard_condition env p w = Some (g, w1) \<and>
    (if g = nullptr then errmsg w1 \<noteq> None \<and> heap w1 = heap w
     else heap w g = None \<and> (\<exists>w2. rmw_trigger_guard_condition api g w1 =
        Some (case r of Inr _ \<Rightarrow> RMW_RET_OK | Inl _ \<Rightarrow> RMW_RET_ERROR, w2) \<and>
        iox w2 = i \<and> heap w2 |` (- {g}) = heap w))"
proof -
  obtain g w1 where g: "rmw_node_get_graph_guard_condition env p w = Some (g, w1)" "iox w1 = iox w"
    "if g = nullptr then errmsg w1 \<noteq> None \<and> heap w1 = heap w
     else heap w g = None \<and> load_guard_condition (rn_data n + 1) w1 = Some gc \<and>
       heap w1 = (heap w)(g \<mapsto> GuardConditionHandle
         \<lparr>rg_identifier = Iox2Ident, rg_data = rn_data n + 1, rg_context = rn_context n\<rparr>)"
    using graph_guard_condition [OF assms(1-6), of env] by blast
  let ?h = "\<lparr>rg_identifier = Iox2Ident, rg_data = rn_data n + 1, rg_context = rn_context n\<rparr>"
  have "\<exists>w2. rmw_trigger_guard_condition api g w1 =
        Some (case r of Inr _ \<Rightarrow> RMW_RET_OK | Inl _ \<Rightarrow> RMW_RET_ERROR, w2) \<and>
        iox w2 = i \<and> heap w2 |` (- {g}) = heap w" if "g \<noteq> nullptr"
  proof -
    have h: "heap w1 g = Some (GuardConditionHandle ?h)" "load_guard_condition (rg_data ?h) w1 = Some gc"
      "heap w1 |` (- {g}) = heap w"
      using g(3) that by (auto simp: fun_eq_iff restrict_map_def)
    from trigger_guard_condition [OF h(1) that _ h(2) _ assms(7), of api r i] assms(8) g(2) h(3)
    show ?thesis by auto
  qed
  with g show ?thesis by auto
qed

text \<open>The node at 6.\<close>
theorem graph_guard_condition_triggers_node_witness:
  "\<exists>g w1. rmw_node_get_graph_guard_condition sim_env 6 sim_world = Some (g, w1)"
proof -
  have "heap sim_world 6 = Some (NodeHandle (node_handle 2 10 12 8))" "heap sim_world 8 = Some (NodeObj sim_node)"
    "nd_graph_guard_condition sim_node = Some sim_guard" "gc_notifier sim_guard = Some 4"
    "notify sim_api 4 (Some (unat (gc_trigger_id sim_guard))) (iox sim_world) = (Inr 1, sim_start)"
    by (simp_all add: sim_world_def node_handle_def sim_node_def sim_guard_def sim_api_def)
  from graph_guard_condition_triggers_node [OF sim_world_wf this(1) _ _ _ this(3,4,5), of 4 sim_context sim_env]
    this(2) sim_context_ready show ?thesis by auto
qed

end
