(* ===== verification/Rmw_Init.thy ===== *)
theory Rmw_Init
  imports Rmw_Node Graph
begin

text \<open>
  \<open>rmw/init.cpp\<close>: the options of an initialisation, and the life of a context from \<open>rmw_init\<close> over
  \<open>rmw_shutdown\<close> to \<open>rmw_context_fini\<close>. The automaton at the end is the contract of these functions.
\<close>

section \<open>Checks\<close>

definition ensure_zero_initialized ::
  "ident \<Rightarrow> ptr \<Rightarrow> string \<Rightarrow> 'r \<Rightarrow> ('i, 'm) world \<Rightarrow> ('r \<times> ('i, 'm) world) option \<Rightarrow> ('r \<times> ('i, 'm) world) option" where
  "ensure_zero_initialized i impl element return_value w rest =
     (if i \<noteq> NullIdent \<or> impl \<noteq> nullptr then fail return_value (element @ '' must be zero initialized'') w else rest)"

definition ensure_not_zero_initialized ::
  "ident \<Rightarrow> ptr \<Rightarrow> string \<Rightarrow> 'r \<Rightarrow> ('i, 'm) world \<Rightarrow> ('r \<times> ('i, 'm) world) option \<Rightarrow> ('r \<times> ('i, 'm) world) option" where
  "ensure_not_zero_initialized i impl element return_value w rest =
     (if i = NullIdent \<and> impl = nullptr then fail return_value (element @ '' must not be zero initialized'') w else rest)"

definition ensure_initialized ::
  "ptr \<Rightarrow> string \<Rightarrow> 'r \<Rightarrow> ('i, 'm) world \<Rightarrow> ('r \<times> ('i, 'm) world) option \<Rightarrow> ('r \<times> ('i, 'm) world) option" where
  "ensure_initialized impl element return_value w rest =
     (if impl = nullptr then fail return_value (element @ '' must be initialized'') w else rest)"

definition ensure_not_initialized ::
  "ptr \<Rightarrow> string \<Rightarrow> 'r \<Rightarrow> ('i, 'm) world \<Rightarrow> ('r \<times> ('i, 'm) world) option \<Rightarrow> ('r \<times> ('i, 'm) world) option" where
  "ensure_not_initialized impl element return_value w rest =
     (if impl \<noteq> nullptr then fail return_value (element @ '' must not be initialized'') w else rest)"

definition ensure_valid_allocator ::
  "'m ros_env \<Rightarrow> nat \<Rightarrow> 'r \<Rightarrow> ('i, 'm) world \<Rightarrow> ('r \<times> ('i, 'm) world) option \<Rightarrow> ('r \<times> ('i, 'm) world) option" where
  "ensure_valid_allocator env allocator return_value w rest =
     (if \<not> allocator_is_valid env allocator then Some (return_value, w) else rest)"

section \<open>Options\<close>

text \<open>The address of the static object that marks initialised options; no object of the process has it.\<close>

definition INITIALIZED_OPTIONS :: ptr where
  "INITIALIZED_OPTIONS = 1"

definition DEFAULT_ENCLAVE :: string where
  "DEFAULT_ENCLAVE = ''''"

text \<open>\<open>rcutils_strdup\<close> where the copy is kept by address: null on a failure, which is not checked here.\<close>

definition strdup :: "'m ros_env \<Rightarrow> string \<Rightarrow> ('i, 'm) world \<Rightarrow> ptr \<times> ('i, 'm) world" where
  "strdup env s w = rmw_allocate env (\<lambda>_. CString s) w"

definition zero_init_options :: rmw_init_options where
  "zero_init_options =
     \<lparr>io_instance_id = 0, io_identifier = NullIdent, io_enclave = nullptr, io_allocator = 0, io_impl = nullptr\<rparr>"

definition zero_context :: rmw_context where
  "zero_context = \<lparr>rc_instance_id = 0, rc_identifier = NullIdent, rc_enclave = nullptr, rc_impl = nullptr\<rparr>"

definition rmw_init_options_init ::
  "'m ros_env \<Rightarrow> ptr \<Rightarrow> nat \<Rightarrow> ('i, 'm) world \<Rightarrow> (rmw_ret \<times> ('i, 'm) world) option" where
  "rmw_init_options_init env init_options allocator w =
     ensure_not_null init_options ''init_options'' RMW_RET_INVALID_ARGUMENT w (
     ensure_valid_allocator env allocator RMW_RET_INVALID_ARGUMENT w (do {
       opts \<leftarrow> load as_init_options init_options w;
       ensure_not_initialized (io_impl opts) ''init_options'' RMW_RET_INVALID_ARGUMENT w (
       ensure_zero_initialized (io_identifier opts) (io_impl opts) ''init_options'' RMW_RET_INVALID_ARGUMENT w (
         case strdup env DEFAULT_ENCLAVE w of
           (enclave, w) \<Rightarrow> do {
             w \<leftarrow> store InitOptionsHandle init_options
               \<lparr>io_instance_id = 0, io_identifier = rmw_get_implementation_identifier, io_enclave = enclave,
                io_allocator = allocator, io_impl = INITIALIZED_OPTIONS\<rparr> w;
             Some (RMW_RET_OK, w) })) }))"

text \<open>The copy is shallow: both options share the string of the enclave.\<close>

definition rmw_init_options_copy ::
  "ptr \<Rightarrow> ptr \<Rightarrow> ('i, 'm) world \<Rightarrow> (rmw_ret \<times> ('i, 'm) world) option" where
  "rmw_init_options_copy src dst w =
     ensure_not_null src ''src'' RMW_RET_INVALID_ARGUMENT w (
     ensure_not_null dst ''dst'' RMW_RET_INVALID_ARGUMENT w (do {
       s \<leftarrow> load as_init_options src w;
       ensure_initialized (io_impl s) ''src'' RMW_RET_INVALID_ARGUMENT w (do {
       d \<leftarrow> load as_init_options dst w;
       ensure_zero_initialized (io_identifier d) (io_impl d) ''dst'' RMW_RET_INVALID_ARGUMENT w (
       ensure_implementation (io_identifier s) ''src->implementation_identifier''
         RMW_RET_INCORRECT_RMW_IMPLEMENTATION w (do {
         w \<leftarrow> store InitOptionsHandle dst s w;
         Some (RMW_RET_OK, w) })) }) }))"

definition rmw_init_options_fini ::
  "'m ros_env \<Rightarrow> ptr \<Rightarrow> ('i, 'm) world \<Rightarrow> (rmw_ret \<times> ('i, 'm) world) option" where
  "rmw_init_options_fini env rmw_init_options w =
     ensure_not_null rmw_init_options ''rmw_init_options'' RMW_RET_INVALID_ARGUMENT w (do {
       opts \<leftarrow> load as_init_options rmw_init_options w;
       ensure_valid_allocator env (io_allocator opts) RMW_RET_INVALID_ARGUMENT w (
       ensure_not_zero_initialized (io_identifier opts) (io_impl opts) ''rmw_init_options''
         RMW_RET_INVALID_ARGUMENT w (
       ensure_implementation (io_identifier opts) ''rmw_init_options->implementation_identifier''
         RMW_RET_INCORRECT_RMW_IMPLEMENTATION w (do {
         w \<leftarrow> store InitOptionsHandle rmw_init_options zero_init_options w;
         Some (RMW_RET_OK, w) }))) })"

section \<open>Contexts\<close>

text \<open>
  The id of the instance has 64 bits, the constructor's parameter 32. A failure leaves the handle
  with an identifier, and the copy of the enclave's name.
\<close>

definition rmw_init ::
  "'i iox2 \<Rightarrow> 'm ros_env \<Rightarrow> ptr \<Rightarrow> ptr \<Rightarrow> ('i, 'm) world \<Rightarrow> (rmw_ret \<times> ('i, 'm) world) option" where
  "rmw_init api env rmw_init_options context w =
     ensure_not_null rmw_init_options ''rmw_init_options'' RMW_RET_INVALID_ARGUMENT w (do {
       opts \<leftarrow> load as_init_options rmw_init_options w;
       ensure_not_null (io_enclave opts) ''rmw_init_options->enclave'' RMW_RET_INVALID_ARGUMENT w (
       ensure_not_zero_initialized (io_identifier opts) (io_impl opts) ''rmw_init_options''
         RMW_RET_INVALID_ARGUMENT w (
       ensure_not_null context ''context'' RMW_RET_INVALID_ARGUMENT w (do {
       c \<leftarrow> load as_context context w;
       ensure_zero_initialized (rc_identifier c) (rc_impl c) ''context'' RMW_RET_INVALID_ARGUMENT w (
       ensure_not_initialized (rc_impl c) ''context'' RMW_RET_INVALID_ARGUMENT w (
       ensure_implementation (io_identifier opts) ''rmw_init_options->implementation_identifier''
         RMW_RET_INCORRECT_RMW_IMPLEMENTATION w (do {
         enclave \<leftarrow> load as_string (io_enclave opts) w;
         case strdup env enclave w of
           (enclave_copy, w) \<Rightarrow> do {
             w \<leftarrow> store ContextHandle context
               (c\<lparr>rc_instance_id := io_instance_id opts, rc_identifier := rmw_get_implementation_identifier,
                  rc_enclave := enclave_copy\<rparr>) w;
             case allocate env 1 w of
               (Inl _, w) \<Rightarrow> fail RMW_RET_ERROR ''failed to allocate memory for rmw_context_impl_s'' w
             | (Inr impl, w) \<Rightarrow> do {
                 c \<leftarrow> load as_context context w;
                 (result, w) \<leftarrow> create_in_place_at Context_INVARIANT_VIOLATION ContextObj
                   (Context_ctor api (ucast (rc_instance_id c))) impl w;
                 case result of
                   Inl _ \<Rightarrow> do {
                     w \<leftarrow> destruct as_context_impl (Context_dtor api) impl w;
                     w \<leftarrow> deallocate impl w;
                     fail RMW_RET_ERROR ''failed to construct rmw_context_impl_s'' w }
                 | Inr _ \<Rightarrow> do {
                     w \<leftarrow> store ContextHandle context (c\<lparr>rc_impl := impl\<rparr>) w;
                     Some (RMW_RET_OK, w) } } } }))) }))) })"

definition rmw_shutdown ::
  "'i iox2 \<Rightarrow> ptr \<Rightarrow> ('i, 'm) world \<Rightarrow> (rmw_ret \<times> ('i, 'm) world) option" where
  "rmw_shutdown api rmw_context w =
     ensure_not_null rmw_context ''rmw_context'' RMW_RET_INVALID_ARGUMENT w (do {
       c \<leftarrow> load as_context rmw_context w;
       ensure_not_zero_initialized (rc_identifier c) (rc_impl c) ''rmw_context'' RMW_RET_INVALID_ARGUMENT w (
       ensure_implementation (rc_identifier c) ''rmw_context->implementation_identifier''
         RMW_RET_INCORRECT_RMW_IMPLEMENTATION w (do {
         w \<leftarrow> (if rc_impl c \<noteq> nullptr
               then do {
                 w \<leftarrow> destruct as_context_impl (Context_dtor api) (rc_impl c) w;
                 w \<leftarrow> deallocate (rc_impl c) w;
                 store ContextHandle rmw_context (c\<lparr>rc_impl := nullptr\<rparr>) w }
               else Some w);
         Some (RMW_RET_OK, w) })) })"

definition rmw_context_fini :: "ptr \<Rightarrow> ('i, 'm) world \<Rightarrow> (rmw_ret \<times> ('i, 'm) world) option" where
  "rmw_context_fini rmw_context w =
     ensure_not_null rmw_context ''rmw_context'' RMW_RET_INVALID_ARGUMENT w (do {
       c \<leftarrow> load as_context rmw_context w;
       ensure_not_zero_initialized (rc_identifier c) (rc_impl c) ''rmw_context'' RMW_RET_INVALID_ARGUMENT w (
       ensure_implementation (rc_identifier c) ''rmw_context->implementation_identifier''
         RMW_RET_INCORRECT_RMW_IMPLEMENTATION w (
       ensure_not_initialized (rc_impl c) ''rmw_context'' RMW_RET_INVALID_ARGUMENT w (do {
         w \<leftarrow> store ContextHandle rmw_context zero_context w;
         Some (RMW_RET_OK, w) }))) })"

section \<open>The contract\<close>

text \<open>
  A context handle is zero, down (it has an identifier but no object) or up. \<open>ok\<close> says whether the
  resources of an initialisation can be had.
\<close>

datatype context_state = Zero | Down | Up

fun spec_init :: "bool \<Rightarrow> context_state \<Rightarrow> rmw_ret \<times> context_state" where
  "spec_init ok Zero = (if ok then (RMW_RET_OK, Up) else (RMW_RET_ERROR, Down))"
| "spec_init ok s = (RMW_RET_INVALID_ARGUMENT, s)"

fun spec_shutdown :: "context_state \<Rightarrow> rmw_ret \<times> context_state" where
  "spec_shutdown Zero = (RMW_RET_INVALID_ARGUMENT, Zero)"
| "spec_shutdown s = (RMW_RET_OK, Down)"

fun spec_fini :: "context_state \<Rightarrow> rmw_ret \<times> context_state" where
  "spec_fini Down = (RMW_RET_OK, Zero)"
| "spec_fini s = (RMW_RET_INVALID_ARGUMENT, s)"

definition context_at :: "ptr \<Rightarrow> context_state \<Rightarrow> ('i, 'm) world \<Rightarrow> bool" where
  "context_at c st w \<longleftrightarrow>
     (\<exists>h. heap w c = Some (ContextHandle h) \<and>
        (case st of
           Zero \<Rightarrow> rc_identifier h = NullIdent \<and> rc_impl h = nullptr
         | Down \<Rightarrow> rc_identifier h = Iox2Ident \<and> rc_impl h = nullptr
         | Up \<Rightarrow> rc_identifier h = Iox2Ident \<and> rc_impl h \<noteq> nullptr \<and>
             (\<exists>ctx. heap w (rc_impl h) = Some (ContextObj ctx) \<and> context_wf ctx)))"

definition options_ready :: "ptr \<Rightarrow> rmw_init_options \<Rightarrow> string \<Rightarrow> ('i, 'm) world \<Rightarrow> bool" where
  "options_ready p opts enclave w \<longleftrightarrow>
     heap w p = Some (InitOptionsHandle opts) \<and> io_identifier opts = Iox2Ident \<and>
     heap w (io_enclave opts) = Some (CString enclave)"

section \<open>Initialisation\<close>

lemma Context_ctor_frame: "Context_ctor api i w = Some (r, w') \<Longrightarrow> sys.more w' = sys.more w"
  by (auto simp: Context_ctor_def create_in_place_def Let_def dest!: Iceoryx2_ctor_frame
      split: Option.bind_splits sum.splits prod.splits option.splits)

text \<open>The memory with a copied string, when the copy was made.\<close>

definition with_copy :: "ptr \<Rightarrow> string \<Rightarrow> (ptr \<rightharpoonup> 'm obj) \<Rightarrow> (ptr \<rightharpoonup> 'm obj)" where
  "with_copy t s h = (if t = nullptr then h else h(t \<mapsto> CString s))"

lemma strdup_cases:
  assumes "world_wf w"
  obtains t w' where "strdup env s w = (t, w')" "heap w' = with_copy t s (heap w)" "t = nullptr \<or> heap w t = None"
    "world_wf w'" "iox w' = iox w" "heap w t = None"
  by (rule rmw_allocate_cases [OF assms, of env "\<lambda>_. CString s"])
    (use assms that in \<open>auto simp: strdup_def with_copy_def world_wf_def\<close>)

text \<open>What is left of \<open>rmw_init\<close> once the context at \<open>c\<close> has its identifier.\<close>

definition init_steps ::
  "'i iox2 \<Rightarrow> 'm ros_env \<Rightarrow> ptr \<Rightarrow> ('i, 'm) world \<Rightarrow> (rmw_ret \<times> ('i, 'm) world) option" where
  "init_steps api env c w =
     (case allocate env 1 w of
        (Inl _, w) \<Rightarrow> fail RMW_RET_ERROR ''failed to allocate memory for rmw_context_impl_s'' w
      | (Inr impl, w) \<Rightarrow> do {
          context \<leftarrow> load as_context c w;
          (result, w) \<leftarrow> create_in_place_at Context_INVARIANT_VIOLATION ContextObj
            (Context_ctor api (ucast (rc_instance_id context))) impl w;
          case result of
            Inl _ \<Rightarrow> do {
              w \<leftarrow> destruct as_context_impl (Context_dtor api) impl w;
              w \<leftarrow> deallocate impl w;
              fail RMW_RET_ERROR ''failed to construct rmw_context_impl_s'' w }
          | Inr _ \<Rightarrow> do {
              w \<leftarrow> store ContextHandle c (context\<lparr>rc_impl := impl\<rparr>) w;
              Some (RMW_RET_OK, w) } })"

lemma init_steps_cases:
  fixes w2 :: "('i, 'm) world"
  assumes wf: "world_wf w2" and c: "heap w2 c = Some (ContextHandle z)"
  obtains w' where "init_steps api env c w2 = Some (RMW_RET_ERROR, w')" "errmsg w' \<noteq> None" "world_wf w'" "heap w' = heap w2"
  | q ctx w' where "init_steps api env c w2 = Some (RMW_RET_OK, w')" "world_wf w'" "context_wf ctx"
      "ctx_id ctx = ucast (rc_instance_id z)" "q \<noteq> nullptr" "heap w2 q = None"
      "heap w' = (heap w2)(c \<mapsto> ContextHandle (z\<lparr>rc_impl := q\<rparr>), q \<mapsto> ContextObj ctx)"
proof -
  note none = that(1) and made = that(2)
  show thesis
  proof (rule allocate_cases [OF wf, of env])
    fix w3 assume "allocate env 1 w2 = (Inl ALLOCATION, w3)" "heap w3 = heap w2" "world_wf w3" "errmsg w3 \<noteq> None"
    then show thesis
      by (intro none [of "chain ''failed to allocate memory for rmw_context_impl_s'' w3"]) (simp_all add: init_steps_def fail_def)
  next
    fix q w3
    assume q: "allocate env 1 w2 = (Inr q, w3)" "q \<noteq> nullptr" "even q" "heap w2 q = None" "heap w3 = (heap w2)(q \<mapsto> Raw)" "world_wf w3"
    have ne: "q \<noteq> c" using q(4) c by auto
    have h3: "load as_context c w3 = Some z" using q(5) ne c by (simp add: load_def)
    let ?i = "ucast (rc_instance_id z) :: u32"
    show thesis
    proof (rule create_in_place_at_cases [where w = w3 and ctor = "Context_ctor api ?i" and good = context_wf
          and invariant = Context_INVARIANT_VIOLATION and mk = ContextObj, OF q(2) Context_ctor_ok], goal_cases)
      case (1 r w4)
      with world_more [OF Context_ctor_frame [OF 1]] q(5) show ?case by simp
    next
      case (2 e obj w4)
      then have w4: "heap w4 = heap w3" "next_ptr w4 = next_ptr w3"
        using world_more [OF Context_ctor_frame [OF 2(1)]] by simp_all
      let ?w5 = "(run_iox (Context_dtor api obj) w4)\<lparr>heap := heap w2\<rparr>"
      have "do { w \<leftarrow> destruct as_context_impl (Context_dtor api) q (w4\<lparr>heap := (heap w4)(q \<mapsto> ContextObj obj)\<rparr>); deallocate q w } =
          Some ?w5"
        using q(2,4,5) w4 by (simp add: destruct_def load_def deallocate_def rmw_free_def run_iox_def fun_upd_idem)
      moreover have "world_wf ?w5" by (rule world_wf_dom [OF q(6)]) (use q(5) w4 in auto)
      ultimately show ?case
        using h3 2(3) q(1)
        by (intro none [of "chain ''failed to construct rmw_context_impl_s'' ?w5"])
          (auto simp: init_steps_def fail_def simp del: One_nat_def split: Option.bind_splits)
    next
      case (3 obj w4)
      then have w4: "heap w4 = heap w3" "next_ptr w4 = next_ptr w3"
        using world_more [OF Context_ctor_frame [OF 3(1)]] by simp_all
      let ?w5 = "w4\<lparr>heap := (heap w4)(q \<mapsto> ContextObj obj, c \<mapsto> ContextHandle (z\<lparr>rc_impl := q\<rparr>))\<rparr>"
      have "world_wf ?w5" by (rule world_wf_dom [OF q(6)]) (use q(5) w4 c in auto)
      moreover have "store ContextHandle c (z\<lparr>rc_impl := q\<rparr>) (w4\<lparr>heap := (heap w4)(q \<mapsto> ContextObj obj)\<rparr>) = Some ?w5"
        using w4 q(5) ne c by (simp add: store_def)
      ultimately show ?case
        using h3 3(2,3) q ne w4 Context_ctor_initial [OF 3(1)]
        by (intro made [of ?w5 obj q]) (simp_all add: init_steps_def fun_upd_twist del: One_nat_def)
    qed
  qed
qed

lemma init_cases:
  fixes w :: "('i, 'm) world"
  assumes wf: "world_wf w" and o: "options_ready p opts enclave w"
    and c: "heap w c = Some (ContextHandle z)" "rc_identifier z = NullIdent" "rc_impl z = nullptr"
  obtains t w' where "rmw_init api env p c w = Some (RMW_RET_ERROR, w')" "errmsg w' \<noteq> None" "world_wf w'" "heap w t = None"
      "heap w' = (with_copy t enclave (heap w))(c \<mapsto> ContextHandle (z\<lparr>rc_instance_id := io_instance_id opts,
         rc_identifier := Iox2Ident, rc_enclave := t\<rparr>))"
  | t q ctx w' where "rmw_init api env p c w = Some (RMW_RET_OK, w')" "world_wf w'" "context_wf ctx"
      "ctx_id ctx = ucast (io_instance_id opts)" "q \<noteq> nullptr" "heap w q = None" "heap w t = None" "q \<noteq> t" "q \<noteq> c" "t \<noteq> c"
      "heap w' = (with_copy t enclave (heap w))(c \<mapsto> ContextHandle (z\<lparr>rc_instance_id := io_instance_id opts,
         rc_identifier := Iox2Ident, rc_enclave := t, rc_impl := q\<rparr>), q \<mapsto> ContextObj ctx)"
proof -
  have nz: "p \<noteq> nullptr" "c \<noteq> nullptr" "io_enclave opts \<noteq> nullptr"
    using wf o c by (auto simp: world_wf_def options_ready_def)
  have ld: "load as_init_options p w = Some opts" "load as_context c w = Some z"
    "load as_string (io_enclave opts) w = Some enclave" "io_identifier opts = Iox2Ident"
    using o c by (simp_all add: options_ready_def load_def)
  obtain t w1 where t: "strdup env enclave w = (t, w1)" "heap w1 = with_copy t enclave (heap w)"
    "heap w t = None" "world_wf w1" by (rule strdup_cases [OF wf])
  have tc: "t \<noteq> c" using t(3) c(1) by auto
  then have h1: "heap w1 c = Some (ContextHandle z)" using t(2) c(1) by (simp add: with_copy_def)
  let ?z = "z\<lparr>rc_instance_id := io_instance_id opts, rc_identifier := Iox2Ident, rc_enclave := t\<rparr>"
  let ?w2 = "w1\<lparr>heap := (heap w1)(c \<mapsto> ContextHandle ?z)\<rparr>"
  have wf2: "world_wf ?w2" by (rule world_wf_upd [OF t(4)]) (simp add: h1)
  have def: "rmw_init api env p c w = init_steps api env c ?w2"
    using nz ld c(2,3) h1
    by (simp add: rmw_init_def init_steps_def ensure_ok ensure_not_zero_initialized_def ensure_zero_initialized_def
        ensure_not_initialized_def t(1) rmw_get_implementation_identifier_def store_def)
  have h2: "heap ?w2 c = Some (ContextHandle ?z)" by simp
  show thesis
  proof (rule init_steps_cases [OF wf2 h2, of api env], goal_cases)
    case (1 w')
    with t def show ?case by (intro that(1) [of w' t]) simp_all
  next
    case (2 q ctx w')
    have "q \<noteq> c" "q \<noteq> t" "heap w q = None" using 2(5,6) t(2) by (auto simp: with_copy_def split: if_splits)
    with 2 t def tc show ?case by (intro that(2) [of w' ctx q t]) simp_all
  qed
qed

lemmas context_checks = ensure_ok ensure_zero_initialized_def ensure_not_zero_initialized_def ensure_not_initialized_def

lemma context_at_loads:
  assumes "world_wf w" and "context_at c st w"
  obtains h where "heap w c = Some (ContextHandle h)" "c \<noteq> nullptr" "load as_context c w = Some h"
  using assms by (auto simp: context_at_def world_wf_def load_def)

lemma options_ready_loads:
  assumes "world_wf w" and "options_ready p opts enclave w"
  shows "p \<noteq> nullptr" "io_enclave opts \<noteq> nullptr" "load as_init_options p w = Some opts" "io_identifier opts = Iox2Ident"
  using assms by (auto simp: options_ready_def world_wf_def load_def)

lemma init_automaton:
  fixes w :: "('i, 'm) world"
  assumes "world_wf w" and "context_at c st w" and "options_ready p opts enclave w"
  shows "\<exists>ok w'. rmw_init api env p c w = Some (fst (spec_init ok st), w') \<and>
    context_at c (snd (spec_init ok st)) w' \<and> world_wf w' \<and>
    (fst (spec_init ok st) \<noteq> RMW_RET_OK \<longrightarrow> errmsg w' \<noteq> None) \<and>
    (fst (spec_init ok st) = RMW_RET_INVALID_ARGUMENT \<longrightarrow> heap w' = heap w)"
proof -
  obtain h where h: "heap w c = Some (ContextHandle h)" and nz: "c \<noteq> nullptr" and ld: "load as_context c w = Some h"
    by (rule context_at_loads [OF assms(1,2)])
  note o = options_ready_loads [OF assms(1,3)]
  show ?thesis
  proof (cases st)
    case Zero
    with assms(2) h have z: "rc_identifier h = NullIdent" "rc_impl h = nullptr" by (simp_all add: context_at_def)
    show ?thesis
    proof (rule init_cases [OF assms(1,3) h z, of api env])
      fix t w' assume "rmw_init api env p c w = Some (RMW_RET_ERROR, w')" "errmsg w' \<noteq> None" "world_wf w'"
        "heap w' = (with_copy t enclave (heap w))(c \<mapsto> ContextHandle (h\<lparr>rc_instance_id := io_instance_id opts,
           rc_identifier := Iox2Ident, rc_enclave := t\<rparr>))"
      with Zero z show ?thesis by (intro exI [of _ False] exI [of _ w']) (simp add: context_at_def)
    next
      fix t q ctx w' assume "rmw_init api env p c w = Some (RMW_RET_OK, w')" "world_wf w'" "context_wf ctx" "q \<noteq> nullptr" "q \<noteq> c"
        "heap w' = (with_copy t enclave (heap w))(c \<mapsto> ContextHandle (h\<lparr>rc_instance_id := io_instance_id opts,
           rc_identifier := Iox2Ident, rc_enclave := t, rc_impl := q\<rparr>), q \<mapsto> ContextObj ctx)"
      with Zero show ?thesis by (intro exI [of _ True] exI [of _ w']) (simp add: context_at_def)
    qed
  next
    case Down
    with assms(1,2) h ld nz o show ?thesis by (auto simp: rmw_init_def context_checks context_at_def fail_def)
  next
    case Up
    with assms(1,2) h ld nz o show ?thesis by (auto simp: rmw_init_def context_checks context_at_def fail_def)
  qed
qed

lemma shutdown_automaton:
  fixes w :: "('i, 'm) world"
  assumes "world_wf w" and "context_at c st w"
  shows "\<exists>w'. rmw_shutdown api c w = Some (fst (spec_shutdown st), w') \<and> context_at c (snd (spec_shutdown st)) w' \<and>
    world_wf w' \<and> (fst (spec_shutdown st) \<noteq> RMW_RET_OK \<longrightarrow> errmsg w' \<noteq> None \<and> heap w' = heap w)"
proof -
  obtain h where h: "heap w c = Some (ContextHandle h)" and nz: "c \<noteq> nullptr" and ld: "load as_context c w = Some h"
    by (rule context_at_loads [OF assms(1,2)])
  show ?thesis
  proof (cases st)
    case Up
    with assms(2) h obtain ctx where u: "rc_identifier h = Iox2Ident" "rc_impl h \<noteq> nullptr"
      "heap w (rc_impl h) = Some (ContextObj ctx)" by (auto simp: context_at_def)
    have ne: "rc_impl h \<noteq> c" using u h by auto
    let ?w = "run_iox (Context_dtor api ctx) w\<lparr>heap := (heap w)(rc_impl h := None, c \<mapsto> ContextHandle (h\<lparr>rc_impl := nullptr\<rparr>))\<rparr>"
    have "rmw_shutdown api c w = Some (RMW_RET_OK, ?w)"
      using u nz ld ne h
      by (simp add: rmw_shutdown_def context_checks destruct_def load_def deallocate_def rmw_free_def store_def run_iox_def)
    moreover have "world_wf ?w" by (rule world_wf_dom [OF assms(1)]) (use h in auto)
    ultimately show ?thesis using Up u by (simp add: context_at_def)
  next
    case Zero
    with assms(1,2) h ld nz show ?thesis by (auto simp: rmw_shutdown_def context_checks context_at_def fail_def)
  next
    case Down
    with assms(1,2) h ld nz show ?thesis by (auto simp: rmw_shutdown_def context_checks context_at_def fail_def)
  qed
qed

lemma fini_automaton:
  fixes w :: "('i, 'm) world"
  assumes "world_wf w" and "context_at c st w"
  shows "\<exists>w'. rmw_context_fini c w = Some (fst (spec_fini st), w') \<and> context_at c (snd (spec_fini st)) w' \<and>
    world_wf w' \<and> (fst (spec_fini st) \<noteq> RMW_RET_OK \<longrightarrow> errmsg w' \<noteq> None \<and> heap w' = heap w)"
proof -
  obtain h where h: "heap w c = Some (ContextHandle h)" and nz: "c \<noteq> nullptr" and ld: "load as_context c w = Some h"
    by (rule context_at_loads [OF assms(1,2)])
  show ?thesis
  proof (cases st)
    case Down
    have "world_wf (w\<lparr>heap := (heap w)(c \<mapsto> ContextHandle zero_context)\<rparr>)"
      by (rule world_wf_upd [OF assms(1)]) (simp add: h)
    with Down assms(2) h ld nz show ?thesis
      by (simp add: rmw_context_fini_def context_checks context_at_def store_def zero_context_def)
  next
    case Zero
    with assms(1,2) h ld nz show ?thesis by (auto simp: rmw_context_fini_def context_checks context_at_def fail_def)
  next
    case Up
    with assms(1,2) h ld nz show ?thesis by (auto simp: rmw_context_fini_def context_checks context_at_def fail_def)
  qed
qed

section \<open>Properties\<close>

text \<open>C11. The three calls implement the automaton: on a context handle that is zero, down or up,
  \<open>rmw_init\<close> with initialised options, \<open>rmw_shutdown\<close> and \<open>rmw_context_fini\<close> return, with the status and
  into the state the automaton gives, every error with its message; a call that is refused changes no
  object. In particular a context can only be finalised after it was shut down, and after a failed
  initialisation it has to be finalised before the next attempt.\<close>
theorem context_automaton:
  fixes w :: "('i, 'm) world"
  assumes "world_wf w" and "context_at c st w" and "options_ready p opts enclave w"
  shows "(\<exists>ok w'. rmw_init api env p c w = Some (fst (spec_init ok st), w') \<and>
      context_at c (snd (spec_init ok st)) w' \<and> world_wf w' \<and>
      (fst (spec_init ok st) \<noteq> RMW_RET_OK \<longrightarrow> errmsg w' \<noteq> None) \<and>
      (fst (spec_init ok st) = RMW_RET_INVALID_ARGUMENT \<longrightarrow> heap w' = heap w)) \<and>
    (\<exists>w'. rmw_shutdown api c w = Some (fst (spec_shutdown st), w') \<and> context_at c (snd (spec_shutdown st)) w' \<and>
      world_wf w' \<and> (fst (spec_shutdown st) \<noteq> RMW_RET_OK \<longrightarrow> errmsg w' \<noteq> None \<and> heap w' = heap w)) \<and>
    (\<exists>w'. rmw_context_fini c w = Some (fst (spec_fini st), w') \<and> context_at c (snd (spec_fini st)) w' \<and>
      world_wf w' \<and> (fst (spec_fini st) \<noteq> RMW_RET_OK \<longrightarrow> errmsg w' \<noteq> None \<and> heap w' = heap w))"
  by (intro conjI init_automaton [OF assms] shutdown_automaton [OF assms(1,2)] fini_automaton [OF assms(1,2)])

text \<open>The context at 2 is up; it can be shut down and not finalised.\<close>
theorem context_automaton_witness:
  "\<exists>(w :: (sim, u8 list) world) w' w''. context_at 2 Up w \<and> rmw_shutdown sim_api 2 w = Some (RMW_RET_OK, w') \<and>
    rmw_context_fini 2 w = Some (RMW_RET_INVALID_ARGUMENT, w'') \<and> errmsg w'' \<noteq> None"
proof -
  let ?o = "\<lparr>io_instance_id = 0, io_identifier = Iox2Ident, io_enclave = 10, io_allocator = 0, io_impl = INITIALIZED_OPTIONS\<rparr>"
  let ?w = "sim_world\<lparr>heap := (heap sim_world)(34 \<mapsto> InitOptionsHandle ?o), next_ptr := 36\<rparr>"
  have "world_wf ?w" by (auto simp: world_wf_def sim_world_def split: if_splits)
  moreover have up: "context_at 2 Up ?w"
    unfolding context_at_def context_state.case
    by (rule exI [of _ "\<lparr>rc_instance_id = 0, rc_identifier = Iox2Ident, rc_enclave = 0, rc_impl = 4\<rparr>"])
      (simp add: sim_world_def)
  moreover have "options_ready 34 ?o ''talker'' ?w"
    by (simp add: options_ready_def) (simp add: sim_world_def)
  ultimately show ?thesis
    using context_automaton [of ?w 2 Up 34 ?o "''talker''" sim_api sim_env] by - (rule exI [of _ ?w], auto)
qed

text \<open>C20. The life of a context: \<open>rmw_init\<close> on a zero handle returns. When it fails, \<open>rmw_context_fini\<close> brings
  the handle back to zero. When it succeeds, the object carries the id of the instance cut to 32 bits, and
  \<open>rmw_shutdown\<close>, which closes its iceoryx2 instances, followed by \<open>rmw_context_fini\<close> brings the handle back to
  zero. Either way the memory is then what it was, but for the copy of the enclave's name, which no
  function frees.\<close>
theorem context_lifecycle:
  fixes w :: "('i, 'm) world"
  assumes "world_wf w" and "options_ready p opts enclave w" and "heap w c = Some (ContextHandle zero_context)"
  shows "\<exists>r w1 t. rmw_init api env p c w = Some (r, w1) \<and> heap w t = None \<and>
    (if r \<noteq> RMW_RET_OK
     then errmsg w1 \<noteq> None \<and> (\<exists>w2. rmw_context_fini c w1 = Some (RMW_RET_OK, w2) \<and> heap w2 = with_copy t enclave (heap w))
     else \<exists>ctx. context_wf ctx \<and> ctx_id ctx = ucast (io_instance_id opts) \<and>
       (\<forall>w2. world_wf w2 \<longrightarrow> heap w2 = heap w1 \<longrightarrow>
          (\<exists>w3 w4. rmw_shutdown api c w2 = Some (RMW_RET_OK, w3) \<and> iox w3 = Context_dtor api ctx (iox w2) \<and>
             rmw_context_fini c w3 = Some (RMW_RET_OK, w4) \<and> heap w4 = with_copy t enclave (heap w))))"
proof -
  have z: "rc_identifier zero_context = NullIdent" "rc_impl zero_context = nullptr" by (simp_all add: zero_context_def)
  have c: "c \<noteq> nullptr" using assms(1,3) by (auto simp: world_wf_def)
  have zeroed: "(with_copy t enclave (heap w))(c \<mapsto> ContextHandle zero_context) = with_copy t enclave (heap w)"
    if "heap w t = None" for t
    using assms(3) that by (auto simp: with_copy_def fun_eq_iff)
  show ?thesis
  proof (rule init_cases [OF assms z, of api env], goal_cases)
    case (1 t w')
    have "rmw_context_fini c w' = Some (RMW_RET_OK, w'\<lparr>heap := with_copy t enclave (heap w)\<rparr>)"
      using 1(5) c z zeroed [OF 1(4)]
      by (simp add: rmw_context_fini_def load_def ensure_ok ensure_not_zero_initialized_def ensure_not_initialized_def store_def)
    with 1 show ?case by (intro exI [of _ RMW_RET_ERROR] exI [of _ w'] exI [of _ t]) auto
  next
    case (2 t q ctx w')
    have "\<exists>w3 w4. rmw_shutdown api c w2 = Some (RMW_RET_OK, w3) \<and> iox w3 = Context_dtor api ctx (iox w2) \<and>
        rmw_context_fini c w3 = Some (RMW_RET_OK, w4) \<and> heap w4 = with_copy t enclave (heap w)"
      if w2: "heap w2 = heap w'" for w2 :: "('i, 'm) world"
    proof -
      let ?h = "zero_context\<lparr>rc_instance_id := io_instance_id opts, rc_identifier := Iox2Ident, rc_enclave := t\<rparr>"
      let ?w3 = "run_iox (Context_dtor api ctx) w2\<lparr>heap := (with_copy t enclave (heap w))(c \<mapsto> ContextHandle ?h)\<rparr>"
      have "(with_copy t enclave (heap w))(q := None) = with_copy t enclave (heap w)"
        using 2(6,7,8) by (auto simp: with_copy_def)
      then have h: "(heap w2)(q := None, c \<mapsto> ContextHandle ?h) = (with_copy t enclave (heap w))(c \<mapsto> ContextHandle ?h)"
        using w2 2(9,11) by (simp add: fun_upd_twist z)
      have z0: "?h\<lparr>rc_impl := nullptr\<rparr> = ?h" by (simp add: zero_context_def)
      have "rmw_shutdown api c w2 = Some (RMW_RET_OK, ?w3)"
        using w2 2(5,9,11) c h
        by (simp add: rmw_shutdown_def load_def ensure_ok ensure_not_zero_initialized_def destruct_def
            deallocate_def rmw_free_def store_def run_iox_def z z0)
      moreover have "rmw_context_fini c ?w3 = Some (RMW_RET_OK, ?w3\<lparr>heap := with_copy t enclave (heap w)\<rparr>)"
        using c z zeroed [OF 2(7)]
        by (simp add: rmw_context_fini_def load_def ensure_ok ensure_not_zero_initialized_def ensure_not_initialized_def store_def)
      ultimately show ?thesis by (intro exI conjI) auto
    qed
    with 2 show ?case by (intro exI [of _ RMW_RET_OK] exI [of _ w'] exI [of _ t]) auto
  qed
qed

text \<open>A zero context handle at 36.\<close>
theorem context_lifecycle_witness:
  "\<exists>w r w1. heap w 36 = Some (ContextHandle zero_context) \<and> rmw_init sim_api sim_env 34 36 w = Some (r, w1)"
proof -
  let ?o = "\<lparr>io_instance_id = 0, io_identifier = Iox2Ident, io_enclave = 10, io_allocator = 0, io_impl = INITIALIZED_OPTIONS\<rparr>"
  let ?w = "sim_world\<lparr>heap := (heap sim_world)(34 \<mapsto> InitOptionsHandle ?o, 36 \<mapsto> ContextHandle zero_context), next_ptr := 38\<rparr>"
  have "world_wf ?w" by (auto simp: world_wf_def sim_world_def split: if_splits)
  moreover have "options_ready 34 ?o ''talker'' ?w"
    by (simp add: options_ready_def) (simp add: sim_world_def)
  ultimately show ?thesis
    using context_lifecycle [of ?w 34 ?o "''talker''" 36 sim_api sim_env] by - (rule exI [of _ ?w], auto)
qed

text \<open>C23. Options that are zero can be initialised, once, with a valid allocator; they are then ready for
  \<open>rmw_init\<close> unless the default enclave's name could not be copied, which goes unnoticed. Copying them to
  zero options gives the same record, with the same pointer to the enclave's name; finalising both makes them
  zero again, and leaves nothing behind but that name.\<close>
theorem init_options_round_trip:
  fixes w :: "('i, 'm) world"
  assumes "world_wf w" and "allocator_is_valid env a" and "p \<noteq> dst"
    and "heap w p = Some (InitOptionsHandle zero_init_options)" and "heap w dst = Some (InitOptionsHandle zero_init_options)"
  shows "\<exists>opts w1 w2 w3 w4 v. rmw_init_options_init env p a w = Some (RMW_RET_OK, w1) \<and>
    (io_enclave opts \<noteq> nullptr \<longrightarrow> options_ready p opts DEFAULT_ENCLAVE w1) \<and>
    rmw_init_options_init env p a w1 = Some (RMW_RET_INVALID_ARGUMENT, v) \<and> heap v = heap w1 \<and>
    rmw_init_options_copy p dst w1 = Some (RMW_RET_OK, w2) \<and> heap w2 dst = Some (InitOptionsHandle opts) \<and>
    rmw_init_options_fini env p w2 = Some (RMW_RET_OK, w3) \<and> rmw_init_options_fini env dst w3 = Some (RMW_RET_OK, w4) \<and>
    heap w (io_enclave opts) = None \<and> heap w4 = with_copy (io_enclave opts) DEFAULT_ENCLAVE (heap w)"
proof -
  note checks = context_checks ensure_initialized_def ensure_valid_allocator_def load_def store_def
  have nz: "p \<noteq> nullptr" "dst \<noteq> nullptr" using assms(1,4,5) by (auto simp: world_wf_def)
  obtain t v1 where t: "strdup env DEFAULT_ENCLAVE w = (t, v1)" "heap v1 = with_copy t DEFAULT_ENCLAVE (heap w)"
    "heap w t = None" by (rule strdup_cases [OF assms(1)])
  let ?H = "with_copy t DEFAULT_ENCLAVE (heap w)"
  let ?o = "\<lparr>io_instance_id = 0, io_identifier = Iox2Ident, io_enclave = t, io_allocator = a, io_impl = INITIALIZED_OPTIONS\<rparr>"
  have tp: "t \<noteq> p" "t \<noteq> dst" using t(3) assms(4,5) by auto
  then have H: "?H p = Some (InitOptionsHandle zero_init_options)" "?H dst = Some (InitOptionsHandle zero_init_options)"
    using assms(4,5) by (simp_all add: with_copy_def)
  let ?w1 = "v1\<lparr>heap := ?H(p \<mapsto> InitOptionsHandle ?o)\<rparr>"
  let ?w2 = "v1\<lparr>heap := ?H(p \<mapsto> InitOptionsHandle ?o, dst \<mapsto> InitOptionsHandle ?o)\<rparr>"
  let ?w3 = "v1\<lparr>heap := ?H(dst \<mapsto> InitOptionsHandle ?o)\<rparr>"
  have h: "?H(dst \<mapsto> InitOptionsHandle ?o, p \<mapsto> InitOptionsHandle zero_init_options) = ?H(dst \<mapsto> InitOptionsHandle ?o)"
    "?H(dst \<mapsto> InitOptionsHandle zero_init_options) = ?H"
    using H assms(3) by (auto simp: fun_eq_iff)
  have 1: "rmw_init_options_init env p a w = Some (RMW_RET_OK, ?w1)"
    using nz assms(2,4) t H
    by (simp add: rmw_init_options_init_def checks zero_init_options_def rmw_get_implementation_identifier_def)
  have 2: "rmw_init_options_init env p a ?w1 = Some (RMW_RET_INVALID_ARGUMENT, chain ''init_options must not be initialized'' ?w1)"
    using nz assms(2) by (simp add: rmw_init_options_init_def checks INITIALIZED_OPTIONS_def fail_def)
  have 3: "rmw_init_options_copy p dst ?w1 = Some (RMW_RET_OK, ?w2)"
    using nz assms(3) H by (simp add: rmw_init_options_copy_def checks INITIALIZED_OPTIONS_def zero_init_options_def)
  have 4: "rmw_init_options_fini env p ?w2 = Some (RMW_RET_OK, ?w3)"
    using nz assms(2,3) h(1) by (simp add: rmw_init_options_fini_def checks fun_upd_twist)
  have 5: "rmw_init_options_fini env dst ?w3 = Some (RMW_RET_OK, v1\<lparr>heap := ?H\<rparr>)"
    using nz assms(2) h(2) by (simp add: rmw_init_options_fini_def checks)
  have "options_ready p ?o DEFAULT_ENCLAVE ?w1" if "t \<noteq> nullptr"
    using that tp by (simp add: options_ready_def with_copy_def)
  with 1 2 3 4 5 t(3) show ?thesis
    by (intro exI [of _ ?o] exI [of _ ?w1] exI [of _ ?w2] exI [of _ ?w3] exI [of _ "v1\<lparr>heap := ?H\<rparr>"]
        exI [of _ "chain ''init_options must not be initialized'' ?w1"]) simp
qed

text \<open>Options at 34 and 36.\<close>
theorem init_options_round_trip_witness:
  "\<exists>(w :: (sim, u8 list) world) w1. heap w 34 = Some (InitOptionsHandle zero_init_options) \<and>
    rmw_init_options_init sim_env 34 0 w = Some (RMW_RET_OK, w1)"
proof -
  let ?w = "sim_world\<lparr>heap := (heap sim_world)(34 \<mapsto> InitOptionsHandle zero_init_options,
    36 \<mapsto> InitOptionsHandle zero_init_options), next_ptr := 38\<rparr>"
  have "world_wf ?w" by (auto simp: world_wf_def sim_world_def split: if_splits)
  moreover have "allocator_is_valid sim_env 0" by (simp add: sim_env_def)
  ultimately show ?thesis
    using init_options_round_trip [of ?w sim_env 0 34 36] by - (rule exI [of _ ?w], auto)
qed

end
