(* ===== verification/Rmw_Graph.thy ===== *)
theory Rmw_Graph
  imports Graph Rmw_Init
begin

text \<open>
  The rest of \<open>rmw/graph.cpp\<close>: the queries for topics, publishers, subscriptions, services and clients.
  Most of them check their arguments and are not implemented; the two that count endpoints open the
  topic's service first, and \<open>rmw_get_topic_names_and_types\<close> reports the topics iceoryx2 lists.
\<close>

section \<open>Arguments\<close>

text \<open>
  A \<open>rmw_names_and_types_t\<close>: the names, and the array of the types of each name, \<open>None\<close> for a null
  pointer. Reading through a null pointer is undefined.
\<close>

record names_and_types =
  nt_names :: string_array
  nt_types :: "string_array list option"

definition zero_string_array :: string_array where
  "zero_string_array = \<lparr>sa_data = [], sa_allocator_null = True\<rparr>"

definition zero_names_and_types :: names_and_types where
  "zero_names_and_types = \<lparr>nt_names = zero_string_array, nt_types = None\<rparr>"

definition ensure_zero_string_array ::
  "string_array \<Rightarrow> 'r \<Rightarrow> ('i, 'm) world \<Rightarrow> ('r \<times> ('i, 'm) world) option \<Rightarrow> ('r \<times> ('i, 'm) world) option" where
  "ensure_zero_string_array arr ret w rest = (if \<not> sa_zero arr then Some (ret, w) else rest)"

text \<open>\<open>*types\<close>\<close>

definition first_types :: "names_and_types \<Rightarrow> string_array option" where
  "first_types nt = (case nt_types nt of Some (t # _) \<Rightarrow> Some t | _ \<Rightarrow> None)"

text \<open>
  Functions of rcutils and rmw the queries call. \<open>string_array_cmp\<close> compares with the zero array: its
  status and the result. \<open>names_and_types_init n size\<close> is its \<open>n\<close>-th request: a failure with its
  message, or the array it has allocated for the types.
\<close>

record graph_lib =
  string_array_cmp :: "string_array option \<Rightarrow> string_array \<Rightarrow> rmw_ret \<times> int"
  names_and_types_init :: "nat \<Rightarrow> nat \<Rightarrow> (rmw_ret \<times> string) + string_array list option"

section \<open>Counting\<close>

definition rmw_count_publishers ::
  "'i iox2 \<Rightarrow> 'm ros_env \<Rightarrow> ptr \<Rightarrow> ptr \<Rightarrow> ptr \<Rightarrow> ('i, 'm) world \<Rightarrow> (rmw_ret \<times> ('i, 'm) world) option" where
  "rmw_count_publishers api env rmw_node topic_ptr count w =
     ensure_not_null rmw_node ''rmw_node'' RMW_RET_INVALID_ARGUMENT w (do {
       node \<leftarrow> load as_node rmw_node w;
       ensure_implementation (rn_identifier node) ''rmw_node->implementation_identifier''
         RMW_RET_INCORRECT_RMW_IMPLEMENTATION w (
       ensure_not_null topic_ptr ''topic_name'' RMW_RET_INVALID_ARGUMENT w (do {
       topic \<leftarrow> load as_string topic_ptr w;
       ensure_valid (validate_full_topic_name env) ''invalid topic name: '' topic RMW_RET_INVALID_ARGUMENT w (
       ensure_not_null count ''count'' RMW_RET_INVALID_ARGUMENT w (
         case unsafe_cast (rn_data node) w of
           (Inl _, w) \<Rightarrow> fail RMW_RET_ERROR ''failed to get NodeImpl'' w
         | (Inr node_ptr, w) \<Rightarrow> do {
             node_impl \<leftarrow> load as_node_impl node_ptr w;
             case service_name_create api (names_topic topic) of
               Inl _ \<Rightarrow> fail RMW_RET_ERROR ''failed to create service name'' w
             | Inr iox2_service_name \<Rightarrow> do {
                 handle \<leftarrow> Node_iox2 node_impl;
                 ipc \<leftarrow> Iceoryx2_ipc handle;
                 case call (pubsub_open_or_create api ipc iox2_service_name default_pubsub_config) w of
                   (Inl _, w) \<Rightarrow> fail RMW_RET_ERROR ''failed to open service'' w
                 | (Inr _, w) \<Rightarrow> Some (RMW_RET_UNSUPPORTED, w) } })) })) })"

definition rmw_count_subscribers ::
  "'i iox2 \<Rightarrow> 'm ros_env \<Rightarrow> ptr \<Rightarrow> ptr \<Rightarrow> ptr \<Rightarrow> ('i, 'm) world \<Rightarrow> (rmw_ret \<times> ('i, 'm) world) option" where
  "rmw_count_subscribers api env rmw_node topic_ptr count w =
     ensure_not_null rmw_node ''rmw_node'' RMW_RET_INVALID_ARGUMENT w (do {
       node \<leftarrow> load as_node rmw_node w;
       ensure_implementation (rn_identifier node) ''rmw_node->implementation_identifier''
         RMW_RET_INCORRECT_RMW_IMPLEMENTATION w (
       ensure_not_null topic_ptr ''topic_name'' RMW_RET_INVALID_ARGUMENT w (do {
       topic \<leftarrow> load as_string topic_ptr w;
       ensure_valid (validate_full_topic_name env) ''invalid topic name: '' topic RMW_RET_INVALID_ARGUMENT w (
       ensure_not_null count ''count'' RMW_RET_INVALID_ARGUMENT w (
         case unsafe_cast (rn_data node) w of
           (Inl _, w) \<Rightarrow> fail RMW_RET_ERROR ''failed to get NodeImpl'' w
         | (Inr node_ptr, w) \<Rightarrow> do {
             node_impl \<leftarrow> load as_node_impl node_ptr w;
             case service_name_create api (names_topic topic) of
               Inl _ \<Rightarrow> fail RMW_RET_ERROR ''failed to create service name'' w
             | Inr iox2_service_name \<Rightarrow> do {
                 handle \<leftarrow> Node_iox2 node_impl;
                 ipc \<leftarrow> Iceoryx2_ipc handle;
                 case call (pubsub_open_or_create api ipc iox2_service_name default_pubsub_config) w of
                   (Inl _, w) \<Rightarrow> fail RMW_RET_ERROR ''failed to open service'' w
                 | (Inr _, w) \<Rightarrow> Some (RMW_RET_UNSUPPORTED, w) } })) })) })"

definition rmw_count_services ::
  "'m ros_env \<Rightarrow> ptr \<Rightarrow> ptr \<Rightarrow> ptr \<Rightarrow> ('i, 'm) world \<Rightarrow> (rmw_ret \<times> ('i, 'm) world) option" where
  "rmw_count_services env rmw_node service_name count w =
     ensure_not_null rmw_node ''rmw_node'' RMW_RET_INVALID_ARGUMENT w (do {
       node \<leftarrow> load as_node rmw_node w;
       ensure_implementation (rn_identifier node) ''rmw_node->implementation_identifier''
         RMW_RET_INCORRECT_RMW_IMPLEMENTATION w (
       ensure_not_null service_name ''service_name'' RMW_RET_INVALID_ARGUMENT w (do {
       name \<leftarrow> load as_string service_name w;
       ensure_valid (validate_full_topic_name env) ''invalid topic name: '' name RMW_RET_INVALID_ARGUMENT w (
       ensure_not_null count ''count'' RMW_RET_INVALID_ARGUMENT w (
         Some (RMW_RET_UNSUPPORTED, w))) })) })"

definition rmw_count_clients ::
  "'m ros_env \<Rightarrow> ptr \<Rightarrow> ptr \<Rightarrow> ptr \<Rightarrow> ('i, 'm) world \<Rightarrow> (rmw_ret \<times> ('i, 'm) world) option" where
  "rmw_count_clients env rmw_node service_name count w =
     ensure_not_null rmw_node ''rmw_node'' RMW_RET_INVALID_ARGUMENT w (do {
       node \<leftarrow> load as_node rmw_node w;
       ensure_implementation (rn_identifier node) ''rmw_node->implementation_identifier''
         RMW_RET_INCORRECT_RMW_IMPLEMENTATION w (
       ensure_not_null service_name ''service_name'' RMW_RET_INVALID_ARGUMENT w (do {
       name \<leftarrow> load as_string service_name w;
       ensure_valid (validate_full_topic_name env) ''invalid topic name: '' name RMW_RET_INVALID_ARGUMENT w (
       ensure_not_null count ''count'' RMW_RET_INVALID_ARGUMENT w (
         Some (RMW_RET_UNSUPPORTED, w))) })) })"

section \<open>Queries that are not implemented\<close>

definition rmw_get_node_names_with_enclaves ::
  "ptr \<Rightarrow> string_array option \<Rightarrow> string_array option \<Rightarrow> string_array option \<Rightarrow> ('i, 'm) world \<Rightarrow>
   (rmw_ret \<times> ('i, 'm) world) option" where
  "rmw_get_node_names_with_enclaves rmw_node node_names node_namespaces enclaves w =
     ensure_not_null rmw_node ''rmw_node'' RMW_RET_INVALID_ARGUMENT w (do {
       node \<leftarrow> load as_node rmw_node w;
       ensure_implementation (rn_identifier node) ''rmw_node->implementation_identifier''
         RMW_RET_INCORRECT_RMW_IMPLEMENTATION w (
       ensure_given node_names ''node_names'' RMW_RET_INVALID_ARGUMENT w (\<lambda>names.
       ensure_zero_string_array names RMW_RET_INVALID_ARGUMENT w (
       ensure_given node_namespaces ''node_namespaces'' RMW_RET_INVALID_ARGUMENT w (\<lambda>namespaces.
       ensure_zero_string_array namespaces RMW_RET_INVALID_ARGUMENT w (
       ensure_given enclaves ''enclaves'' RMW_RET_INVALID_ARGUMENT w (\<lambda>enclaves.
       ensure_zero_string_array enclaves RMW_RET_INVALID_ARGUMENT w (
         Some (RMW_RET_UNSUPPORTED, w)))))))) })"

text \<open>
  The checks shared by the four queries by node; \<open>validate_ns\<close> is the check of the namespace, with the text
  of its message.
\<close>

definition names_and_types_by_node ::
  "'m ros_env \<Rightarrow> (string \<Rightarrow> unit + string option) \<Rightarrow> string \<Rightarrow> string \<Rightarrow> ptr \<Rightarrow> nat \<Rightarrow> ptr \<Rightarrow> ptr \<Rightarrow>
   names_and_types option \<Rightarrow> ('i, 'm) world \<Rightarrow> (rmw_ret \<times> ('i, 'm) world) option" where
  "names_and_types_by_node env validate_ns ns_text argument rmw_node allocator node_name node_namespace nt w =
     ensure_not_null rmw_node ''rmw_node'' RMW_RET_INVALID_ARGUMENT w (do {
       node \<leftarrow> load as_node rmw_node w;
       ensure_implementation (rn_identifier node) ''rmw_node->implementation_identifier''
         RMW_RET_INCORRECT_RMW_IMPLEMENTATION w (
       ensure_valid_allocator env allocator RMW_RET_INVALID_ARGUMENT w (
       ensure_not_null node_name ''node_name'' RMW_RET_INVALID_ARGUMENT w (do {
       name \<leftarrow> load as_string node_name w;
       ensure_valid (validate_node_name env) ''invalid node name: '' name RMW_RET_INVALID_ARGUMENT w (
       ensure_not_null node_namespace ''node_namespace'' RMW_RET_INVALID_ARGUMENT w (do {
       ns \<leftarrow> load as_string node_namespace w;
       ensure_valid validate_ns ns_text ns RMW_RET_INVALID_ARGUMENT w (
       ensure_given nt argument RMW_RET_INVALID_ARGUMENT w (\<lambda>nt.
       ensure_zero_string_array (nt_names nt) RMW_RET_INVALID_ARGUMENT w (do {
       types \<leftarrow> first_types nt;
       ensure_zero_string_array types RMW_RET_INVALID_ARGUMENT w (
         Some (RMW_RET_UNSUPPORTED, w)) }))) })) }))) })"

definition rmw_get_publisher_names_and_types_by_node ::
  "'m ros_env \<Rightarrow> ptr \<Rightarrow> nat \<Rightarrow> ptr \<Rightarrow> ptr \<Rightarrow> names_and_types option \<Rightarrow> ('i, 'm) world \<Rightarrow>
   (rmw_ret \<times> ('i, 'm) world) option" where
  "rmw_get_publisher_names_and_types_by_node env =
     names_and_types_by_node env (validate_namespace env) ''invalid node namespace: '' ''topic_names_and_types''"

text \<open>The namespace is checked as a node's name.\<close>

definition rmw_get_subscriber_names_and_types_by_node ::
  "'m ros_env \<Rightarrow> ptr \<Rightarrow> nat \<Rightarrow> ptr \<Rightarrow> ptr \<Rightarrow> names_and_types option \<Rightarrow> ('i, 'm) world \<Rightarrow>
   (rmw_ret \<times> ('i, 'm) world) option" where
  "rmw_get_subscriber_names_and_types_by_node env =
     names_and_types_by_node env (validate_node_name env) ''invalid node name: '' ''topic_names_and_types''"

definition rmw_get_service_names_and_types_by_node ::
  "'m ros_env \<Rightarrow> ptr \<Rightarrow> nat \<Rightarrow> ptr \<Rightarrow> ptr \<Rightarrow> names_and_types option \<Rightarrow> ('i, 'm) world \<Rightarrow>
   (rmw_ret \<times> ('i, 'm) world) option" where
  "rmw_get_service_names_and_types_by_node env =
     names_and_types_by_node env (validate_namespace env) ''invalid node namespace: '' ''service_names_and_types''"

definition rmw_get_client_names_and_types_by_node ::
  "'m ros_env \<Rightarrow> ptr \<Rightarrow> nat \<Rightarrow> ptr \<Rightarrow> ptr \<Rightarrow> names_and_types option \<Rightarrow> ('i, 'm) world \<Rightarrow>
   (rmw_ret \<times> ('i, 'm) world) option" where
  "rmw_get_client_names_and_types_by_node env =
     names_and_types_by_node env (validate_namespace env) ''invalid node namespace: '' ''service_names_and_types''"

definition rmw_get_service_names_and_types ::
  "'m ros_env \<Rightarrow> ptr \<Rightarrow> nat \<Rightarrow> names_and_types option \<Rightarrow> ('i, 'm) world \<Rightarrow> (rmw_ret \<times> ('i, 'm) world) option" where
  "rmw_get_service_names_and_types env rmw_node allocator nt w =
     ensure_not_null rmw_node ''rmw_node'' RMW_RET_INVALID_ARGUMENT w (do {
       node \<leftarrow> load as_node rmw_node w;
       ensure_implementation (rn_identifier node) ''rmw_node->implementation_identifier''
         RMW_RET_INCORRECT_RMW_IMPLEMENTATION w (
       ensure_valid_allocator env allocator RMW_RET_INVALID_ARGUMENT w (
       ensure_given nt ''service_names_and_types'' RMW_RET_INVALID_ARGUMENT w (\<lambda>nt.
       ensure_zero_string_array (nt_names nt) RMW_RET_INVALID_ARGUMENT w (do {
       types \<leftarrow> first_types nt;
       ensure_zero_string_array types RMW_RET_INVALID_ARGUMENT w (
         Some (RMW_RET_UNSUPPORTED, w)) })))) })"

text \<open>
  The array of endpoints is given by what \<open>rmw_topic_endpoint_info_array_check_zero\<close> says of it; \<open>None\<close> is a
  null pointer.
\<close>

definition rmw_get_publishers_info_by_topic ::
  "'m ros_env \<Rightarrow> ptr \<Rightarrow> nat \<Rightarrow> ptr \<Rightarrow> rmw_ret option \<Rightarrow> ('i, 'm) world \<Rightarrow> (rmw_ret \<times> ('i, 'm) world) option" where
  "rmw_get_publishers_info_by_topic env rmw_node allocator topic_ptr publishers_info w =
     ensure_not_null rmw_node ''rmw_node'' RMW_RET_INVALID_ARGUMENT w (
     ensure_not_null topic_ptr ''topic_name'' RMW_RET_INVALID_ARGUMENT w (
     ensure_given publishers_info ''publishers_info'' RMW_RET_INVALID_ARGUMENT w (\<lambda>check_zero. do {
       node \<leftarrow> load as_node rmw_node w;
       ensure_implementation (rn_identifier node) ''rmw_node->implementation_identifier''
         RMW_RET_INCORRECT_RMW_IMPLEMENTATION w (
         if \<not> allocator_is_valid env allocator then Some (RMW_RET_INVALID_ARGUMENT, w)
         else if check_zero \<noteq> RMW_RET_OK then Some (RMW_RET_INVALID_ARGUMENT, w)
         else Some (RMW_RET_UNSUPPORTED, w)) })))"

definition rmw_get_subscriptions_info_by_topic ::
  "'m ros_env \<Rightarrow> ptr \<Rightarrow> nat \<Rightarrow> ptr \<Rightarrow> rmw_ret option \<Rightarrow> ('i, 'm) world \<Rightarrow> (rmw_ret \<times> ('i, 'm) world) option" where
  "rmw_get_subscriptions_info_by_topic env rmw_node allocator topic_ptr subscriptions_info w =
     ensure_not_null rmw_node ''rmw_node'' RMW_RET_INVALID_ARGUMENT w (
     ensure_not_null topic_ptr ''topic_name'' RMW_RET_INVALID_ARGUMENT w (
     ensure_given subscriptions_info ''subscriptions_info'' RMW_RET_INVALID_ARGUMENT w (\<lambda>check_zero. do {
       node \<leftarrow> load as_node rmw_node w;
       ensure_implementation (rn_identifier node) ''rmw_node->implementation_identifier''
         RMW_RET_INCORRECT_RMW_IMPLEMENTATION w (
         if \<not> allocator_is_valid env allocator then Some (RMW_RET_INVALID_ARGUMENT, w)
         else if check_zero \<noteq> RMW_RET_OK then Some (RMW_RET_INVALID_ARGUMENT, w)
         else Some (RMW_RET_UNSUPPORTED, w)) })))"

section \<open>Topics\<close>

text \<open>
  The loop that copies the topics: the name goes to its entry of the names, and the type, which is not
  known, to the entry with the same index of the first array of types.
\<close>

fun fill_topics ::
  "'m ros_env \<Rightarrow> nat \<Rightarrow> topic_details list \<Rightarrow> string_array \<Rightarrow> string_array \<Rightarrow> ('i, 'm) world \<Rightarrow>
   (rmw_ret \<times> string_array \<times> string_array) \<times> ('i, 'm) world" where
  "fill_topics env index [] names types w = ((RMW_RET_OK, names, types), w)"
| "fill_topics env index (topic # topics) names types w =
     (case rcutils_strdup env (topic_name topic) w of
        (None, w) \<Rightarrow> ((RMW_RET_BAD_ALLOC, set_entry index None names, types),
                      chain ''failed to allocate memory for topic name'' w)
      | (Some s, w) \<Rightarrow>
        (case rcutils_strdup env ''UNKNOWN'' w of
           (None, w) \<Rightarrow> ((RMW_RET_BAD_ALLOC, set_entry index (Some s) names, set_entry index None types),
                         chain ''failed to allocate memory for type type'' w)
         | (Some t, w) \<Rightarrow>
             fill_topics env (Suc index) topics (set_entry index (Some s) names) (set_entry index (Some t) types) w))"

text \<open>\<open>rcutils_string_array_init\<close> on the first array of types; a null pointer is refused by it.\<close>

definition init_first_types ::
  "'m ros_env \<Rightarrow> nat \<Rightarrow> string_array list option \<Rightarrow> ('i, 'm) world \<Rightarrow>
   ((bool \<times> string_array list option) \<times> ('i, 'm) world) option" where
  "init_first_types env len types w =
     (case types of
        None \<Rightarrow> Some ((False, None), w)
      | Some [] \<Rightarrow> None
      | Some (_ # rest) \<Rightarrow>
          let n = requests w; w = w\<lparr>requests := Suc n\<rparr> in
          case string_array_init env n len of
            Some (_, msg) \<Rightarrow> Some ((False, types), w\<lparr>errmsg := Some msg\<rparr>)
          | None \<Rightarrow> Some ((True, Some (\<lparr>sa_data = replicate len None, sa_allocator_null = False\<rparr> # rest)), w))"

definition rmw_get_topic_names_and_types ::
  "'i iox2 \<Rightarrow> 'm ros_env \<Rightarrow> graph_lib \<Rightarrow> ptr \<Rightarrow> nat \<Rightarrow> names_and_types option \<Rightarrow> ('i, 'm) world \<Rightarrow>
   ((rmw_ret \<times> names_and_types option) \<times> ('i, 'm) world) option" where
  "rmw_get_topic_names_and_types api env lib rmw_node allocator topic_names_and_types w =
     (let ret = \<lambda>r. (r, topic_names_and_types) in
      ensure_not_null rmw_node ''rmw_node'' (ret RMW_RET_INVALID_ARGUMENT) w (
      ensure_given topic_names_and_types ''topic_names_and_types'' (ret RMW_RET_INVALID_ARGUMENT) w (\<lambda>nt. do {
        node \<leftarrow> load as_node rmw_node w;
        ensure_implementation (rn_identifier node) ''rmw_node->implementation_identifier''
          (ret RMW_RET_INCORRECT_RMW_IMPLEMENTATION) w (
          if \<not> allocator_is_valid env allocator then Some (ret RMW_RET_INVALID_ARGUMENT, w)
          else if string_array_cmp lib (Some (nt_names nt)) zero_string_array \<noteq> (RMW_RET_OK, 0)
          then fail (ret RMW_RET_INVALID_ARGUMENT) ''failed to verify topic names is zero initialized'' w
          else if nt_types nt = Some [] then None
          else if string_array_cmp lib (first_types nt) zero_string_array \<noteq> (RMW_RET_OK, 0)
          then fail (ret RMW_RET_INVALID_ARGUMENT) ''failed to verify topic types is zero initialized'' w
          else do {
            (collect_result, topics) \<leftarrow> collect_topic_names_and_types api
              (\<lambda>service. static_pattern service = PublishSubscribe) (iox w);
            if collect_result \<noteq> RMW_RET_OK then Some (ret collect_result, w)
            else
              let len = length topics; n = requests w; w = w\<lparr>requests := Suc n\<rparr> in
              case names_and_types_init lib n len of
                Inl (r, msg) \<Rightarrow> Some (ret r, w\<lparr>errmsg := Some msg\<rparr>)
              | Inr types \<Rightarrow> do {
                  let names = \<lparr>sa_data = replicate len None, sa_allocator_null = False\<rparr>;
                  ((ok, types), w) \<leftarrow> init_first_types env len types w;
                  if \<not> ok
                  then fail (RMW_RET_BAD_ALLOC, Some \<lparr>nt_names = names, nt_types = types\<rparr>)
                    ''failed to allocate memory for topic types'' w
                  else do {
                    first \<leftarrow> first_types \<lparr>nt_names = names, nt_types = types\<rparr>;
                    let ((r, names, first), w) = fill_topics env 0 topics names first w;
                    Some ((r, Some \<lparr>nt_names = names, nt_types = map_option (\<lambda>ts. first # tl ts) types\<rparr>), w) } } }) })))"

section \<open>What rcutils and rmw document\<close>

text \<open>
  Comparing refuses a null pointer, and an array equals the zero array when it is empty. Initialising
  for at least one name allocates that many zero arrays of types.
\<close>

definition graph_lib_contract :: "graph_lib \<Rightarrow> bool" where
  "graph_lib_contract lib \<longleftrightarrow>
     (\<forall>b. fst (string_array_cmp lib None b) \<noteq> RMW_RET_OK) \<and>
     (\<forall>a. string_array_cmp lib (Some a) zero_string_array = (RMW_RET_OK, 0) \<longleftrightarrow> sa_data a = []) \<and>
     (\<forall>n k r msg. names_and_types_init lib n k = Inl (r, msg) \<longrightarrow> r \<noteq> RMW_RET_OK) \<and>
     (\<forall>n k ts. names_and_types_init lib n k = Inr ts \<longrightarrow> 0 < k \<longrightarrow> ts = Some (replicate k zero_string_array))"

definition sim_lib :: graph_lib where
  "sim_lib =
     \<lparr>string_array_cmp = (\<lambda>a b. case a of None \<Rightarrow> (RMW_RET_INVALID_ARGUMENT, 0)
         | Some a \<Rightarrow> (RMW_RET_OK, int (length (sa_data a)) - int (length (sa_data b)))),
      names_and_types_init = (\<lambda>n k. Inr (Some (replicate k zero_string_array)))\<rparr>"

lemma sim_lib_contract: "graph_lib_contract sim_lib"
  by (auto simp: graph_lib_contract_def sim_lib_def zero_string_array_def)

section \<open>Filling in the topics\<close>

lemma take_Suc_update: "i < length xs \<Longrightarrow> take (Suc i) (xs[i := x]) = take i xs @ [x]"
  by (simp add: take_Suc_conv_app_nth)

lemma fill_topics_result:
  assumes "fill_topics env i topics ns ts w = ((r, ns', ts'), w')"
    and "length (sa_data ns) = i + length topics" and "length (sa_data ts) = i + length topics"
  shows "(r = RMW_RET_OK \<and> sa_data ns' = take i (sa_data ns) @ map (Some \<circ> topic_name) topics \<and>
          sa_data ts' = take i (sa_data ts) @ replicate (length topics) (Some ''UNKNOWN'') \<or>
          r = RMW_RET_BAD_ALLOC \<and> errmsg w' \<noteq> None) \<and> heap w' = heap w"
  using assms
proof (induction topics arbitrary: i ns ts w)
  case Nil
  then show ?case by simp
next
  case (Cons topic topics)
  obtain r1 w1 where d1: "rcutils_strdup env (topic_name topic) w = (r1, w1)" by fastforce
  obtain r2 w2 where d2: "rcutils_strdup env ''UNKNOWN'' w1 = (r2, w2)" by fastforce
  note h = rcutils_strdup_cases [OF d1] rcutils_strdup_cases [OF d2]
  show ?case
  proof (cases "r1 = None \<or> r2 = None")
    case True
    with Cons.prems(1) d1 d2 h show ?thesis by (auto split: option.splits)
  next
    case False
    with h have r: "r1 = Some (topic_name topic)" "r2 = Some ''UNKNOWN''" by auto
    from Cons.prems(1) d1 d2 r have
      "fill_topics env (Suc i) topics (set_entry i (Some (topic_name topic)) ns)
         (set_entry i (Some ''UNKNOWN'') ts) w2 = ((r, ns', ts'), w')" by simp
    from Cons.IH [OF this] Cons.prems(2,3) h show ?thesis
      by (simp add: set_entry_def take_Suc_update)
  qed
qed

lemma fill_topics_granted: "memory_granted env \<Longrightarrow> fst (fst (fill_topics env i topics ns ts w)) = RMW_RET_OK"
  by (induction topics arbitrary: i ns ts w) (simp_all add: rcutils_strdup_def memory_granted_def Let_def)

text \<open>No request for the memory of the structure fails.\<close>

definition names_and_types_granted :: "graph_lib \<Rightarrow> bool" where
  "names_and_types_granted lib \<longleftrightarrow> (\<forall>n k. \<not> isl (names_and_types_init lib n k))"

lemma topics_reported:
  fixes w :: "('i, 'm) world"
  assumes lib: "graph_lib_contract lib" "failures_are_errors env" "allocator_is_valid env a"
    and h: "heap w n = Some (NodeHandle h)" "n \<noteq> nullptr" "rn_identifier h = Iox2Ident"
    and nt: "sa_data (nt_names nt) = []" "nt_types nt = Some (t # ts)" "sa_data t = []"
    and c: "collect_topic_names_and_types api (\<lambda>s. static_pattern s = PublishSubscribe) (iox w) = Some (RMW_RET_OK, topics)"
      "topics \<noteq> []"
  shows "\<exists>r nt' w'. rmw_get_topic_names_and_types api env lib n a (Some nt) w = Some ((r, Some nt'), w') \<and> heap w' = heap w \<and>
    (memory_granted env \<and> names_and_types_granted lib \<longrightarrow> r = RMW_RET_OK) \<and>
    (r = RMW_RET_OK \<and> sa_data (nt_names nt') = map (Some \<circ> topic_name) topics \<and>
       (\<exists>first. sa_data first = replicate (length topics) (Some ''UNKNOWN'') \<and>
          nt_types nt' = Some (first # replicate (length topics - 1) zero_string_array)) \<or>
     r \<noteq> RMW_RET_OK \<and> errmsg w' \<noteq> None)"
proof -
  let ?k = "length topics" and ?w1 = "w\<lparr>requests := Suc (requests w)\<rparr>"
  have cmp: "string_array_cmp lib (Some (nt_names nt)) zero_string_array = (RMW_RET_OK, 0)"
    "string_array_cmp lib (first_types nt) zero_string_array = (RMW_RET_OK, 0)"
    using lib(1) nt by (simp_all add: graph_lib_contract_def first_types_def)
  have ld: "load as_node n w = Some h" using h(1) by (simp add: load_def)
  note def = rmw_get_topic_names_and_types_def [of api env lib n a "Some nt" w]
  note base = h(2,3) ld lib(3) cmp nt(2) c(1)
  show ?thesis
  proof (cases "names_and_types_init lib (requests w) ?k")
    case (Inl e)
    obtain r msg where e: "e = (r, msg)" by fastforce
    with Inl lib(1) have "r \<noteq> RMW_RET_OK" unfolding graph_lib_contract_def by blast
    with Inl e base show ?thesis by (auto simp: def ensure_ok names_and_types_granted_def isl_def)
  next
    case (Inr types)
    have types: "types = Some (zero_string_array # replicate (?k - 1) zero_string_array)"
    proof -
      have "types = Some (replicate ?k zero_string_array)"
        using lib(1) Inr c(2) unfolding graph_lib_contract_def by (metis length_greater_0_conv)
      then show ?thesis using c(2) by (cases topics) simp_all
    qed
    let ?new = "\<lparr>sa_data = replicate ?k None, sa_allocator_null = False\<rparr>"
    show ?thesis
    proof (cases "string_array_init env (requests ?w1) ?k")
      case (Some e)
      with Inr types base show ?thesis
        by (cases e) (auto simp: def ensure_ok init_first_types_def fail_def Let_def memory_granted_def)
    next
      case None
      let ?w2 = "?w1\<lparr>requests := Suc (requests ?w1)\<rparr>"
      obtain r ns' ts' w3 where f: "fill_topics env 0 topics ?new ?new ?w2 = ((r, ns', ts'), w3)"
        by (metis prod.collapse)
      from fill_topics_result [OF f] fill_topics_granted [of env 0 topics ?new ?new ?w2] f None Inr types base show ?thesis
        by (auto simp: def ensure_ok init_first_types_def Let_def first_types_def)
    qed
  qed
qed

text \<open>Up to the listing of the services.\<close>

lemma topic_query_unfold:
  fixes w :: "('i, 'm) world"
  assumes "graph_lib_contract lib" and "allocator_is_valid env a"
    and "heap w n = Some (NodeHandle h)" and "n \<noteq> nullptr" and "rn_identifier h = Iox2Ident"
    and "sa_data (nt_names nt) = []" and "nt_types nt = Some (t # ts)" and "sa_data t = []"
  shows "rmw_get_topic_names_and_types api env lib n a (Some nt) w =
    (case collect_topic_names_and_types api (\<lambda>s. static_pattern s = PublishSubscribe) (iox w) of
       None \<Rightarrow> None
     | Some (r, topics) \<Rightarrow>
         if r \<noteq> RMW_RET_OK then Some ((r, Some nt), w)
         else rmw_get_topic_names_and_types api env lib n a (Some nt) w)"
proof -
  have "string_array_cmp lib (Some (nt_names nt)) zero_string_array = (RMW_RET_OK, 0)"
    "string_array_cmp lib (first_types nt) zero_string_array = (RMW_RET_OK, 0)"
    using assms(1,6-8) by (simp_all add: graph_lib_contract_def first_types_def)
  moreover have "load as_node n w = Some h" using assms(3) by (simp add: load_def)
  ultimately show ?thesis
    using assms(2,4,5,7) by (auto simp: rmw_get_topic_names_and_types_def ensure_ok split: option.split)
qed

lemma listed_topics_reported:
  fixes w :: "('i, 'm) world"
  assumes "graph_lib_contract lib" and "failures_are_errors env" and "allocator_is_valid env a"
    and "heap w n = Some (NodeHandle h)" and "n \<noteq> nullptr" and "rn_identifier h = Iox2Ident"
    and "sa_data (nt_names nt) = []" and "nt_types nt = Some (t # ts)" and "sa_data t = []"
    and l: "service_list api (iox w) = Inr services"
    and scheme: "\<not> (\<exists>s \<in> set services. static_pattern s = PublishSubscribe \<and> parse_topic_name (static_name s) = None)"
    and some: "\<exists>s \<in> set services. static_pattern s = PublishSubscribe"
  shows "\<exists>r nt' w'. rmw_get_topic_names_and_types api env lib n a (Some nt) w = Some ((r, Some nt'), w') \<and> heap w' = heap w \<and>
    (memory_granted env \<and> names_and_types_granted lib \<longrightarrow> r = RMW_RET_OK) \<and>
    (if r = RMW_RET_OK
     then \<exists>names first. sorted_wrt (<) names \<and>
       set names = {x. \<exists>s \<in> set services. static_pattern s = PublishSubscribe \<and> parse_topic_name (static_name s) = Some x} \<and>
       sa_data (nt_names nt') = map Some names \<and>
       nt_types nt' = Some (first # replicate (length names - 1) zero_string_array) \<and>
       sa_data first = replicate (length names) (Some ''UNKNOWN'')
     else errmsg w' \<noteq> None)"
proof -
  let ?p = "\<lambda>s. static_pattern s = PublishSubscribe"
  obtain topics where c: "collect_topics ?p services [] = Some topics"
    using scheme collect_topics_None [of ?p services "[]"] by (cases "collect_topics ?p services []") auto
  then have s: "sorted_wrt (<) topics"
    "set topics = {TopicDetails x [] |x. \<exists>s \<in> set services. ?p s \<and> parse_topic_name (static_name s) = Some x}"
    using collect_topics_result [OF _ c] by simp_all
  have names: "sorted_wrt (<) (map topic_name topics)"
  proof -
    have "sorted_wrt (\<lambda>x y. topic_name x < topic_name y) topics"
      by (rule sorted_wrt_mono_rel [OF _ s(1)]) (use s(2) in \<open>auto simp: less_topic_details_def topic_details_less_def split: if_splits\<close>)
    then show ?thesis by (simp add: sorted_wrt_map)
  qed
  have set: "set (map topic_name topics) = {x. \<exists>s \<in> set services. ?p s \<and> parse_topic_name (static_name s) = Some x}"
    using s(2) by force
  have "topics \<noteq> []" using s(2) some scheme by fastforce
  moreover have "collect_topic_names_and_types api ?p (iox w) = Some (RMW_RET_OK, topics)"
    using l c by (simp add: collect_topic_names_and_types_def)
  ultimately obtain r nt' w' where
    r: "rmw_get_topic_names_and_types api env lib n a (Some nt) w = Some ((r, Some nt'), w')" "heap w' = heap w"
      "memory_granted env \<and> names_and_types_granted lib \<longrightarrow> r = RMW_RET_OK"
      "r = RMW_RET_OK \<and> sa_data (nt_names nt') = map (Some \<circ> topic_name) topics \<and>
         (\<exists>first. sa_data first = replicate (length topics) (Some ''UNKNOWN'') \<and>
            nt_types nt' = Some (first # replicate (length topics - 1) zero_string_array)) \<or>
       r \<noteq> RMW_RET_OK \<and> errmsg w' \<noteq> None"
    using topics_reported [OF assms(1-9), of api topics] by blast
  show ?thesis
  proof (cases "r = RMW_RET_OK")
    case True
    with r(4) obtain first where f: "sa_data (nt_names nt') = map Some (map topic_name topics)"
      "sa_data first = replicate (length (map topic_name topics)) (Some ''UNKNOWN'')"
      "nt_types nt' = Some (first # replicate (length (map topic_name topics) - 1) zero_string_array)" by auto
    show ?thesis
      by (rule exI [of _ r], rule exI [of _ nt'], rule exI [of _ w'], simp only: r(1,2) True if_True simp_thms)
        (intro exI [of _ "map topic_name topics"] exI [of _ first] conjI names set f)
  next
    case False
    with r show ?thesis by auto
  qed
qed

lemma by_node_refuses:
  "validate s \<noteq> Inr None \<Longrightarrow> \<exists>w'. ensure_valid validate text s ret w rest = Some (ret, w') \<and>
     (\<forall>reason. validate s = Inr (Some reason) \<longrightarrow> errmsg w' = Some (text @ reason))"
  by (auto simp: ensure_valid_def split: sum.splits option.splits)

section \<open>Properties\<close>

text \<open>C26. \<open>rmw_get_topic_names_and_types\<close> with a node of this implementation, a valid allocator, empty names and one
  empty array of types, as far as rcutils and rmw behave as documented. If iceoryx2 fails to list the services, it
  returns \<open>RMW_RET_ERROR\<close> and nothing else happens: there is no message. If a listed publish-subscribe service has a
  name outside the scheme of topics, the process terminates. Otherwise, with at least one topic to report, it
  returns: on success the names are, strictly ordered, exactly the topics of the listed
  publish-subscribe services, each once; every type is unknown, and all of them are in the first array of
  types, so that the arrays of all topics but the first are empty; a failure has a message, and there is none when
  all requests for memory are granted. No object of the RMW changes.\<close>
theorem topic_names_query:
  fixes w :: "('i, 'm) world"
  assumes "graph_lib_contract lib" and "failures_are_errors env" and "allocator_is_valid env a"
    and "heap w n = Some (NodeHandle h)" and "n \<noteq> nullptr" and "rn_identifier h = Iox2Ident"
    and "sa_data (nt_names nt) = []" and "nt_types nt = Some (t # ts)" and "sa_data t = []"
  shows "case service_list api (iox w) of
      Inl _ \<Rightarrow> rmw_get_topic_names_and_types api env lib n a (Some nt) w = Some ((RMW_RET_ERROR, Some nt), w)
    | Inr services \<Rightarrow>
        if \<exists>s \<in> set services. static_pattern s = PublishSubscribe \<and> parse_topic_name (static_name s) = None
        then rmw_get_topic_names_and_types api env lib n a (Some nt) w = None
        else (\<exists>s \<in> set services. static_pattern s = PublishSubscribe) \<longrightarrow>
          (\<exists>r nt' w'. rmw_get_topic_names_and_types api env lib n a (Some nt) w = Some ((r, Some nt'), w') \<and> heap w' = heap w \<and>
             (memory_granted env \<and> names_and_types_granted lib \<longrightarrow> r = RMW_RET_OK) \<and>
             (if r = RMW_RET_OK
              then \<exists>names first. sorted_wrt (<) names \<and>
                set names = {x. \<exists>s \<in> set services. static_pattern s = PublishSubscribe \<and> parse_topic_name (static_name s) = Some x} \<and>
                sa_data (nt_names nt') = map Some names \<and>
                nt_types nt' = Some (first # replicate (length names - 1) zero_string_array) \<and>
                sa_data first = replicate (length names) (Some ''UNKNOWN'')
              else errmsg w' \<noteq> None))"
proof -
  let ?p = "\<lambda>s. static_pattern s = PublishSubscribe" and ?query = "rmw_get_topic_names_and_types api env lib n a (Some nt) w"
  have query: "?query = (case collect_topic_names_and_types api ?p (iox w) of
      None \<Rightarrow> None
    | Some (r, topics) \<Rightarrow> if r \<noteq> RMW_RET_OK then Some ((r, Some nt), w) else ?query)"
    using topic_query_unfold [OF assms(1,3-9)] .
  show ?thesis
  proof (cases "service_list api (iox w)")
    case (Inl e)
    with query show ?thesis by (simp add: collect_topic_names_and_types_def)
  next
    case (Inr services)
    show ?thesis
    proof (cases "\<exists>s \<in> set services. ?p s \<and> parse_topic_name (static_name s) = None")
      case True
      then have "collect_topics ?p services [] = None" by (simp add: collect_topics_None)
      with query Inr True show ?thesis by (simp add: collect_topic_names_and_types_def)
    next
      case False
      from listed_topics_reported [OF assms Inr False] show ?thesis
        unfolding Inr sum.case if_not_P [OF False] by (rule impI)
    qed
  qed
qed

text \<open>The one topic of the sample middleware is reported.\<close>
theorem topic_names_query_witness:
  "\<exists>nt' w'. rmw_get_topic_names_and_types sim_api sim_env sim_lib 6 0
      (Some \<lparr>nt_names = zero_string_array, nt_types = Some [zero_string_array]\<rparr>) sim_world = Some ((RMW_RET_OK, Some nt'), w') \<and>
    heap w' = heap sim_world"
proof -
  let ?s = "\<lparr>static_name = ''ros2://topics/chatter'', static_pattern = PublishSubscribe\<rparr>"
  have "failures_are_errors sim_env" "allocator_is_valid sim_env 0"
    "heap sim_world 6 = Some (NodeHandle (node_handle 2 10 12 8))"
    and l: "service_list sim_api (iox sim_world) = Inr [?s]"
    and s: "parse_topic_name (static_name ?s) = Some ''/chatter''"
    and m: "memory_granted sim_env" "names_and_types_granted sim_lib"
    by (simp_all add: failures_are_errors_def sim_env_def sim_world_def node_handle_def sim_api_def parse_topic_name_def
        memory_granted_def names_and_types_granted_def sim_lib_def)
  from topic_names_query [OF sim_lib_contract this(1-3), of
      "\<lparr>nt_names = zero_string_array, nt_types = Some [zero_string_array]\<rparr>" zero_string_array "[]" sim_api] l s m
  show ?thesis by (auto simp: zero_string_array_def)
qed

text \<open>C39. The structure \<open>rmw_get_zero_initialized_names_and_types\<close> gives, whose array of types is a null pointer, cannot be
  passed to the queries. With a node of this implementation and otherwise valid arguments,
  \<open>rmw_get_topic_names_and_types\<close> refuses it with an error, if comparing with a null array fails as documented.
  The queries by node for publishers, services and clients, given a valid name and namespace, read through the null
  pointer. So does the one for subscriptions if the namespace would be valid as the name of a node, which is how this
  query checks it; otherwise it refuses the namespace as an invalid name of a node.\<close>
theorem zero_names_and_types_unusable:
  fixes w :: "('i, 'm) world"
  assumes "graph_lib_contract lib" and "allocator_is_valid env a"
    and "heap w n = Some (NodeHandle h)" and "n \<noteq> nullptr" and "rn_identifier h = Iox2Ident"
    and "heap w np = Some (CString nm)" and "np \<noteq> nullptr" and "validate_node_name env nm = Inr None"
    and "heap w nsp = Some (CString ns)" and "nsp \<noteq> nullptr" and "validate_namespace env ns = Inr None"
  shows "(\<exists>w'. rmw_get_topic_names_and_types api env lib n a (Some zero_names_and_types) w =
        Some ((RMW_RET_INVALID_ARGUMENT, Some zero_names_and_types), w') \<and> errmsg w' \<noteq> None) \<and>
    rmw_get_publisher_names_and_types_by_node env n a np nsp (Some zero_names_and_types) w = None \<and>
    rmw_get_service_names_and_types_by_node env n a np nsp (Some zero_names_and_types) w = None \<and>
    rmw_get_client_names_and_types_by_node env n a np nsp (Some zero_names_and_types) w = None \<and>
    (if validate_node_name env ns = Inr None
     then rmw_get_subscriber_names_and_types_by_node env n a np nsp (Some zero_names_and_types) w = None
     else \<exists>w'. rmw_get_subscriber_names_and_types_by_node env n a np nsp (Some zero_names_and_types) w =
         Some (RMW_RET_INVALID_ARGUMENT, w') \<and>
       (\<forall>reason. validate_node_name env ns = Inr (Some reason) \<longrightarrow> errmsg w' = Some (''invalid node name: '' @ reason)))"
proof -
  have cmp: "string_array_cmp lib None zero_string_array \<noteq> (RMW_RET_OK, 0)"
    using assms(1) unfolding graph_lib_contract_def by (metis fst_conv)
  have ld: "load as_node n w = Some h" "load as_string np w = Some nm" "load as_string nsp w = Some ns"
    using assms(3,6,9) by (simp_all add: load_def)
  have ft: "first_types zero_names_and_types = None" "nt_types zero_names_and_types = None"
    by (simp_all add: first_types_def zero_names_and_types_def)
  have "\<exists>w'. rmw_get_topic_names_and_types api env lib n a (Some zero_names_and_types) w =
      Some ((RMW_RET_INVALID_ARGUMENT, Some zero_names_and_types), w') \<and> errmsg w' \<noteq> None"
    using assms(2,4,5) ld cmp ft by (simp add: rmw_get_topic_names_and_types_def ensure_ok fail_def)
  moreover have zero: "ensure_zero_string_array (nt_names zero_names_and_types) r w rest = rest" for r and rest :: "(rmw_ret \<times> ('i, 'm) world) option"
    by (simp add: ensure_zero_string_array_def zero_names_and_types_def zero_string_array_def sa_zero_def)
  have by_node: "names_and_types_by_node env validate_ns label arg n a np nsp (Some zero_names_and_types) w =
      ensure_valid validate_ns label ns RMW_RET_INVALID_ARGUMENT w None" for validate_ns label arg
    using assms(2,4,5,7,8,10) ld ft zero
    by (simp add: names_and_types_by_node_def ensure_ok ensure_valid_allocator_def ensure_valid_def)
  then have
    "rmw_get_publisher_names_and_types_by_node env n a np nsp (Some zero_names_and_types) w = None"
    "rmw_get_service_names_and_types_by_node env n a np nsp (Some zero_names_and_types) w = None"
    "rmw_get_client_names_and_types_by_node env n a np nsp (Some zero_names_and_types) w = None"
    using assms(11)
    by (simp_all add: rmw_get_publisher_names_and_types_by_node_def rmw_get_client_names_and_types_by_node_def
        rmw_get_service_names_and_types_by_node_def ensure_valid_def)
  moreover have "rmw_get_subscriber_names_and_types_by_node env n a np nsp (Some zero_names_and_types) w =
      ensure_valid (validate_node_name env) ''invalid node name: '' ns RMW_RET_INVALID_ARGUMENT w None"
    by (simp add: rmw_get_subscriber_names_and_types_by_node_def by_node)
  then have "if validate_node_name env ns = Inr None
     then rmw_get_subscriber_names_and_types_by_node env n a np nsp (Some zero_names_and_types) w = None
     else \<exists>w'. rmw_get_subscriber_names_and_types_by_node env n a np nsp (Some zero_names_and_types) w =
         Some (RMW_RET_INVALID_ARGUMENT, w') \<and>
       (\<forall>reason. validate_node_name env ns = Inr (Some reason) \<longrightarrow> errmsg w' = Some (''invalid node name: '' @ reason))"
    using by_node_refuses [of "validate_node_name env" ns "''invalid node name: ''" RMW_RET_INVALID_ARGUMENT w None]
    by (simp add: ensure_valid_def)
  ultimately show ?thesis by blast
qed

text \<open>The node at 6, asked about itself.\<close>
theorem zero_names_and_types_unusable_witness:
  "(\<exists>w'. rmw_get_topic_names_and_types sim_api sim_env sim_lib 6 0 (Some zero_names_and_types) sim_world =
        Some ((RMW_RET_INVALID_ARGUMENT, Some zero_names_and_types), w') \<and> errmsg w' \<noteq> None) \<and>
    rmw_get_publisher_names_and_types_by_node sim_env 6 0 10 12 (Some zero_names_and_types) sim_world = None"
proof -
  have p: "allocator_is_valid sim_env 0" "heap sim_world 6 = Some (NodeHandle (node_handle 2 10 12 8))"
    "heap sim_world 10 = Some (CString ''talker'')" "validate_node_name sim_env ''talker'' = Inr None"
    "heap sim_world 12 = Some (CString ''/'')" "validate_namespace sim_env ''/'' = Inr None"
    by (simp_all add: sim_env_def sim_world_def node_handle_def)
  show ?thesis using zero_names_and_types_unusable [OF sim_lib_contract p(1,2) _ _ p(3) _ p(4,5) _ p(6), of sim_api] by simp
qed

text \<open>C38. Counting the publishers of a topic and counting its subscribers are the same function. With valid arguments
  it never yields a count: it opens the topic's service, or creates it with default settings, which
  are not those the publishers and subscriptions of this RMW use, and then reports that it is not
  supported.\<close>
theorem counting_opens_service:
  fixes w :: "('i, 'm) world"
  assumes "heap w n = Some (NodeHandle h)" and "n \<noteq> nullptr" and "rn_identifier h = Iox2Ident"
    and "heap w t = Some (CString topic)" and "t \<noteq> nullptr" and "validate_full_topic_name env topic = Inr None"
    and "count \<noteq> nullptr" and "rn_data h \<noteq> nullptr" and "heap w (rn_data h) = Some (NodeObj d)"
    and "nd_iox2 d = Some i" and "m_ipc i = Some ipc" and "service_name_create api (names_topic topic) = Inr sn"
  shows "rmw_count_subscribers api env n t count w = rmw_count_publishers api env n t count w \<and>
    (\<exists>r w'. rmw_count_publishers api env n t count w = Some (r, w') \<and>
       iox w' = snd (pubsub_open_or_create api ipc sn default_pubsub_config (iox w)) \<and> heap w' = heap w \<and>
       r = (if isl (fst (pubsub_open_or_create api ipc sn default_pubsub_config (iox w))) then RMW_RET_ERROR
            else RMW_RET_UNSUPPORTED)) \<and>
    default_pubsub_config \<noteq> pubsub_settings"
proof (intro conjI)
  show "rmw_count_subscribers api env n t count w = rmw_count_publishers api env n t count w"
    by (simp add: rmw_count_subscribers_def rmw_count_publishers_def)
  have ld: "load as_node n w = Some h" "load as_string t w = Some topic" "load as_node_impl (rn_data h) w = Some d"
    using assms(1,4,9) by (simp_all add: load_def)
  show "\<exists>r w'. rmw_count_publishers api env n t count w = Some (r, w') \<and>
     iox w' = snd (pubsub_open_or_create api ipc sn default_pubsub_config (iox w)) \<and> heap w' = heap w \<and>
     r = (if isl (fst (pubsub_open_or_create api ipc sn default_pubsub_config (iox w))) then RMW_RET_ERROR
          else RMW_RET_UNSUPPORTED)"
    using assms(2,3,5-8,10-12) ld
    by (cases "pubsub_open_or_create api ipc sn default_pubsub_config (iox w)"; cases "fst (pubsub_open_or_create api ipc sn default_pubsub_config (iox w))")
      (auto simp: rmw_count_publishers_def ensure_ok ensure_valid_def unsafe_cast_ok Node_iox2_def Iceoryx2_ipc_def call_def fail_def)
  show "default_pubsub_config \<noteq> pubsub_settings"
    by (simp add: default_pubsub_config_def pubsub_settings_def)
qed

text \<open>The topic of the sample process.\<close>
theorem counting_opens_service_witness:
  "\<exists>w'. rmw_count_publishers sim_api sim_env 6 30 1 sim_world = Some (RMW_RET_UNSUPPORTED, w')"
proof -
  have "heap sim_world 6 = Some (NodeHandle (node_handle 2 10 12 8))" "heap sim_world 30 = Some (CString ''/chatter'')"
    "heap sim_world 8 = Some (NodeObj sim_node)" "validate_full_topic_name sim_env ''/chatter'' = Inr None"
    by (simp_all add: sim_world_def node_handle_def sim_env_def)
  moreover obtain i ipc where "nd_iox2 sim_node = Some i" "m_ipc i = Some ipc"
    by (simp add: sim_node_def sim_handle_def)
  moreover have "service_name_create sim_api (names_topic ''/chatter'') = Inr (names_topic ''/chatter'')"
    by (simp add: sim_api_def)
  ultimately show ?thesis
    using counting_opens_service [of sim_world 6 "node_handle 2 10 12 8" 30 "''/chatter''" sim_env 1 sim_node i ipc sim_api]
    by (auto simp: sim_api_def)
qed

end
