(* ===== verification/Rmw_Serialize.thy ===== *)
theory Rmw_Serialize
  imports Rmw_Heap
begin

text \<open>
  \<open>rmw/serialize.cpp\<close>: messages to bytes and back, through the callbacks of the type support. A
  \<open>rmw_serialized_message_t\<close> is passed by value and returned; its bytes are a buffer in memory.
\<close>

record rmw_serialized_message =
  sm_buffer :: ptr
  sm_length :: nat
  sm_capacity :: nat

definition rmw_get_serialization_format :: string where
  "rmw_get_serialization_format = ''iceoryx2''"

definition rmw_serialization_support_init :: rmw_ret where
  "rmw_serialization_support_init = RMW_RET_UNSUPPORTED"

definition rmw_serialize ::
  "'i iox2 \<Rightarrow> 'm ros_env \<Rightarrow> ptr \<Rightarrow> ptr \<Rightarrow> rmw_serialized_message option \<Rightarrow> ('i, 'm) world \<Rightarrow>
   ((rmw_ret \<times> rmw_serialized_message option) \<times> ('i, 'm) world) option" where
  "rmw_serialize api env ros_message type_support serialized_message w =
     (let ret = \<lambda>r. (r, serialized_message) in
      ensure_not_null ros_message ''ros_message'' (ret RMW_RET_INVALID_ARGUMENT) w (
      ensure_not_null type_support ''type_support'' (ret RMW_RET_INVALID_ARGUMENT) w (
      ensure_given serialized_message ''serialized_message'' (ret RMW_RET_INVALID_ARGUMENT) w (\<lambda>sm.
        case typesupport_handle (fastrtps_cpp env type_support) w of
          (None, w) \<Rightarrow> fail (ret RMW_RET_ERROR) ''failed to get typesupport handle'' w
        | (Some None, w) \<Rightarrow> fail (ret RMW_RET_ERROR) ''failed to get typesupport callbacks'' w
        | (Some (Some cb), w) \<Rightarrow> do {
            msg \<leftarrow> load as_message ros_message w;
            let (finished, bytes) = cdr_serialize cb msg (sm_capacity sm);
            w \<leftarrow> write_buffer api (sm_buffer sm) bytes w;
            if \<not> finished then fail (ret RMW_RET_ERROR) ''failed to serialize'' w
            else Some ((RMW_RET_OK, Some (sm\<lparr>sm_length := length bytes\<rparr>)), w) }))))"

text \<open>The buffer given to the deserializer has the length of the capacity.\<close>

definition rmw_deserialize ::
  "'i iox2 \<Rightarrow> 'm ros_env \<Rightarrow> rmw_serialized_message option \<Rightarrow> ptr \<Rightarrow> ptr \<Rightarrow> ('i, 'm) world \<Rightarrow>
   (rmw_ret \<times> ('i, 'm) world) option" where
  "rmw_deserialize api env serialized_message type_support ros_message w =
     ensure_not_null ros_message ''ros_message'' RMW_RET_INVALID_ARGUMENT w (
     ensure_not_null type_support ''type_support'' RMW_RET_INVALID_ARGUMENT w (
     ensure_given serialized_message ''serialized_message'' RMW_RET_INVALID_ARGUMENT w (\<lambda>sm.
       case typesupport_handle (fastrtps_cpp env type_support) w of
         (None, w) \<Rightarrow> fail RMW_RET_ERROR ''failed to get typesupport handle'' w
       | (Some None, w) \<Rightarrow> fail RMW_RET_ERROR ''failed to get typesupport callbacks'' w
       | (Some (Some cb), w) \<Rightarrow> do {
           msg \<leftarrow> load as_message ros_message w;
           bytes \<leftarrow> read_buffer api (sm_buffer sm) (sm_capacity sm) w;
           let (finished, msg) = cdr_deserialize cb bytes msg;
           w \<leftarrow> store Message ros_message msg w;
           if \<not> finished then fail RMW_RET_ERROR ''failed to deserialize'' w
           else Some (RMW_RET_OK, w) })))"

section \<open>Behaviour on valid arguments\<close>

text \<open>What the code relies on: serialization stays within the buffer it is given.\<close>

definition serialize_bounded :: "'m callbacks \<Rightarrow> bool" where
  "serialize_bounded cb \<longleftrightarrow> (\<forall>m n. length (snd (cdr_serialize cb m n)) \<le> n)"

text \<open>A buffer of this process with the capacity the message structure states.\<close>

definition buffer_ready :: "rmw_serialized_message \<Rightarrow> u8 list \<Rightarrow> ('i, 'm) world \<Rightarrow> bool" where
  "buffer_ready sm old w \<longleftrightarrow> heap w (sm_buffer sm) = Some (Bytes old) \<and> length old = sm_capacity sm"

lemma rmw_serialize_simp:
  assumes "ros_message \<noteq> nullptr" "type_support \<noteq> nullptr" "fastrtps_cpp env type_support = Inr (Some cb)"
    and "heap w ros_message = Some (Message msg)" "cdr_serialize cb msg (sm_capacity sm) = (ok, bytes)"
    and "write_buffer api (sm_buffer sm) bytes w = Some w'"
  shows "rmw_serialize api env ros_message type_support (Some sm) w =
    Some (if ok then ((RMW_RET_OK, Some (sm\<lparr>sm_length := length bytes\<rparr>)), w')
          else ((RMW_RET_ERROR, Some sm), chain ''failed to serialize'' w'))"
  using assms by (simp add: rmw_serialize_def ensure_ok typesupport_handle_def load_def fail_def Let_def)

lemma rmw_deserialize_simp:
  assumes "ros_message \<noteq> nullptr" "type_support \<noteq> nullptr" "fastrtps_cpp env type_support = Inr (Some cb)"
    and "heap w ros_message = Some (Message msg)" "read_buffer api (sm_buffer sm) (sm_capacity sm) w = Some bytes"
    and "cdr_deserialize cb bytes msg = (ok, msg')"
  shows "rmw_deserialize api env (Some sm) type_support ros_message w =
    Some (let w' = w\<lparr>heap := (heap w)(ros_message \<mapsto> Message msg')\<rparr> in
          if ok then (RMW_RET_OK, w') else (RMW_RET_ERROR, chain ''failed to deserialize'' w'))"
  using assms
  by (simp add: rmw_deserialize_def ensure_ok typesupport_handle_def load_def store_def fail_def Let_def)

lemma write_buffer_ready:
  "buffer_ready sm old w \<Longrightarrow> length bytes \<le> sm_capacity sm \<Longrightarrow>
   write_buffer api (sm_buffer sm) bytes w =
     Some (w\<lparr>heap := (heap w)(sm_buffer sm \<mapsto> Bytes (bytes @ drop (length bytes) old))\<rparr>)"
  by (simp add: buffer_ready_def write_buffer_def)

lemma buffer_ready_write:
  "buffer_ready sm old w \<Longrightarrow> length bytes \<le> sm_capacity sm \<Longrightarrow>
   heap w' (sm_buffer sm) = Some (Bytes (bytes @ drop (length bytes) old)) \<Longrightarrow>
   read_buffer api (sm_buffer sm) (sm_capacity sm) w' = Some (bytes @ drop (length bytes) old)"
  by (simp add: buffer_ready_def read_buffer_def)

section \<open>Properties\<close>

text \<open>C24. A message serialized into a buffer of this process comes back from it by deserialization,
  whatever the rest of the buffer holds and whatever message is overwritten, when the callbacks of
  the type support undo each other on a prefix of the buffer and stay within it. Both calls return
  \<open>RMW_RET_OK\<close>, the length is the number of bytes written, and only the buffer and the destination
  change.\<close>
theorem serialize_round_trip:
  fixes w :: "('i, 'm) world"
  assumes "fastrtps_cpp env type_support = Inr (Some cb)" and "type_support \<noteq> nullptr"
    and "serialize_bounded cb" and "\<And>rest m. cdr_deserialize cb (bytes @ rest) m = (True, msg)"
    and "cdr_serialize cb msg (sm_capacity sm) = (True, bytes)"
    and "buffer_ready sm old w" and "world_wf w"
    and "heap w src = Some (Message msg)" and "heap w dst = Some (Message other)"
  shows "\<exists>sm' w1 w2. rmw_serialize api env src type_support (Some sm) w = Some ((RMW_RET_OK, Some sm'), w1) \<and>
    sm_length sm' = length bytes \<and>
    rmw_deserialize api env (Some sm') type_support dst w1 = Some (RMW_RET_OK, w2) \<and>
    heap w2 dst = Some (Message msg) \<and> iox w2 = iox w \<and>
    (\<forall>p. p \<noteq> dst \<longrightarrow> p \<noteq> sm_buffer sm \<longrightarrow> heap w2 p = heap w p)"
proof -
  let ?bs = "bytes @ drop (length bytes) old"
  let ?w1 = "w\<lparr>heap := (heap w)(sm_buffer sm \<mapsto> Bytes ?bs)\<rparr>"
  let ?sm = "sm\<lparr>sm_length := length bytes\<rparr>"
  have nn: "src \<noteq> nullptr" "dst \<noteq> nullptr" using assms(7-9) by (auto simp: world_wf_def)
  have "length bytes \<le> sm_capacity sm"
    using assms(3,5) by (metis serialize_bounded_def snd_conv)
  note rw = write_buffer_ready [OF assms(6) this] buffer_ready_write [OF assms(6) this, of ?w1 api]
  have ne: "sm_buffer sm \<noteq> dst" using assms(6,9) by (auto simp: buffer_ready_def)
  have s: "rmw_serialize api env src type_support (Some sm) w = Some ((RMW_RET_OK, Some ?sm), ?w1)"
    using rmw_serialize_simp [OF nn(1) assms(2,1,8,5) rw(1), of api] by simp
  have r: "read_buffer api (sm_buffer ?sm) (sm_capacity ?sm) ?w1 = Some ?bs" using rw(2) by simp
  have d: "rmw_deserialize api env (Some ?sm) type_support dst ?w1 =
      Some (RMW_RET_OK, ?w1\<lparr>heap := (heap ?w1)(dst \<mapsto> Message msg)\<rparr>)"
    using rmw_deserialize_simp [OF nn(2) assms(2,1) _ r assms(4)] assms(9) ne by (simp add: Let_def)
  show ?thesis
    by (rule exI [of _ ?sm], rule exI [of _ ?w1], rule exI [of _ "?w1\<lparr>heap := (heap ?w1)(dst \<mapsto> Message msg)\<rparr>"])
      (use s d ne in simp)
qed

text \<open>Two bytes through a buffer of four.\<close>
theorem serialize_round_trip_witness:
  "\<exists>w w2. heap w 40 = Some (Message [1, 2]) \<and> heap w2 44 = Some (Message [1, 2]) \<and>
    rmw_deserialize sim_api
      (sim_env\<lparr>fastrtps_cpp := \<lambda>_. Inr (Some \<lparr>get_serialized_size = \<lambda>_. 2, cdr_serialize = \<lambda>m n. (True, take n m),
        cdr_deserialize = \<lambda>bs m. (True, take 2 bs)\<rparr>)\<rparr>)
      (Some \<lparr>sm_buffer = 42, sm_length = 2, sm_capacity = 4\<rparr>) 1 44 w = Some (RMW_RET_OK, w2)"
proof -
  let ?cb = "\<lparr>get_serialized_size = \<lambda>_. 2, cdr_serialize = \<lambda>m n. (True, take n m),
        cdr_deserialize = \<lambda>bs m. (True, take 2 bs)\<rparr> :: u8 list callbacks"
  let ?env = "sim_env\<lparr>fastrtps_cpp := \<lambda>_. Inr (Some ?cb)\<rparr>"
  let ?w = "sim_world\<lparr>heap := [40 \<mapsto> Message [1, 2], 42 \<mapsto> Bytes [9, 9, 9, 9], 44 \<mapsto> Message []], next_ptr := 46\<rparr>"
  let ?sm = "\<lparr>sm_buffer = 42, sm_length = 0, sm_capacity = 4\<rparr>"
  have "serialize_bounded ?cb" "buffer_ready ?sm [9, 9, 9, 9] ?w" "world_wf ?w"
    by (auto simp: serialize_bounded_def buffer_ready_def world_wf_def split: if_splits)
  from serialize_round_trip [OF _ _ this(1) _ _ this(2,3), of ?env 1 "[1, 2]" "[1, 2]" 40 44 "[]" sim_api]
  obtain sm' w1 w2 where *: "rmw_serialize sim_api ?env 40 1 (Some ?sm) ?w = Some ((RMW_RET_OK, Some sm'), w1)"
    "rmw_deserialize sim_api ?env (Some sm') 1 44 w1 = Some (RMW_RET_OK, w2)" "heap w2 44 = Some (Message [1, 2])"
    by auto
  have "sm' = \<lparr>sm_buffer = 42, sm_length = 2, sm_capacity = 4\<rparr> \<and> heap w1 40 = Some (Message [1, 2])"
    using *(1) by (auto simp: rmw_serialize_def ensure_ok typesupport_handle_def load_def write_buffer_def Let_def)
  with * show ?thesis by blast
qed

end
