(* ===== verification/Rmw_Endpoint.thy ===== *)
theory Rmw_Endpoint
  imports Rmw_Node
begin

text \<open>
  What \<open>rmw_create_publisher\<close> and \<open>rmw_create_subscription\<close> share: the checks of the arguments, a handle
  with a copy of the topic's name, the object, and the way back from a failure. The two functions
  are modelled in full in their own theories and shown to be instances of \<open>create_endpoint\<close>, for
  which the cases are proved once. \<open>endpoint_handle\<close> is the interface of the two handles.
\<close>

section \<open>Arguments\<close>

definition qos_known :: "rmw_qos_profile \<Rightarrow> bool" where
  "qos_known q \<longleftrightarrow> POLICY_UNKNOWN \<notin> {qos_history q, qos_reliability q, qos_durability q, qos_liveliness q}"

definition endpoint_arguments_ok ::
  "'m ros_env \<Rightarrow> ptr \<Rightarrow> ptr \<Rightarrow> ptr \<Rightarrow> rmw_qos_profile \<Rightarrow> ptr \<Rightarrow> string \<Rightarrow> ('i, 'm) world \<Rightarrow> bool" where
  "endpoint_arguments_ok env rmw_node ts topic_name qos options topic w \<longleftrightarrow>
     (\<exists>n c ctx d. heap w rmw_node = Some (NodeHandle n) \<and> rn_identifier n = Iox2Ident \<and>
        context_ready (rn_context n) c ctx w \<and> heap w (rn_data n) = Some (NodeObj d) \<and> node_wf d) \<and>
     ts \<noteq> nullptr \<and> typesupport_valid env ts \<and> heap w topic_name = Some (CString topic) \<and> qos_known qos \<and>
     (qos_avoid_ros_namespace_conventions qos \<or> validate_full_topic_name env topic = Inr None) \<and>
     options \<noteq> nullptr"

section \<open>Methods called through an address\<close>

context object_kind
begin

lemma method_result:
  fixes w :: "('i, 'm) world"
  assumes "heap w q = Some (mk x)" and "f x w = Some (r, x', w1)" and "sys.more w1 = sys.more w"
  shows "method_call mk sel q f w = Some (r, w1\<lparr>heap := (heap w)(q \<mapsto> mk x')\<rparr>)"
  using assms world_more [OF assms(3)] by (simp add: method_call_def load_def store_def)

lemma method_inv:
  fixes w :: "('i, 'm) world"
  assumes "heap w q = Some (mk x)" and "method_call mk sel q f w = Some (r, w')"
  obtains x' w1 where "f x w = Some (r, x', w1)" "w' = w1\<lparr>heap := (heap w1)(q \<mapsto> mk x')\<rparr>"
  using assms by (auto simp: method_call_def load_def store_iff split: Option.bind_splits)

end

section \<open>The common shape\<close>

definition create_endpoint ::
  "'m ros_env \<Rightarrow> ('h \<Rightarrow> 'm obj) \<Rightarrow> ('m obj \<Rightarrow> 'h option) \<Rightarrow> (ptr \<Rightarrow> 'h) \<Rightarrow> (bool \<Rightarrow> 'h \<Rightarrow> 'h) \<Rightarrow>
   (ptr \<Rightarrow> 'h \<Rightarrow> 'h) \<Rightarrow> string \<Rightarrow> string \<Rightarrow> string \<Rightarrow>
   (ptr \<Rightarrow> node_impl \<Rightarrow> string \<Rightarrow> ('i, 'm) world \<Rightarrow> (ptr \<times> ('i, 'm) world) option) \<Rightarrow>
   ptr \<Rightarrow> ptr \<Rightarrow> ptr \<Rightarrow> rmw_qos_profile option \<Rightarrow> ptr \<Rightarrow> ('i, 'm) world \<Rightarrow> (ptr \<times> ('i, 'm) world) option" where
  "create_endpoint env mk sel new set_loan set_topic qos_name options_name no_memory build_impl
       rmw_node type_support topic_name qos options w =
     ensure_not_null rmw_node ''rmw_node'' nullptr w (do {
       node \<leftarrow> load as_node rmw_node w;
       ensure_not_null (rn_context node) ''rmw_node->context'' nullptr w (do {
         ctx \<leftarrow> load as_context (rn_context node) w;
         ensure_not_null (rc_impl ctx) ''rmw_node->context->impl'' nullptr w (
         ensure_implementation (rn_identifier node) ''rmw_node->implementation_identifier'' nullptr w (
         ensure_not_null type_support ''type_support'' nullptr w (
         ensure_valid_typesupport env type_support nullptr w (\<lambda>w.
         ensure_not_null topic_name ''topic_name'' nullptr w (
         ensure_given qos qos_name nullptr w (\<lambda>qos.
         ensure_valid_qos qos nullptr w (do {
           topic \<leftarrow> load as_string topic_name w;
           (if qos_avoid_ros_namespace_conventions qos then (\<lambda>rest. rest)
            else ensure_valid (validate_full_topic_name env) ''invalid topic name: '' topic nullptr w) (
           ensure_not_null options options_name nullptr w (
           case rmw_allocate env (\<lambda>g. mk (new g)) w of
             (p, w) \<Rightarrow>
               if p = nullptr then fail nullptr no_memory w
               else
                 let (pod, w) = is_pod_typesupport env type_support w in do {
                 handle \<leftarrow> load sel p w;
                 w \<leftarrow> store mk p (set_loan pod handle) w;
                 case allocate_copy env topic w of
                   (Inl _, w) \<Rightarrow> do {
                     w \<leftarrow> rmw_free p w;
                     fail nullptr ''failed to allocate memory for topic name'' w }
                 | (Inr topic_ptr, w) \<Rightarrow> do {
                     handle \<leftarrow> load sel p w;
                     w \<leftarrow> store mk p (set_topic topic_ptr handle) w;
                     case unsafe_cast (rn_data node) w of
                       (Inl _, w) \<Rightarrow> do {
                         w \<leftarrow> rmw_free p w;
                         fail nullptr ''failed to retrieve Node'' w }
                     | (Inr node_ptr, w) \<Rightarrow> do {
                         node_impl \<leftarrow> load as_node_impl node_ptr w;
                         build_impl p node_impl topic w } } })) }))))))) }) })"

text \<open>What is left of the creation once the arguments are checked and the handle exists.\<close>

definition endpoint_object_step ::
  "(ptr \<Rightarrow> node_impl \<Rightarrow> string \<Rightarrow> ('i, 'm) world \<Rightarrow> (ptr \<times> ('i, 'm) world) option) \<Rightarrow> ptr \<Rightarrow> string \<Rightarrow> ptr \<Rightarrow>
   ('i, 'm) world \<Rightarrow> (ptr \<times> ('i, 'm) world) option" where
  "endpoint_object_step build_impl data topic p w =
     (case unsafe_cast data w of
        (Inl _, w) \<Rightarrow> do { w \<leftarrow> rmw_free p w; fail nullptr ''failed to retrieve Node'' w }
      | (Inr node_ptr, w) \<Rightarrow> do { node_impl \<leftarrow> load as_node_impl node_ptr w; build_impl p node_impl topic w })"

definition endpoint_steps ::
  "'m ros_env \<Rightarrow> ('h \<Rightarrow> 'm obj) \<Rightarrow> ('m obj \<Rightarrow> 'h option) \<Rightarrow> (bool \<Rightarrow> 'h \<Rightarrow> 'h) \<Rightarrow> (ptr \<Rightarrow> 'h \<Rightarrow> 'h) \<Rightarrow>
   (ptr \<Rightarrow> node_impl \<Rightarrow> string \<Rightarrow> ('i, 'm) world \<Rightarrow> (ptr \<times> ('i, 'm) world) option) \<Rightarrow> ptr \<Rightarrow> ptr \<Rightarrow> string \<Rightarrow> ptr \<Rightarrow>
   ('i, 'm) world \<Rightarrow> (ptr \<times> ('i, 'm) world) option" where
  "endpoint_steps env mk sel set_loan set_topic build_impl ts data topic p w =
     (let (pod, w) = is_pod_typesupport env ts w in do {
        handle \<leftarrow> load sel p w;
        w \<leftarrow> store mk p (set_loan pod handle) w;
        copy_into env topic mk sel set_topic p (rmw_free p) ''failed to allocate memory for topic name''
          (\<lambda>_. endpoint_object_step build_impl data topic p) w })"

lemma create_endpoint_simp:
  fixes w :: "('i, 'm) world"
  assumes wf: "world_wf w" and args: "endpoint_arguments_ok env rmw_node ts topic_name qos options topic w"
  obtains w0 d q where "sys.more w0 = sys.more w" "heap w d = Some (NodeObj q)" "node_wf q" "d \<noteq> nullptr"
    "create_endpoint env mk sel new set_loan set_topic qn opn m0 build_impl rmw_node ts topic_name (Some qos) options w =
       (case rmw_allocate env (\<lambda>g. mk (new g)) w0 of
          (p, w) \<Rightarrow> if p = nullptr then fail nullptr m0 w
                    else endpoint_steps env mk sel set_loan set_topic build_impl ts d topic p w)"
proof -
  from args obtain n c ctx d where n: "heap w rmw_node = Some (NodeHandle n)" "rn_identifier n = Iox2Ident"
    and cr: "context_ready (rn_context n) c ctx w" and d: "heap w (rn_data n) = Some (NodeObj d)" "node_wf d"
    and tsn: "ts \<noteq> nullptr" "typesupport_valid env ts" and tn: "heap w topic_name = Some (CString topic)"
    and q: "qos_known qos" "qos_avoid_ros_namespace_conventions qos \<or> validate_full_topic_name env topic = Inr None"
    and opt: "options \<noteq> nullptr"
    by (auto simp: endpoint_arguments_ok_def)
  from cr obtain h where h: "load as_context (rn_context n) w = Some h" "rc_impl h = c"
    and cn: "rn_context n \<noteq> nullptr" "c \<noteq> nullptr" by (auto simp: context_ready_def context_handle.load_iff)
  have nz: "rmw_node \<noteq> nullptr" "rn_data n \<noteq> nullptr" "topic_name \<noteq> nullptr"
    using wf n d tn by (auto simp: world_wf_def)
  obtain w0 where w0: "\<And>r rest. ensure_valid_typesupport env ts r w rest =
      (rest w0 :: (ptr \<times> ('i, 'm) world) option)" "sys.more w0 = sys.more w"
    using ensure_valid_typesupport_ok [OF tsn(2)] by blast
  have ld: "load as_node rmw_node w = Some n" "load as_string topic_name w0 = Some topic"
    using n tn world_more [OF w0(2)] by (simp_all add: load_def)
  have qos: "ensure_valid_qos qos nullptr w0 rest = rest" for rest :: "(ptr \<times> ('i, 'm) world) option"
    using q(1) by (auto simp: ensure_valid_qos_def qos_known_def)
  have nm: "(if qos_avoid_ros_namespace_conventions qos then (\<lambda>rest. rest)
      else ensure_valid (validate_full_topic_name env) m topic nullptr w0) rest = rest"
    for m and rest :: "(ptr \<times> ('i, 'm) world) option"
    using q(2) by (auto simp: ensure_valid_def)
  show thesis
    by (rule that [OF w0(2) d nz(2)])
      (unfold create_endpoint_def endpoint_steps_def endpoint_object_step_def copy_into_def ld h ensure_ok(1) [OF nz(1)]
        ensure_ok(1) [OF nz(3)] ensure_ok(1) [OF cn(1)] ensure_ok(1) [OF cn(2)] ensure_ok(1) [OF tsn(1)]
        ensure_ok(1) [OF opt] ensure_ok(2) [OF n(2)] Option.bind.bind_lunit w0(1) ensure_given_Some qos nm, rule refl)
qed

locale endpoint_handle = object_kind mk sel
  for mk :: "'h \<Rightarrow> 'm obj" and sel +
  fixes handle :: "ptr \<Rightarrow> ptr \<Rightarrow> bool \<Rightarrow> 'h" and set_loan :: "bool \<Rightarrow> 'h \<Rightarrow> 'h"
    and set_topic set_data :: "ptr \<Rightarrow> 'h \<Rightarrow> 'h"
  assumes set_loan: "set_loan b (handle q t c) = handle q t b"
    and set_topic: "set_topic s (handle q t c) = handle q s c"
    and set_data: "set_data r (handle q t c) = handle r t c"
begin

lemma endpoint_steps_cases:
  fixes w1 :: "('i, 'm) world"
  assumes wf: "world_wf w1" and h1: "heap w1 = h(p \<mapsto> mk (handle g g False))" and hp: "h p = None"
    and d: "h data = Some (NodeObj d)" "node_wf d" "data \<noteq> nullptr" and kind: "object_kind mk_impl sel_impl"
    and ok: "\<And>d (w1 :: ('i, 'm) world). node_wf d \<Longrightarrow> ctor_ok good errmsg (ctor d topic w1)"
    and frame: "\<And>d (w1 :: ('i, 'm) world) r w2. ctor d topic w1 = Some (r, w2) \<Longrightarrow> sys.more w2 = sys.more w1"
    and build_impl: "\<And>p d w. build_impl p d topic w =
      create_impl env inv_error mk_impl sel_impl dtor (ctor d topic) (rmw_free p) (handle_finish mk sel set_data p) m1 m2 w"
  obtains w' t where "endpoint_steps env mk sel set_loan set_topic build_impl ts data topic p w1 = Some (nullptr, w')"
      "errmsg w' \<noteq> None" "world_wf w'" "heap w' = h \<or> h t = None \<and> heap w' = h(t \<mapsto> CString topic)"
  | t q i w' w0 w2 where "endpoint_steps env mk sel set_loan set_topic build_impl ts data topic p w1 = Some (p, w')"
      "q \<noteq> nullptr" "distinct [p, t, q]" "h t = None" "h q = None"
      "heap w' = h(p \<mapsto> mk (handle q t (pod_type env ts)), t \<mapsto> CString topic, q \<mapsto> mk_impl i)"
      "good i" "ctor d topic w0 = Some ((i, None), w2)" "world_wf w'"
proof -
  note none = that(1) and made = that(2)
  let ?H = "\<lambda>q t. mk (handle q t (pod_type env ts))"
  obtain w2 where pod: "is_pod_typesupport env ts w1 = (pod_type env ts, w2)" "sys.more w2 = sys.more w1"
    using is_pod_typesupport_result by blast
  let ?w3 = "w2\<lparr>heap := h(p \<mapsto> ?H g g)\<rparr>"
  have h2: "heap w2 p = Some (mk (handle g g False))" "world_wf w2"
    using world_more [OF pod(2)] world_wf_cong [of w2 w1] h1 wf by simp_all
  have wf3: "world_wf ?w3"
    using world_wf_upd [OF h2(2), of p "Some (?H g g)"] h2(1) world_more [OF pod(2)] h1 by simp
  have steps: "endpoint_steps env mk sel set_loan set_topic build_impl ts data topic p w1 =
      copy_into env topic mk sel set_topic p (rmw_free p) ''failed to allocate memory for topic name''
        (\<lambda>_. endpoint_object_step build_impl data topic p) ?w3"
    using h2(1) world_more [OF pod(2)] h1 by (simp add: endpoint_steps_def pod load_def store_def set_loan)
  have h3: "heap ?w3 p = Some (?H g g)" by simp
  show thesis
  proof (rule copy_into_cases [OF object_kind_axioms wf3 h3, of env topic set_topic "rmw_free p"
        "''failed to allocate memory for topic name''" "\<lambda>_. endpoint_object_step build_impl data topic p"], goal_cases)
    case (1 w4)
    then have "world_wf (w4\<lparr>heap := h\<rparr>)" by (intro world_wf_sub) auto
    with 1 hp show ?case
      by (intro none [of "chain ''failed to allocate memory for topic name'' (w4\<lparr>heap := h\<rparr>)" nullptr])
        (simp_all add: steps rmw_free_simp fail_def fun_upd_idem)
  next
    case (2 t w4)
    have t: "t \<noteq> p" "h t = None" using 2(3,4) by (auto split: if_splits)
    have h4: "heap w4 = h(t \<mapsto> CString topic, p \<mapsto> ?H g t)" using 2(5) t by (simp add: set_topic fun_upd_twist)
    have "load as_node_impl data w4 = Some d" using h4 d(1) hp t by (auto simp: load_def)
    with 2(1) steps have def: "endpoint_steps env mk sel set_loan set_topic build_impl ts data topic p w1 =
        create_impl env inv_error mk_impl sel_impl dtor (ctor d topic) (rmw_free p) (handle_finish mk sel set_data p) m1 m2 w4"
      using d(3) by (simp add: endpoint_object_step_def unsafe_cast_ok build_impl)
    have hp4: "heap w4 p = Some (?H g t)" using h4 by simp
    show ?case
    proof (rule object_kind.create_handle_plain_cases [OF kind object_kind_axioms 2(6) hp4, where good = good
          and ctor = "ctor d topic" and env = env
          and invariant = inv_error and dtor = dtor and set_data = set_data and ?m1.0 = m1 and ?m2.0 = m2], goal_cases)
      case (1 w2)
      show ?case by (rule ok [OF d(2)])
    next
      case (2 w2 r w3)
      then show ?case by (rule frame)
    next
      case (3 w')
      then show ?case using t h4 hp by (intro none [of w' t]) (simp_all add: def fun_upd_idem)
    next
      case (4 q i w' w0 w2)
      have "q \<noteq> t" "h q = None" using 4(4) h4 by (auto split: if_splits)
      with 4 t h4 show ?case by (intro made [of w' q t i w0 w2]) (auto simp: def set_data fun_eq_iff)
    qed
  qed
qed

lemma create_cases:
  fixes w :: "('i, 'm) world"
  assumes wf: "world_wf w" and args: "endpoint_arguments_ok env rmw_node ts topic_name qos options topic w"
    and kind: "object_kind mk_impl sel_impl"
    and ok: "\<And>d (w1 :: ('i, 'm) world). node_wf d \<Longrightarrow> ctor_ok good errmsg (ctor d topic w1)"
    and frame: "\<And>d (w1 :: ('i, 'm) world) r w2. ctor d topic w1 = Some (r, w2) \<Longrightarrow> sys.more w2 = sys.more w1"
    and build_impl: "\<And>p d w. build_impl p d topic w =
      create_impl env inv_error mk_impl sel_impl dtor (ctor d topic) (rmw_free p)
        (\<lambda>q w. do { h \<leftarrow> load sel p w; w \<leftarrow> store mk p (set_data q h) w; Some (p, w) }) m1 m2 w"
  obtains w' t where
      "create_endpoint env mk sel (\<lambda>g. handle g g False) set_loan set_topic qn opn m0 build_impl rmw_node ts topic_name (Some qos) options w =
         Some (nullptr, w')"
      "errmsg w' \<noteq> None" "world_wf w'" "heap w' = heap w \<or> heap w t = None \<and> heap w' = (heap w)(t \<mapsto> CString topic)"
  | p t q i w' d w0 w1 where
      "create_endpoint env mk sel (\<lambda>g. handle g g False) set_loan set_topic qn opn m0 build_impl rmw_node ts topic_name (Some qos) options w =
         Some (p, w')"
      "p \<noteq> nullptr" "q \<noteq> nullptr" "distinct [p, t, q]" "heap w p = None" "heap w t = None" "heap w q = None"
      "heap w' = (heap w)(p \<mapsto> mk (handle q t (pod_type env ts)), t \<mapsto> CString topic, q \<mapsto> mk_impl i)"
      "good i" "ctor d topic w0 = Some ((i, None), w1)" "world_wf w'"
proof -
  note none = that(1) and made = that(2)
  let ?new = "\<lambda>g. handle g g False"
  let ?create = "create_endpoint env mk sel ?new set_loan set_topic qn opn m0 build_impl rmw_node ts topic_name (Some qos) options w"
  obtain w0 da d where w0: "sys.more w0 = sys.more w" and d: "heap w da = Some (NodeObj d)" "node_wf d" "da \<noteq> nullptr"
    and def: "?create = (case rmw_allocate env (\<lambda>g. mk (?new g)) w0 of
          (p, w) \<Rightarrow> if p = nullptr then fail nullptr m0 w
                    else endpoint_steps env mk sel set_loan set_topic build_impl ts da topic p w)"
    by (rule create_endpoint_simp [OF wf args])
  have hw0: "heap w0 = heap w" and wf0: "world_wf w0"
    using world_more [OF w0] world_wf_cong [of w0 w] wf by simp_all
  show thesis
  proof (rule rmw_allocate_cases [OF wf0, of env "\<lambda>g. mk (?new g)"])
    fix w1 assume "rmw_allocate env (\<lambda>g. mk (?new g)) w0 = (nullptr, w1)" "heap w1 = heap w0" "world_wf w1"
    then show thesis using hw0 by (intro none [of "chain m0 w1" nullptr]) (simp_all add: def fail_def)
  next
    fix p g w1
    assume p: "rmw_allocate env (\<lambda>g. mk (?new g)) w0 = (p, w1)" "p \<noteq> nullptr" "heap w0 p = None"
      "heap w1 = (heap w0)(p \<mapsto> mk (?new g))" "world_wf w1"
    show thesis
    proof (rule endpoint_steps_cases [OF p(5) p(4) [unfolded hw0] p(3) [unfolded hw0] d kind, where ctor = ctor and topic = topic
          and good = good and build_impl = build_impl and env = env and ts = ts and inv_error = inv_error and dtor = dtor
          and ?m1.0 = m1 and ?m2.0 = m2], goal_cases)
      case (1 d w)
      then show ?case by (rule ok)
    next
      case (2 d w r w')
      then show ?case by (rule frame)
    next
      case (3 p d w)
      show ?case by (rule build_impl [folded handle_finish_fun])
    qed (use p def in \<open>auto intro: none made simp: hw0\<close>)
  qed
qed

end

end
