(* ===== verification/Rmw_Publisher.thy ===== *)
theory Rmw_Publisher
  imports Rmw_Serialize Rmw_Endpoint
begin

text \<open>
  \<open>rmw/publisher.cpp\<close>: creating and destroying publishers through the C interface, and the ways to
  publish: by copying a self-contained message, by serializing any other into a loan, by a loan the
  caller fills, and by bytes that are serialized already.
\<close>

section \<open>Creation and destruction\<close>

text \<open>On every failure the handle is freed, but not the copy of the topic's name.\<close>

definition rmw_create_publisher ::
  "'i iox2 \<Rightarrow> 'm ros_env \<Rightarrow> ptr \<Rightarrow> ptr \<Rightarrow> ptr \<Rightarrow> rmw_qos_profile option \<Rightarrow> ptr \<Rightarrow> ('i, 'm) world \<Rightarrow>
   (ptr \<times> ('i, 'm) world) option" where
  "rmw_create_publisher api env rmw_node type_support topic_name qos publisher_options w =
     ensure_not_null rmw_node ''rmw_node'' nullptr w (do {
       node \<leftarrow> load as_node rmw_node w;
       ensure_not_null (rn_context node) ''rmw_node->context'' nullptr w (do {
         ctx \<leftarrow> load as_context (rn_context node) w;
         ensure_not_null (rc_impl ctx) ''rmw_node->context->impl'' nullptr w (
         ensure_implementation (rn_identifier node) ''rmw_node->implementation_identifier'' nullptr w (
         ensure_not_null type_support ''type_support'' nullptr w (
         ensure_valid_typesupport env type_support nullptr w (\<lambda>w.
         ensure_not_null topic_name ''topic_name'' nullptr w (
         ensure_given qos ''qos'' nullptr w (\<lambda>qos.
         ensure_valid_qos qos nullptr w (do {
           topic \<leftarrow> load as_string topic_name w;
           (if qos_avoid_ros_namespace_conventions qos then (\<lambda>rest. rest)
            else ensure_valid (validate_full_topic_name env) ''invalid topic name: '' topic nullptr w) (
           ensure_not_null publisher_options ''publisher_options'' nullptr w (
           case rmw_allocate env (\<lambda>g. PublisherHandle
                  \<lparr>rp_identifier = rmw_get_implementation_identifier, rp_data = g, rp_topic_name = g,
                   rp_can_loan_messages = False\<rparr>) w of
             (rmw_publisher, w) \<Rightarrow>
               if rmw_publisher = nullptr then fail nullptr ''failed to allocate memory for rmw_publisher_t'' w
               else
                 let (pod, w) = is_pod_typesupport env type_support w in do {
                 handle \<leftarrow> load as_publisher rmw_publisher w;
                 w \<leftarrow> store PublisherHandle rmw_publisher (handle\<lparr>rp_can_loan_messages := pod\<rparr>) w;
                 case allocate_copy env topic w of
                   (Inl _, w) \<Rightarrow> do {
                     w \<leftarrow> rmw_free rmw_publisher w;
                     fail nullptr ''failed to allocate memory for topic name'' w }
                 | (Inr topic_ptr, w) \<Rightarrow> do {
                     handle \<leftarrow> load as_publisher rmw_publisher w;
                     w \<leftarrow> store PublisherHandle rmw_publisher (handle\<lparr>rp_topic_name := topic_ptr\<rparr>) w;
                     case unsafe_cast (rn_data node) w of
                       (Inl _, w) \<Rightarrow> do {
                         w \<leftarrow> rmw_free rmw_publisher w;
                         fail nullptr ''failed to retrieve Node'' w }
                     | (Inr node_ptr, w) \<Rightarrow> do {
                         node_impl \<leftarrow> load as_node_impl node_ptr w;
                         create_impl env Pub_INVARIANT_VIOLATION PublisherObj as_publisher_impl
                           (Publisher_dtor api) (Publisher_ctor api env node_impl topic type_support)
                           (rmw_free rmw_publisher)
                           (\<lambda>publisher_impl w. do {
                              handle \<leftarrow> load as_publisher rmw_publisher w;
                              w \<leftarrow> store PublisherHandle rmw_publisher (handle\<lparr>rp_data := publisher_impl\<rparr>) w;
                              Some (rmw_publisher, w) })
                           ''failed to allocate memory for Publisher'' ''failed to construct Publisher'' w } } })) }))))))) }) })"

definition rmw_destroy_publisher ::
  "'i iox2 \<Rightarrow> ptr \<Rightarrow> ptr \<Rightarrow> ('i, 'm) world \<Rightarrow> (rmw_ret \<times> ('i, 'm) world) option" where
  "rmw_destroy_publisher api rmw_node rmw_publisher w =
     ensure_not_null rmw_node ''rmw_node'' RMW_RET_INVALID_ARGUMENT w (do {
       node \<leftarrow> load as_node rmw_node w;
       ensure_implementation (rn_identifier node) ''rmw_node->implementation_identifier''
         RMW_RET_INCORRECT_RMW_IMPLEMENTATION w (
       ensure_not_null rmw_publisher ''rmw_publisher'' RMW_RET_INVALID_ARGUMENT w (do {
         handle \<leftarrow> load as_publisher rmw_publisher w;
         ensure_implementation (rp_identifier handle) ''rmw_publisher->implementation_identifier''
           RMW_RET_INCORRECT_RMW_IMPLEMENTATION w (do {
           w \<leftarrow> (if rp_data handle \<noteq> nullptr
                 then do {
                   w \<leftarrow> destruct as_publisher_impl (Publisher_dtor api) (rp_data handle) w;
                   w \<leftarrow> deallocate (rp_data handle) w;
                   store PublisherHandle rmw_publisher (handle\<lparr>rp_data := nullptr\<rparr>) w }
                 else Some w);
           w \<leftarrow> rmw_free rmw_publisher w;
           Some (RMW_RET_OK, w) }) })) })"

section \<open>Publishing\<close>

text \<open>The call of a method of the publisher at an address.\<close>

abbreviation publisher_method ::
  "ptr \<Rightarrow> (publisher_impl \<Rightarrow> ('i, 'm) world \<Rightarrow> ('r \<times> publisher_impl \<times> ('i, 'm) world) option) \<Rightarrow>
   ('i, 'm) world \<Rightarrow> ('r \<times> ('i, 'm) world) option" where
  "publisher_method \<equiv> method_call PublisherObj as_publisher_impl"

text \<open>
  The message to serialize into is a structure on the stack over the loaned payload. A failure of
  the serialization returns without ending the loan.
\<close>

definition rmw_publish ::
  "'i iox2 \<Rightarrow> 'm ros_env \<Rightarrow> ptr \<Rightarrow> ptr \<Rightarrow> ('i, 'm) world \<Rightarrow> (rmw_ret \<times> ('i, 'm) world) option" where
  "rmw_publish api env rmw_publisher ros_message w =
     ensure_not_null rmw_publisher ''rmw_publisher'' RMW_RET_INVALID_ARGUMENT w (do {
       handle \<leftarrow> load as_publisher rmw_publisher w;
       ensure_implementation (rp_identifier handle) ''rmw_publisher->implementation_identifier''
         RMW_RET_INCORRECT_RMW_IMPLEMENTATION w (
       ensure_not_null ros_message ''ros_message'' RMW_RET_INVALID_ARGUMENT w (
         case unsafe_cast (rp_data handle) w of
           (Inl _, w) \<Rightarrow> fail RMW_RET_ERROR ''failed to retrieve Publisher'' w
         | (Inr publisher_impl, w) \<Rightarrow> do {
             p \<leftarrow> load as_publisher_impl publisher_impl w;
             msg \<leftarrow> load as_message ros_message w;
             if rp_can_loan_messages handle
             then do {
               (result, w) \<leftarrow> publisher_method publisher_impl
                 (Publisher_publish_copy api (msg_bytes env msg (pub_unserialized_size p))) w;
               case result of
                 Inl _ \<Rightarrow> fail RMW_RET_ERROR ''failed to publish copy'' w
               | Inr _ \<Rightarrow> Some (RMW_RET_OK, w) }
             else do {
               (serialized_size, w) \<leftarrow> serialized_message_size env msg (pub_typesupport p) w;
               (loan, w) \<leftarrow> publisher_method publisher_impl (Publisher_loan api serialized_size) w;
               case loan of
                 Inl _ \<Rightarrow> fail RMW_RET_ERROR ''failed to loan bytes required for serialization'' w
               | Inr payload \<Rightarrow> do {
                   ((result, _), w) \<leftarrow> rmw_serialize api env ros_message (pub_typesupport p)
                     (Some \<lparr>sm_buffer = payload, sm_length = serialized_size, sm_capacity = serialized_size\<rparr>) w;
                   if result \<noteq> RMW_RET_OK
                   then fail RMW_RET_ERROR ''failed to serialize into loaned payload'' w
                   else do {
                     (result, w) \<leftarrow> publisher_method publisher_impl (Publisher_publish_loan api payload) w;
                     case result of
                       Inl _ \<Rightarrow> fail RMW_RET_ERROR ''failed to publish serialized payload'' w
                     | Inr _ \<Rightarrow> Some (RMW_RET_OK, w) } } } })) })"

text \<open>\<open>void** ros_message\<close>: \<open>None\<close> for a null argument, or else the pointer it points to.\<close>

definition rmw_borrow_loaned_message ::
  "'i iox2 \<Rightarrow> 'm ros_env \<Rightarrow> ptr \<Rightarrow> ptr \<Rightarrow> ptr option \<Rightarrow> ('i, 'm) world \<Rightarrow>
   ((rmw_ret \<times> ptr option) \<times> ('i, 'm) world) option" where
  "rmw_borrow_loaned_message api env rmw_publisher type_support ros_message w =
     (let ret = \<lambda>r. (r, ros_message) in
      ensure_not_null rmw_publisher ''rmw_publisher'' (ret RMW_RET_INVALID_ARGUMENT) w (do {
        handle \<leftarrow> load as_publisher rmw_publisher w;
        ensure_not_null (rp_data handle) ''rmw_publisher->data'' (ret RMW_RET_INVALID_ARGUMENT) w (
        ensure_implementation (rp_identifier handle) ''rmw_publisher->implementation_identifier''
          (ret RMW_RET_INCORRECT_RMW_IMPLEMENTATION) w (
        ensure_not_null type_support ''type_support'' (ret RMW_RET_INVALID_ARGUMENT) w (
        ensure_given ros_message ''ros_message'' (ret RMW_RET_INVALID_ARGUMENT) w (\<lambda>current.
        ensure_null current ''*ros_message'' (ret RMW_RET_INVALID_ARGUMENT) w (
          if \<not> rp_can_loan_messages handle
          then fail (ret RMW_RET_INVALID_ARGUMENT) ''non-self-contained messages do not support loaning'' w
          else
            case unsafe_cast (rp_data handle) w of
              (Inl _, w) \<Rightarrow> fail (ret RMW_RET_ERROR) ''failed to retrieve Publisher'' w
            | (Inr publisher_impl, w) \<Rightarrow> do {
                p \<leftarrow> load as_publisher_impl publisher_impl w;
                (n, w) \<leftarrow> message_size env (pub_typesupport p) w;
                (loan, w) \<leftarrow> publisher_method publisher_impl (Publisher_loan api n) w;
                case loan of
                  Inl _ \<Rightarrow> fail (ret RMW_RET_ERROR) ''failed to loan memory for publisher payload'' w
                | Inr payload \<Rightarrow> Some ((RMW_RET_OK, Some payload), w) }))))) }))"

definition rmw_return_loaned_message_from_publisher ::
  "'i iox2 \<Rightarrow> ptr \<Rightarrow> ptr \<Rightarrow> ('i, 'm) world \<Rightarrow> (rmw_ret \<times> ('i, 'm) world) option" where
  "rmw_return_loaned_message_from_publisher api rmw_publisher loaned_message w =
     ensure_not_null rmw_publisher ''rmw_publisher'' RMW_RET_INVALID_ARGUMENT w (
     ensure_not_null loaned_message ''loaned_message'' RMW_RET_INVALID_ARGUMENT w (do {
       handle \<leftarrow> load as_publisher rmw_publisher w;
       ensure_implementation (rp_identifier handle) ''rmw_publisher->implementation_identifier''
         RMW_RET_INCORRECT_RMW_IMPLEMENTATION w (
         if \<not> rp_can_loan_messages handle
         then fail RMW_RET_INVALID_ARGUMENT ''non-self-contained messages do not support loaning'' w
         else
           case unsafe_cast (rp_data handle) w of
             (Inl _, w) \<Rightarrow> fail RMW_RET_ERROR ''failed to retrieve Publisher'' w
           | (Inr publisher_impl, w) \<Rightarrow> do {
               (result, w) \<leftarrow> publisher_method publisher_impl (Publisher_return_loan api loaned_message) w;
               case result of
                 Inl _ \<Rightarrow> fail RMW_RET_ERROR ''failed to return loaned message to publisher'' w
               | Inr _ \<Rightarrow> Some (RMW_RET_OK, w) }) }))"

definition rmw_publish_loaned_message ::
  "'i iox2 \<Rightarrow> ptr \<Rightarrow> ptr \<Rightarrow> ('i, 'm) world \<Rightarrow> (rmw_ret \<times> ('i, 'm) world) option" where
  "rmw_publish_loaned_message api rmw_publisher ros_message w =
     ensure_not_null rmw_publisher ''rmw_publisher'' RMW_RET_INVALID_ARGUMENT w (do {
       handle \<leftarrow> load as_publisher rmw_publisher w;
       ensure_implementation (rp_identifier handle) ''rmw_publisher->implementation_identifier''
         RMW_RET_INCORRECT_RMW_IMPLEMENTATION w (
       ensure_not_null ros_message ''ros_message'' RMW_RET_INVALID_ARGUMENT w (
         case unsafe_cast (rp_data handle) w of
           (Inl _, w) \<Rightarrow> fail RMW_RET_ERROR ''failed to retrieve Publisher'' w
         | (Inr publisher_impl, w) \<Rightarrow> do {
             (result, w) \<leftarrow> publisher_method publisher_impl (Publisher_publish_loan api ros_message) w;
             case result of
               Inl _ \<Rightarrow> fail RMW_RET_ERROR ''failed to publish loaned message'' w
             | Inr _ \<Rightarrow> Some (RMW_RET_OK, w) })) })"

definition rmw_publish_serialized_message ::
  "'i iox2 \<Rightarrow> ptr \<Rightarrow> rmw_serialized_message option \<Rightarrow> ('i, 'm) world \<Rightarrow> (rmw_ret \<times> ('i, 'm) world) option" where
  "rmw_publish_serialized_message api rmw_publisher serialized_message w =
     ensure_not_null rmw_publisher ''rmw_publisher'' RMW_RET_INVALID_ARGUMENT w (do {
       handle \<leftarrow> load as_publisher rmw_publisher w;
       ensure_implementation (rp_identifier handle) ''rmw_publisher->implementation_identifier''
         RMW_RET_INCORRECT_RMW_IMPLEMENTATION w (
       ensure_given serialized_message ''serialized_message'' RMW_RET_INVALID_ARGUMENT w (\<lambda>sm.
         case unsafe_cast (rp_data handle) w of
           (Inl _, w) \<Rightarrow> fail RMW_RET_ERROR ''failed to retrieve Publisher'' w
         | (Inr publisher_impl, w) \<Rightarrow> do {
             bytes \<leftarrow> read_buffer api (sm_buffer sm) (sm_length sm) w;
             (result, w) \<leftarrow> publisher_method publisher_impl (Publisher_publish_copy api bytes) w;
             case result of
               Inl _ \<Rightarrow> fail RMW_RET_ERROR ''failed to publish copy'' w
             | Inr _ \<Rightarrow> Some (RMW_RET_OK, w) })) })"

section \<open>Queries\<close>

definition rmw_publisher_get_actual_qos ::
  "'m ros_env \<Rightarrow> ptr \<Rightarrow> rmw_qos_profile option \<Rightarrow> ('i, 'm) world \<Rightarrow>
   ((rmw_ret \<times> rmw_qos_profile option) \<times> ('i, 'm) world) option" where
  "rmw_publisher_get_actual_qos env rmw_publisher qos w =
     (let ret = \<lambda>r. (r, qos) in
      ensure_not_null rmw_publisher ''rmw_publisher'' (ret RMW_RET_INVALID_ARGUMENT) w (do {
        handle \<leftarrow> load as_publisher rmw_publisher w;
        ensure_implementation (rp_identifier handle) ''rmw_publisher->implementation_identifier''
          (ret RMW_RET_INCORRECT_RMW_IMPLEMENTATION) w (
        ensure_given qos ''qos'' (ret RMW_RET_INVALID_ARGUMENT) w (\<lambda>_.
          Some ((RMW_RET_OK, Some (qos_profile_default env)), w))) }))"

definition rmw_publisher_count_matched_subscriptions ::
  "ptr \<Rightarrow> ptr \<Rightarrow> ('i, 'm) world \<Rightarrow> (rmw_ret \<times> ('i, 'm) world) option" where
  "rmw_publisher_count_matched_subscriptions rmw_publisher subscription_count w =
     ensure_not_null rmw_publisher ''rmw_publisher'' RMW_RET_INVALID_ARGUMENT w (
     ensure_not_null subscription_count ''subscription_count'' RMW_RET_INVALID_ARGUMENT w (do {
       handle \<leftarrow> load as_publisher rmw_publisher w;
       ensure_implementation (rp_identifier handle) ''rmw_publisher->implementation_identifier''
         RMW_RET_INCORRECT_RMW_IMPLEMENTATION w (
         Some (RMW_RET_UNSUPPORTED, w)) }))"

text \<open>Entry points without an implementation.\<close>

definition rmw_get_serialized_message_size :: rmw_ret where
  "rmw_get_serialized_message_size = RMW_RET_UNSUPPORTED"

definition rmw_init_publisher_allocation :: rmw_ret where
  "rmw_init_publisher_allocation = RMW_RET_UNSUPPORTED"

definition rmw_fini_publisher_allocation :: rmw_ret where
  "rmw_fini_publisher_allocation = RMW_RET_UNSUPPORTED"

definition rmw_publisher_assert_liveliness :: rmw_ret where
  "rmw_publisher_assert_liveliness = RMW_RET_UNSUPPORTED"

definition rmw_publisher_wait_for_all_acked :: rmw_ret where
  "rmw_publisher_wait_for_all_acked = RMW_RET_UNSUPPORTED"

definition rmw_publisher_get_network_flow_endpoints :: rmw_ret where
  "rmw_publisher_get_network_flow_endpoints = RMW_RET_UNSUPPORTED"

section \<open>Creation\<close>

definition publisher_handle :: "ptr \<Rightarrow> ptr \<Rightarrow> bool \<Rightarrow> rmw_publisher" where
  "publisher_handle q t pod =
     \<lparr>rp_identifier = Iox2Ident, rp_data = q, rp_topic_name = t, rp_can_loan_messages = pod\<rparr>"

lemma publisher_handle_simps [simp]:
  "rp_identifier (publisher_handle q t pod) = Iox2Ident" "rp_data (publisher_handle q t pod) = q"
  "rp_topic_name (publisher_handle q t pod) = t" "rp_can_loan_messages (publisher_handle q t pod) = pod"
  "(publisher_handle q t pod)\<lparr>rp_data := q'\<rparr> = publisher_handle q' t pod"
  "(publisher_handle q t pod)\<lparr>rp_topic_name := t'\<rparr> = publisher_handle q t' pod"
  "(publisher_handle q t pod)\<lparr>rp_can_loan_messages := pod'\<rparr> = publisher_handle q t pod'"
  by (simp_all add: publisher_handle_def)

lemma message_size_more: "message_size env ts w = Some (n, w') \<Longrightarrow> sys.more w' = sys.more w"
  by (auto simp: message_size_def typesupport_handle_def split: sum.splits option.splits Option.bind_splits)

lemma Publisher_ctor_frame:
  "Publisher_ctor api env node topic ts w = Some (r, w') \<Longrightarrow> sys.more w' = sys.more w"
  by (auto simp: Publisher_ctor_def Let_def dest!: call_more message_size_more
      split: Option.bind_splits sum.splits prod.splits)

lemma Publisher_ctor_fields:
  "Publisher_ctor api env node topic ts w = Some ((p, e), w') \<Longrightarrow>
   pub_topic p = topic \<and> pub_typesupport p = ts \<and> pub_service_name p = names_topic topic \<and> pub_registry p = []"
  by (auto simp: Publisher_ctor_def Let_def split: Option.bind_splits sum.splits prod.splits)

interpretation publisher_endpoint: endpoint_handle PublisherHandle as_publisher publisher_handle
  "\<lambda>pod h. h\<lparr>rp_can_loan_messages := pod\<rparr>" "\<lambda>t h. h\<lparr>rp_topic_name := t\<rparr>" "\<lambda>q h. h\<lparr>rp_data := q\<rparr>"
  by unfold_locales simp_all

definition publisher_construct ::
  "'i iox2 \<Rightarrow> 'm ros_env \<Rightarrow> ptr \<Rightarrow> ptr \<Rightarrow> node_impl \<Rightarrow> string \<Rightarrow> ('i, 'm) world \<Rightarrow> (ptr \<times> ('i, 'm) world) option" where
  "publisher_construct api env type_support p node_impl topic w =
     create_impl env Pub_INVARIANT_VIOLATION PublisherObj as_publisher_impl
       (Publisher_dtor api) (Publisher_ctor api env node_impl topic type_support) (rmw_free p)
       (\<lambda>q w. do {
          h \<leftarrow> load as_publisher p w;
          w \<leftarrow> store PublisherHandle p (h\<lparr>rp_data := q\<rparr>) w;
          Some (p, w) })
       ''failed to allocate memory for Publisher'' ''failed to construct Publisher'' w"

lemma rmw_create_publisher_endpoint:
  "rmw_create_publisher api env rmw_node ts topic_name qos options w =
   create_endpoint env PublisherHandle as_publisher (\<lambda>g. publisher_handle g g False)
     (\<lambda>pod h. h\<lparr>rp_can_loan_messages := pod\<rparr>) (\<lambda>t h. h\<lparr>rp_topic_name := t\<rparr>)
     ''qos'' ''publisher_options'' ''failed to allocate memory for rmw_publisher_t''
     (publisher_construct api env ts) rmw_node ts topic_name qos options w"
  unfolding rmw_create_publisher_def create_endpoint_def publisher_construct_def publisher_handle_def
    rmw_get_implementation_identifier_def ..

lemma create_publisher_cases:
  fixes w :: "('i, 'm) world"
  assumes wf: "world_wf w" and args: "endpoint_arguments_ok env rmw_node ts topic_name qos options topic w"
    and ts: "sizes_readable env ts"
  obtains w' t where "rmw_create_publisher api env rmw_node ts topic_name (Some qos) options w = Some (nullptr, w')"
      "errmsg w' \<noteq> None" "world_wf w'" "heap w' = heap w \<or> heap w t = None \<and> heap w' = (heap w)(t \<mapsto> CString topic)"
  | p t q i w' where "rmw_create_publisher api env rmw_node ts topic_name (Some qos) options w = Some (p, w')"
      "p \<noteq> nullptr" "q \<noteq> nullptr" "distinct [p, t, q]" "heap w p = None" "heap w t = None" "heap w q = None"
      "heap w' = (heap w)(p \<mapsto> PublisherHandle (publisher_handle q t (pod_type env ts)), t \<mapsto> CString topic,
         q \<mapsto> PublisherObj i)"
      "publisher_wf i" "pub_topic i = topic" "pub_typesupport i = ts" "pub_registry i = []" "world_wf w'"
proof -
  show thesis
  proof (rule publisher_endpoint.create_cases [OF wf args publisher_obj.object_kind_axioms,
        where ctor = "\<lambda>d topic. Publisher_ctor api env d topic ts" and good = publisher_wf
        and build_impl = "publisher_construct api env ts" and qn = "''qos''" and opn = "''publisher_options''"
        and ?m0.0 = "''failed to allocate memory for rmw_publisher_t''", OF _ _ publisher_construct_def,
        folded rmw_create_publisher_endpoint], goal_cases)
    case (1 d w)
    then show ?case by (rule Publisher_ctor_ok [OF _ ts])
  next
    case (2 d w r w')
    then show ?case by (rule Publisher_ctor_frame)
  next
    case (3 w' t)
    then show ?case by (rule that(1))
  next
    case (4 p t q i w' d w0 w1)
    with Publisher_ctor_fields [OF 4(10)] show ?case by (intro that(2)) auto
  qed
qed

section \<open>Destruction\<close>

lemma destroy_publisher:
  fixes w :: "('i, 'm) world"
  assumes wf: "world_wf w" and n: "heap w rmw_node = Some (NodeHandle n)" "rn_identifier n = Iox2Ident"
    and p: "heap w p = Some (PublisherHandle h)" "rp_identifier h = Iox2Ident"
    and q: "heap w (rp_data h) = Some (PublisherObj i)"
  shows "\<exists>w'. rmw_destroy_publisher api rmw_node p w = Some (RMW_RET_OK, w') \<and>
    heap w' = (heap w)(p := None, rp_data h := None) \<and> iox w' = Publisher_dtor api i (iox w) \<and>
    errmsg w' = errmsg w"
proof -
  have "rmw_node \<noteq> nullptr" "p \<noteq> nullptr" "rp_data h \<noteq> nullptr" "rp_data h \<noteq> p"
    using wf n p q by (auto simp: world_wf_def)
  with assms show ?thesis
    by (simp add: rmw_destroy_publisher_def ensure_ok load_def destruct_def deallocate_def
        rmw_free_def store_def run_iox_def fun_upd_twist)
qed

section \<open>Publishing\<close>

lemma publisher_methods_frame:
  "Publisher_loan api k i w = Some (r1, i', w') \<Longrightarrow> sys.more w' = sys.more w"
  "Publisher_return_loan api a i w = Some (r, i', w') \<Longrightarrow> sys.more w' = sys.more w"
  "Publisher_publish_loan api a i w = Some (r, i', w') \<Longrightarrow> sys.more w' = sys.more w"
  "Publisher_publish_copy api bs i w = Some (r, i', w') \<Longrightarrow> sys.more w' = sys.more w"
  by (auto simp: Publisher_loan_def Publisher_return_loan_def Publisher_publish_loan_def Publisher_publish_copy_def
      registry_store_def Let_def dest!: call_more
      split: Option.bind_splits sum.splits prod.splits if_splits SampleRegistryError.splits)

text \<open>A handle of this implementation for a complete publisher whose registry and port agree.\<close>

definition publisher_ready ::
  "('i \<Rightarrow> ptr set) \<Rightarrow> nat \<Rightarrow> ptr \<Rightarrow> rmw_publisher \<Rightarrow> publisher_impl \<Rightarrow> ('i, 'm) world \<Rightarrow> bool" where
  "publisher_ready loaned port p h i w \<longleftrightarrow>
     p \<noteq> nullptr \<and> rp_data h \<noteq> nullptr \<and> heap w p = Some (PublisherHandle h) \<and> rp_identifier h = Iox2Ident \<and>
     heap w (rp_data h) = Some (PublisherObj i) \<and> publisher_balanced loaned i w \<and> pub_publisher i = Some port"

lemma publisher_ready_cong:
  "heap w' = heap w \<Longrightarrow> iox w' = iox w \<Longrightarrow> publisher_ready loaned port p h i w' = publisher_ready loaned port p h i w"
  by (simp add: publisher_ready_def publisher_balanced_def)

lemma publisher_ready_chain [simp]:
  "publisher_ready loaned port p h i (chain m w) = publisher_ready loaned port p h i w"
  by (rule publisher_ready_cong) simp_all

lemma publisher_ready_loads:
  "publisher_ready loaned port p h i w \<Longrightarrow>
   load as_publisher p w = Some h \<and> load as_publisher_impl (rp_data h) w = Some i \<and>
   rp_identifier h = Iox2Ident \<and> p \<noteq> nullptr \<and> rp_data h \<noteq> nullptr"
  by (simp add: publisher_ready_def load_def)

text \<open>A method call on its object keeps it ready, whatever the call returns.\<close>

lemma publisher_method_ready:
  fixes w :: "('i, 'm) world"
  assumes r: "publisher_ready loaned port p h i w" and c: "loan_contract api port loaned"
    and f: "publisher_method (rp_data h) f w = Some (r, w')"
    and step: "\<And>i' (w1 :: ('i, 'm) world) r. f i w = Some (r, i', w1) \<Longrightarrow>
      publisher_step api (i, w) (i', w1) \<and> sys.more w1 = sys.more w"
  shows "\<exists>i'. publisher_ready loaned port p h i' w'"
proof -
  from publisher_ready_loads [OF r] f obtain i' w1 where
    w1: "f i w = Some (r, i', w1)" "store PublisherObj (rp_data h) i' w1 = Some w'"
    by (auto simp: method_call_def split: Option.bind_splits)
  from step [OF w1(1)] r c have "publisher_balanced loaned i' w1 \<and> pub_publisher i' = Some port"
    by (auto simp: publisher_ready_def dest: publisher_step_balanced)
  with r w1(2) world_more [of w1 w] step [OF w1(1)] show ?thesis
    by (auto simp: publisher_ready_def publisher_balanced_def store_def split: option.splits)
qed

lemma publisher_method_calls:
  fixes w :: "('i, 'm) world"
  assumes "publisher_ready loaned port p h i w" and "loan_contract api port loaned"
  shows "publisher_method (rp_data h) (Publisher_loan api k) w = Some (r1, w') \<Longrightarrow>
      \<exists>i'. publisher_ready loaned port p h i' w'"
    and "publisher_method (rp_data h) (Publisher_return_loan api a) w = Some (r, w') \<Longrightarrow>
      \<exists>i'. publisher_ready loaned port p h i' w'"
    and "publisher_method (rp_data h) (Publisher_publish_loan api a) w = Some (r, w') \<Longrightarrow>
      \<exists>i'. publisher_ready loaned port p h i' w'"
    and "publisher_method (rp_data h) (Publisher_publish_copy api bs) w = Some (r, w') \<Longrightarrow>
      \<exists>i'. publisher_ready loaned port p h i' w'"
  by (rule publisher_method_ready [OF assms], assumption,
      auto intro: publisher_step.intros dest: publisher_methods_frame)+

lemma write_buffer_ready_publisher:
  assumes "write_buffer api a bs w = Some w'" and "publisher_ready loaned port p h i w"
    and "loan_contract api port loaned"
  shows "publisher_ready loaned port p h i w'"
  using assms loan_contractD(9) [OF assms(3)]
  by (auto simp: write_buffer_def publisher_ready_def publisher_balanced_def run_iox_def
      split: option.splits obj.splits if_splits)

text \<open>The same as a postcondition, step by step.\<close>

definition publisher_up ::
  "('i \<Rightarrow> ptr set) \<Rightarrow> nat \<Rightarrow> ptr \<Rightarrow> rmw_publisher \<Rightarrow> ('i, 'm) world \<Rightarrow> bool" where
  "publisher_up loaned port p h w \<longleftrightarrow> (\<exists>i. publisher_ready loaned port p h i w)"

lemma publisher_up_chain [simp]: "publisher_up loaned port p h (chain m w) = publisher_up loaned port p h w"
  by (simp add: publisher_up_def)

lemma publisher_up_typesupport:
  "typesupport_handle th w = (d, w') \<Longrightarrow> publisher_up loaned port p h w \<Longrightarrow> publisher_up loaned port p h w'"
  by (auto simp: typesupport_handle_def publisher_up_def publisher_ready_def publisher_balanced_def
      split: sum.splits option.splits)

lemma publisher_up_sizes:
  fixes w :: "('i, 'm) world"
  assumes "publisher_up loaned port p h w"
  shows "post (publisher_up loaned port p h) (message_size env ts w)"
    and "post (publisher_up loaned port p h) (serialized_message_size env m ts w)"
  using assms
  by (auto simp: post_def message_size_def serialized_message_size_def
      dest: publisher_up_typesupport split: prod.splits option.splits Option.bind_splits if_splits)

lemma publisher_up_methods:
  fixes w :: "('i, 'm) world"
  assumes "publisher_up loaned port p h w" and "loan_contract api port loaned"
  shows "post (publisher_up loaned port p h) (publisher_method (rp_data h) (Publisher_loan api k) w)"
    and "post (publisher_up loaned port p h) (publisher_method (rp_data h) (Publisher_return_loan api a) w)"
    and "post (publisher_up loaned port p h) (publisher_method (rp_data h) (Publisher_publish_loan api a) w)"
    and "post (publisher_up loaned port p h) (publisher_method (rp_data h) (Publisher_publish_copy api bs) w)"
  using assms by (auto simp: post_def publisher_up_def dest: publisher_method_calls)

lemma publisher_up_write:
  "write_buffer api a bs w = Some w' \<Longrightarrow> publisher_up loaned port p h w \<Longrightarrow> loan_contract api port loaned \<Longrightarrow>
   publisher_up loaned port p h w'"
  by (auto simp: publisher_up_def dest: write_buffer_ready_publisher)

lemma publisher_up_loads:
  "publisher_up loaned port p h w \<Longrightarrow>
   load as_publisher p w = Some h \<and> rp_identifier h = Iox2Ident \<and> p \<noteq> nullptr \<and> rp_data h \<noteq> nullptr"
  by (auto simp: publisher_up_def dest: publisher_ready_loads)

lemma publisher_up_serialize:
  assumes "publisher_up loaned port p h w" and "loan_contract api port loaned"
  shows "post (publisher_up loaned port p h) (rmw_serialize api env m ts sm w)"
  unfolding rmw_serialize_def Let_def
  by (intro post_intros post_bind_option)
    (use assms in \<open>auto dest: publisher_up_typesupport publisher_up_write\<close>)

text \<open>The calls of the C interface on one publisher.\<close>

lemmas publisher_post_intros =
  post_intros post_bind_inv [OF publisher_up_methods(1)] post_bind_inv [OF publisher_up_methods(2)]
  post_bind_inv [OF publisher_up_methods(3)] post_bind_inv [OF publisher_up_methods(4)] post_bind_inv [OF publisher_up_sizes(1)]
  post_bind_inv [OF publisher_up_sizes(2)] post_bind_inv [OF publisher_up_serialize] post_bind_option

lemma publisher_up_calls:
  assumes "publisher_up loaned port p h w" and c: "loan_contract api port loaned"
  shows "post (publisher_up loaned port p h) (rmw_publish api env p m w)"
    and "post (publisher_up loaned port p h) (rmw_borrow_loaned_message api env p ts pm w)"
    and "post (publisher_up loaned port p h) (rmw_return_loaned_message_from_publisher api p a w)"
    and "post (publisher_up loaned port p h) (rmw_publish_loaned_message api p a w)"
    and "post (publisher_up loaned port p h) (rmw_publish_serialized_message api p sm w)"
  unfolding rmw_publish_def rmw_borrow_loaned_message_def rmw_return_loaned_message_from_publisher_def
    rmw_publish_loaned_message_def rmw_publish_serialized_message_def Let_def
  by (simp add: publisher_up_loads [OF assms(1)] unsafe_cast_ok cong: if_cong split del: if_split, intro publisher_post_intros; simp add: assms)+

inductive rmw_publisher_call :: "'i iox2 \<Rightarrow> 'm ros_env \<Rightarrow> ptr \<Rightarrow> ('i, 'm) world \<Rightarrow> ('i, 'm) world \<Rightarrow> bool"
  for api env p where
  publish: "rmw_publish api env p m w = Some (r, w') \<Longrightarrow> rmw_publisher_call api env p w w'"
| borrow: "rmw_borrow_loaned_message api env p ts pm w = Some (rs, w') \<Longrightarrow> rmw_publisher_call api env p w w'"
| return_loaned: "rmw_return_loaned_message_from_publisher api p a w = Some (r, w') \<Longrightarrow> rmw_publisher_call api env p w w'"
| publish_loaned: "rmw_publish_loaned_message api p a w = Some (r, w') \<Longrightarrow> rmw_publisher_call api env p w w'"
| publish_serialized: "rmw_publish_serialized_message api p sm w = Some (r, w') \<Longrightarrow> rmw_publisher_call api env p w w'"

lemma rmw_publisher_call_up:
  "rmw_publisher_call api env p w w' \<Longrightarrow> publisher_up loaned port p h w \<Longrightarrow> loan_contract api port loaned \<Longrightarrow>
   publisher_up loaned port p h w'"
  by (induction rule: rmw_publisher_call.induct) (blast dest: postD publisher_up_calls)+

lemma rmw_publisher_calls_up:
  "(rmw_publisher_call api env p)\<^sup>*\<^sup>* w w' \<Longrightarrow> publisher_up loaned port p h w \<Longrightarrow> loan_contract api port loaned \<Longrightarrow>
   publisher_up loaned port p h w'"
  by (induction rule: rtranclp_induct) (auto intro: rmw_publisher_call_up)

end
