(* ===== verification/Rmw_Publish_Correct.thy ===== *)
theory Rmw_Publish_Correct
  imports Rmw_Publisher
begin

text \<open>What the calls of \<open>rmw/publisher.cpp\<close> do: the messages sent, the loans begun and ended.\<close>

section \<open>What publishing does\<close>

lemma publisher_method_result:
  assumes "publisher_ready loaned port p h i w" and "f i w = Some (r, i', w1)" and "sys.more w1 = sys.more w"
  shows "publisher_method (rp_data h) f w = Some (r, w1\<lparr>heap := (heap w)(rp_data h \<mapsto> PublisherObj i')\<rparr>)"
  using assms(1) publisher_obj.method_result [where f = f, OF _ assms(2,3)] by (simp add: publisher_ready_def)

lemma Publisher_publish_copy_result:
  assumes "pub_publisher i = Some port" and "pub_notifier i = Some nt"
  obtains e j where "send_slice_copy api port bs (iox w) = (Inl e, j)"
      "Publisher_publish_copy api bs i w = Some (Inl SEND_FAILURE, i, chain e (w\<lparr>iox := j\<rparr>))"
  | k j r v where "send_slice_copy api port bs (iox w) = (Inr k, j)"
      "Publisher_publish_copy api bs i w = Some (r, i, v)" "iox v = snd (notify api nt None j)"
      "r = Inr () \<longleftrightarrow> \<not> isl (fst (notify api nt None j))" "sys.more v = sys.more w"
proof -
  obtain r1 j where r1: "send_slice_copy api port bs (iox w) = (r1, j)" by fastforce
  obtain r2 k where r2: "notify api nt None j = (r2, k)" by fastforce
  from r1 r2 assms that show thesis
    by (cases r1; cases r2) (auto simp: Publisher_publish_copy_def call_def)
qed


text \<open>Publishing a loan through the object's address.\<close>

lemma publisher_publish_loan_call:
  fixes w :: "('i, 'm) world"
  assumes ld: "load as_publisher_impl q w = Some i" and wf: "publisher_wf i"
    and s: "map_of (pub_registry i) a = Some s"
  obtains x v reg where "publisher_method q (Publisher_publish_loan api a) w = Some (x, v)"
    "heap v = (heap w)(q \<mapsto> PublisherObj (i\<lparr>pub_registry := reg\<rparr>))"
    "map_of reg = (map_of (pub_registry i))(a := None)"
    "let (sent, k) = sample_send api s (iox w); (notified, l) = notify api (the (pub_notifier i)) None k in
     if isl sent then isl x \<and> iox v = k else iox v = l \<and> isl x = isl notified"
proof -
  show thesis
  proof (rule Publisher_publish_loan_cases [OF wf, of a api w], goal_cases)
    case 1
    with s show thesis by simp
  next
    case (2 s' reg x v)
    have v: "sys.more v = sys.more w" by (rule publisher_methods_frame(3) [OF 2(5)])
    have [simp]: "s' = s" using 2(1) s by simp
    have "publisher_method q (Publisher_publish_loan api a) w =
        Some (x, v\<lparr>heap := (heap w)(q \<mapsto> PublisherObj (i\<lparr>pub_registry := reg\<rparr>))\<rparr>)"
      using 2(5) world_more [OF v] ld [unfolded publisher_obj.load_iff] by (simp add: method_call_def ld store_def)
    then show thesis
      by (rule that) (use 2(4,6,7) in \<open>cases "x = Inl SEND_FAILURE"; auto simp: Let_def split: prod.splits\<close>)+
  qed
qed

text \<open>Ending a loan through a handle, and the attempt to end one that is not out.\<close>

lemma publisher_return_loan_call:
  fixes w :: "('i, 'm) world"
  assumes r: "publisher_ready loaned port p h i w" and c: "loan_contract api port loaned"
  obtains "a \<notin> loaned (iox w)"
      "publisher_method (rp_data h) (Publisher_return_loan api a) w = Some (Inl Pub_INVALID_PAYLOAD, w)"
  | s reg w' where "a \<in> loaned (iox w)" "map_of (pub_registry i) a = Some s" "smp_data s = a"
      "publisher_method (rp_data h) (Publisher_return_loan api a) w = Some (Inr (), w')"
      "heap w' = (heap w)(rp_data h \<mapsto> PublisherObj (i\<lparr>pub_registry := reg\<rparr>))"
      "map_of reg = (map_of (pub_registry i))(a := None)" "iox w' = sample_drop api s (iox w)"
      "loaned (iox w') = loaned (iox w) - {a}" "publisher_ready loaned port p h (i\<lparr>pub_registry := reg\<rparr>) w'"
proof -
  have wf: "publisher_wf i" and dom: "dom (map_of (pub_registry i)) = loaned (iox w)"
    and hq: "(heap w)(rp_data h \<mapsto> PublisherObj i) = heap w"
    using r by (simp_all add: publisher_ready_def publisher_balanced_def fun_upd_idem)
  note call = publisher_method_result [where f = "Publisher_return_loan api a", OF r]
  show thesis
  proof (rule Publisher_return_loan_cases [OF wf, of a api w], goal_cases)
    case 1
    with call [OF 1(2)] dom show ?case by (intro that(1)) (auto simp: hq)
  next
    case (2 s reg)
    let ?w = "run_iox (sample_drop api s) w\<lparr>heap := (heap w)(rp_data h \<mapsto> PublisherObj (i\<lparr>pub_registry := reg\<rparr>))\<rparr>"
    have "loaned (iox ?w) = loaned (iox w) - {a}" using loan_contractD(6) [OF c, of s] 2(2) by simp
    moreover from this have "publisher_ready loaned port p h (i\<lparr>pub_registry := reg\<rparr>) ?w"
      using r 2(3,4) dom by (auto simp: publisher_ready_def publisher_balanced_def publisher_wf_def)
    ultimately show ?case
      using call [OF 2(5)] 2 dom by (intro that(2) [of s ?w reg]) auto
  qed
qed

lemma publisher_publish_loan_ready:
  fixes w :: "('i, 'm) world"
  assumes r: "publisher_ready loaned port p h i w" and c: "loan_contract api port loaned"
  obtains w' where "a \<notin> loaned (iox w)" "heap w' = heap w" "iox w' = iox w" "publisher_ready loaned port p h i w'"
      "publisher_method (rp_data h) (Publisher_publish_loan api a) w = Some (Inl Pub_INVALID_PAYLOAD, w')"
  | s reg x w' where "a \<in> loaned (iox w)" "map_of (pub_registry i) a = Some s" "smp_data s = a"
      "publisher_method (rp_data h) (Publisher_publish_loan api a) w = Some (x, w')"
      "heap w' = (heap w)(rp_data h \<mapsto> PublisherObj (i\<lparr>pub_registry := reg\<rparr>))"
      "map_of reg = (map_of (pub_registry i))(a := None)"
      "let (sent, k) = sample_send api s (iox w); (notified, l) = notify api (the (pub_notifier i)) None k in
       if isl sent then isl x \<and> iox w' = k else iox w' = l \<and> isl x = isl notified"
      "loaned (iox w') = loaned (iox w) - {a}" "publisher_ready loaned port p h (i\<lparr>pub_registry := reg\<rparr>) w'"
proof -
  have wf: "publisher_wf i" and dom: "dom (map_of (pub_registry i)) = loaned (iox w)"
    and hq: "(heap w)(rp_data h \<mapsto> PublisherObj i) = heap w"
    using r by (simp_all add: publisher_ready_def publisher_balanced_def fun_upd_idem)
  note call = publisher_method_result [where f = "Publisher_publish_loan api a", OF r _ publisher_methods_frame(3)]
  show thesis
  proof (rule Publisher_publish_loan_cases [OF wf, of a api w], goal_cases)
    case 1
    with call [OF 1(2,2)] dom show ?case
      using r by (intro that(1) [of "chain ''invalid payload pointer'' w"]) (auto simp: hq)
  next
    case (2 s reg x v)
    let ?w = "v\<lparr>heap := (heap w)(rp_data h \<mapsto> PublisherObj (i\<lparr>pub_registry := reg\<rparr>))\<rparr>"
    have "loaned (iox ?w) = loaned (iox w) - {a}"
      using loan_contractD(5,8) [OF c] 2(2,6,7) by (cases "x = Inl SEND_FAILURE") auto
    moreover from this have "publisher_ready loaned port p h (i\<lparr>pub_registry := reg\<rparr>) ?w"
      using r 2(3,4) dom by (auto simp: publisher_ready_def publisher_balanced_def publisher_wf_def)
    ultimately show ?case
      using call [OF 2(5,5)] 2(1-4) dom
      by (intro that(2) [of s x ?w reg])
        (use 2(6,7) in \<open>cases "x = Inl SEND_FAILURE"; auto simp: Let_def split: prod.splits\<close>)+
  qed
qed

text \<open>The calls on loans, with the handle followed to its object.\<close>

lemma loan_calls_simps:
  fixes w :: "('i, 'm) world"
  assumes r: "publisher_ready loaned port p h i w" and pod: "rp_can_loan_messages h"
  shows "a \<noteq> nullptr \<Longrightarrow> rmw_return_loaned_message_from_publisher api p a w = do {
      (result, w) \<leftarrow> publisher_method (rp_data h) (Publisher_return_loan api a) w;
      case result of Inl _ \<Rightarrow> fail RMW_RET_ERROR ''failed to return loaned message to publisher'' w
      | Inr _ \<Rightarrow> Some (RMW_RET_OK, w) }"
    and "a \<noteq> nullptr \<Longrightarrow> rmw_publish_loaned_message api p a w = do {
      (result, w) \<leftarrow> publisher_method (rp_data h) (Publisher_publish_loan api a) w;
      case result of Inl _ \<Rightarrow> fail RMW_RET_ERROR ''failed to publish loaned message'' w
      | Inr _ \<Rightarrow> Some (RMW_RET_OK, w) }"
    and "ts \<noteq> nullptr \<Longrightarrow> message_size env (pub_typesupport i) w = Some (n, w) \<Longrightarrow>
      rmw_borrow_loaned_message api env p ts (Some nullptr) w = do {
        (loan, w) \<leftarrow> publisher_method (rp_data h) (Publisher_loan api n) w;
        case loan of
          Inl _ \<Rightarrow> fail (RMW_RET_ERROR, Some nullptr) ''failed to loan memory for publisher payload'' w
        | Inr payload \<Rightarrow> Some ((RMW_RET_OK, Some payload), w) }"
  using publisher_ready_loads [OF r] pod
  by (simp_all add: rmw_return_loaned_message_from_publisher_def rmw_publish_loaned_message_def
      rmw_borrow_loaned_message_def ensure_ok ensure_null_def unsafe_cast_ok)

lemma end_loan:
  fixes w :: "('i, 'm) world"
  assumes r: "publisher_ready loaned port p h i w" and c: "loan_contract api port loaned"
    and pod: "rp_can_loan_messages h" and a: "a \<noteq> nullptr"
    and f: "f \<in> {rmw_return_loaned_message_from_publisher api p a, rmw_publish_loaned_message api p a}"
  shows "\<exists>x w' i'. f w = Some (x, w') \<and> publisher_ready loaned port p h i' w' \<and>
    loaned (iox w') = loaned (iox w) - {a} \<and>
    (a \<notin> loaned (iox w) \<longrightarrow> x = RMW_RET_ERROR \<and> iox w' = iox w \<and> heap w' = heap w)"
proof (cases "f = rmw_return_loaned_message_from_publisher api p a")
  case True
  from publisher_return_loan_call [where a = a, OF r c] show ?thesis
  proof cases
    case 1
    with r show ?thesis by (fastforce simp: True loan_calls_simps(1) [OF r pod a] fail_def)
  next
    case (2 s reg w')
    then show ?thesis by (auto simp: True loan_calls_simps(1) [OF r pod a])
  qed
next
  case False
  with f have f: "f = rmw_publish_loaned_message api p a" by simp
  from publisher_publish_loan_ready [where a = a, OF r c] show ?thesis
  proof cases
    case (1 w')
    then show ?thesis by (fastforce simp: f loan_calls_simps(2) [OF r pod a] fail_def)
  next
    case (2 s reg x w')
    then show ?thesis by (cases x) (auto simp: f loan_calls_simps(2) [OF r pod a] fail_def)
  qed
qed

lemma publish_copy_path:
  fixes w :: "('i, 'm) world" and env :: "'m ros_env"
  assumes r: "publisher_ready loaned port p h i w" and pod: "rp_can_loan_messages h"
    and m: "heap w m = Some (Message msg)" "m \<noteq> nullptr" and nt: "pub_notifier i = Some nt"
  defines "bs \<equiv> msg_bytes env msg (pub_unserialized_size i)"
  shows "\<exists>r w'. rmw_publish api env p m w = Some (r, w') \<and> heap w' = heap w \<and>
    (case send_slice_copy api port bs (iox w) of
       (Inl _, j) \<Rightarrow> r = RMW_RET_ERROR \<and> errmsg w' \<noteq> None \<and> iox w' = j
     | (Inr _, j) \<Rightarrow> iox w' = snd (notify api nt None j) \<and>
         (if isl (fst (notify api nt None j)) then r = RMW_RET_ERROR \<and> errmsg w' \<noteq> None else r = RMW_RET_OK))"
proof -
  have pp: "pub_publisher i = Some port" and hq: "(heap w)(rp_data h \<mapsto> PublisherObj i) = heap w"
    using r by (simp_all add: publisher_ready_def fun_upd_idem)
  note ld = publisher_ready_loads [OF r]
  have def: "rmw_publish api env p m w = do {
      (result, w) \<leftarrow> publisher_method (rp_data h) (Publisher_publish_copy api bs) w;
      case result of Inl _ \<Rightarrow> fail RMW_RET_ERROR ''failed to publish copy'' w | Inr _ \<Rightarrow> Some (RMW_RET_OK, w) }"
    using ld pod m by (simp add: rmw_publish_def ensure_ok unsafe_cast_ok message.load_iff [THEN iffD2] bs_def)
  show ?thesis
  proof (rule Publisher_publish_copy_result [OF pp nt, of api bs w])
    fix e j
    assume s: "send_slice_copy api port bs (iox w) = (Inl e, j)"
      "Publisher_publish_copy api bs i w = Some (Inl SEND_FAILURE, i, chain e (w\<lparr>iox := j\<rparr>))"
    have "sys.more (chain e (w\<lparr>iox := j\<rparr>)) = sys.more w" by simp
    from publisher_method_result [where f = "Publisher_publish_copy api bs", OF r s(2) this] s(1) show ?thesis
      by (simp add: def hq fail_def)
  next
    fix k j x v
    assume s: "send_slice_copy api port bs (iox w) = (Inr k, j)" "Publisher_publish_copy api bs i w = Some (x, i, v)"
      "iox v = snd (notify api nt None j)" "x = Inr () \<longleftrightarrow> \<not> isl (fst (notify api nt None j))" "sys.more v = sys.more w"
    with publisher_method_result [where f = "Publisher_publish_copy api bs", OF r s(2,5)] show ?thesis by (cases x) (auto simp: def hq fail_def)
  qed
qed

text \<open>Asking for a loan through the object's address.\<close>

lemma publisher_loan_call:
  fixes w :: "('i, 'm) world"
  assumes r: "publisher_ready loaned port p h i w" and c: "loan_contract api port loaned"
  obtains e w' where "loan_slice_uninit api port n (iox w) = (Inl e, iox w')"
      "publisher_method (rp_data h) (Publisher_loan api n) w = Some (Inl LOAN_FAILURE, w')"
      "heap w' = heap w" "loaned (iox w') = loaned (iox w)"
  | s reg w' where "loan_slice_uninit api port n (iox w) = (Inr s, iox w')"
      "publisher_method (rp_data h) (Publisher_loan api n) w = Some (Inr (smp_data s), w')"
      "heap w' = (heap w)(rp_data h \<mapsto> PublisherObj (i\<lparr>pub_registry := reg\<rparr>))"
      "map_of reg = (map_of (pub_registry i))(smp_data s \<mapsto> s)" "map_of (pub_registry i) (smp_data s) = None"
      "publisher_ready loaned port p h (i\<lparr>pub_registry := reg\<rparr>) w'"
      "smp_data s \<noteq> nullptr" "smp_data s \<notin> loaned (iox w)" "loaned (iox w') = insert (smp_data s) (loaned (iox w))"
proof -
  have bal: "publisher_balanced loaned i w" and port: "pub_publisher i = Some port"
    and hq: "(heap w)(rp_data h \<mapsto> PublisherObj i) = heap w"
    using r by (simp_all add: publisher_ready_def fun_upd_idem)
  note call = publisher_method_result [where f = "Publisher_loan api n", OF r]
  show thesis
  proof (rule Publisher_loan_cases [OF bal port c, of n], goal_cases)
    case (1 e w1)
    have "sys.more w1 = sys.more w" using 1(3) by (metis more_iox)
    from call [OF 1(2) this] 1 loan_contractD(4) [OF c 1(1)] show ?case
      by (intro that(1) [of e "w1\<lparr>heap := heap w\<rparr>"]) (simp_all add: hq)
  next
    case (2 s reg w1)
    let ?w1 = "w1\<lparr>heap := (heap w)(rp_data h \<mapsto> PublisherObj (i\<lparr>pub_registry := reg\<rparr>))\<rparr>"
    have "sys.more w1 = sys.more w" using 2(5) by (metis more_iox)
    moreover have "publisher_ready loaned port p h (i\<lparr>pub_registry := reg\<rparr>) ?w1"
      using r 2(6) port by (auto simp: publisher_ready_def publisher_balanced_def)
    ultimately show ?case
      using call [OF 2(3)] 2 loan_contractD(1-3) [OF c 2(1)]
      by (intro that(2) [of s ?w1 reg]) (simp_all add: domIff)
  qed
qed

text \<open>What is left of \<open>rmw_publish\<close> for a type that has to be serialized, and of its end.\<close>

definition publish_loaned_path ::
  "'i iox2 \<Rightarrow> 'm ros_env \<Rightarrow> ptr \<Rightarrow> ptr \<Rightarrow> ptr \<Rightarrow> nat \<Rightarrow> ptr \<Rightarrow> ('i, 'm) world \<Rightarrow> (rmw_ret \<times> ('i, 'm) world) option" where
  "publish_loaned_path api env q m ts n payload w = do {
     ((result, _), w) \<leftarrow> rmw_serialize api env m ts
        (Some \<lparr>sm_buffer = payload, sm_length = n, sm_capacity = n\<rparr>) w;
     if result \<noteq> RMW_RET_OK then fail RMW_RET_ERROR ''failed to serialize into loaned payload'' w
     else do {
       (result, w) \<leftarrow> publisher_method q (Publisher_publish_loan api payload) w;
       case result of
         Inl _ \<Rightarrow> fail RMW_RET_ERROR ''failed to publish serialized payload'' w
       | Inr _ \<Rightarrow> Some (RMW_RET_OK, w) } }"

lemma rmw_publish_by_loan:
  assumes r: "publisher_ready loaned port p h i w" and pod: "\<not> rp_can_loan_messages h"
    and m: "heap w m = Some (Message msg)" "m \<noteq> nullptr"
    and ts: "pub_typesupport i \<noteq> nullptr" "ts_data env (pub_typesupport i) \<noteq> nullptr"
      "fastrtps_cpp env (pub_typesupport i) = Inr (Some cb)"
    and n: "n = unat (4 + get_serialized_size cb msg)"
  shows "rmw_publish api env p m w = do {
      (loan, w) \<leftarrow> publisher_method (rp_data h) (Publisher_loan api n) w;
      case loan of
        Inl _ \<Rightarrow> fail RMW_RET_ERROR ''failed to loan bytes required for serialization'' w
      | Inr payload \<Rightarrow> publish_loaned_path api env (rp_data h) m (pub_typesupport i) n payload w }"
  unfolding publish_loaned_path_def
  using publisher_ready_loads [OF r] pod m ts
  by (simp add: rmw_publish_def ensure_ok unsafe_cast_ok message.load_iff [THEN iffD2]
      serialized_message_size_def typesupport_handle_def n [symmetric])

lemma publish_loaned_path_effects:
  fixes w :: "('i, 'm) world"
  assumes q: "heap w q = Some (PublisherObj (i\<lparr>pub_registry := reg\<rparr>))" "publisher_wf (i\<lparr>pub_registry := reg\<rparr>)"
    and s: "map_of reg (smp_data s) = Some s"
    and sp: "smp_data s \<noteq> nullptr" "heap w (smp_data s) = None"
    and m: "heap w m = Some (Message msg)" "m \<noteq> nullptr"
    and ts: "ts \<noteq> nullptr" "fastrtps_cpp env ts = Inr (Some cb)" and cdr: "cdr_serialize cb msg n = (ok, bytes)"
  shows "\<exists>x w' reg'. publish_loaned_path api env q m ts n (smp_data s) w = Some (x, w') \<and>
    heap w' = (heap w)(q \<mapsto> PublisherObj (i\<lparr>pub_registry := reg'\<rparr>)) \<and>
    (if \<not> ok
     then x = RMW_RET_ERROR \<and> errmsg w' \<noteq> None \<and> iox w' = write_bytes api (smp_data s) bytes (iox w) \<and>
       reg' = reg
     else map_of reg' = (map_of reg)(smp_data s := None) \<and>
       (let (sent, k) = sample_send api s (write_bytes api (smp_data s) bytes (iox w));
            (notified, l) = notify api (the (pub_notifier i)) None k in
        if isl sent then x = RMW_RET_ERROR \<and> errmsg w' \<noteq> None \<and> iox w' = k
        else iox w' = l \<and> (if isl notified then x = RMW_RET_ERROR \<and> errmsg w' \<noteq> None else x = RMW_RET_OK)))"
proof -
  let ?a = "smp_data s" and ?w3 = "run_iox (write_bytes api (smp_data s) bytes) w"
  have wr: "write_buffer api ?a bytes w = Some ?w3" using sp by (simp add: write_buffer_def)
  note ser = rmw_serialize_simp [OF m(2) ts m(1), where sm = "\<lparr>sm_buffer = ?a, sm_length = n, sm_capacity = n\<rparr>"
      and w' = ?w3 and api = api, simplified, OF cdr wr]
  show ?thesis
  proof (cases ok)
    case False
    with ser q show ?thesis
      by (auto simp: publish_loaned_path_def fail_def fun_upd_idem intro!: exI [of _ reg])
  next
    case True
    have "load as_publisher_impl q ?w3 = Some (i\<lparr>pub_registry := reg\<rparr>)" using q by (simp add: load_def)
    then obtain x v reg' where
      v: "publisher_method q (Publisher_publish_loan api ?a) ?w3 = Some (x, v)"
        "heap v = (heap w)(q \<mapsto> PublisherObj (i\<lparr>pub_registry := reg'\<rparr>))"
        "map_of reg' = (map_of reg)(?a := None)"
        "let (sent, k) = sample_send api s (iox ?w3); (notified, l) = notify api (the (pub_notifier i)) None k in
         if isl sent then isl x \<and> iox v = k else iox v = l \<and> isl x = isl notified"
      by (rule publisher_publish_loan_call [of q ?w3 "i\<lparr>pub_registry := reg\<rparr>" ?a s api]) (use q(2) s in simp_all)
    then show ?thesis
      using ser True
      by (cases x) (auto simp: publish_loaned_path_def fail_def Let_def split: prod.splits if_splits
          intro!: exI [of _ reg'])
  qed
qed

section \<open>On the concrete middleware\<close>

lemma sim_publisher_ready:
  "publisher_ready (\<lambda>i. set (sim_loans i)) 6 22 (publisher_handle 24 30 True) sim_publisher sim_world"
  by (simp add: publisher_ready_def sim_world_def publisher_handle_def publisher_balanced_def)
    (simp add: sim_publisher_def sim_start_def publisher_wf_def)

section \<open>Properties\<close>

text \<open>C17. \<open>rmw_create_publisher\<close> with valid arguments returns. A null pointer comes with an error message,
  and leaves behind nothing but possibly the copy of the topic's name. Otherwise the handle can be
  destroyed, whatever was done in between that leaves the memory as it is: the memory is then what it was
  before the creation, again but for the copy of the topic's name, which no function frees, and the
  publisher's ports are closed.\<close>
theorem publisher_create_destroy:
  fixes w :: "('i, 'm) world"
  assumes "world_wf w" and "endpoint_arguments_ok env rmw_node ts topic_name qos options topic w"
    and "sizes_readable env ts"
  shows "\<exists>p w1 t. rmw_create_publisher api env rmw_node ts topic_name (Some qos) options w = Some (p, w1) \<and>
    world_wf w1 \<and> heap w t = None \<and>
    (if p = nullptr then errmsg w1 \<noteq> None \<and> (heap w1 = heap w \<or> heap w1 = (heap w)(t \<mapsto> CString topic))
     else \<exists>i. publisher_wf i \<and> pub_topic i = topic \<and> pub_typesupport i = ts \<and>
       (\<forall>w2. world_wf w2 \<longrightarrow> heap w2 = heap w1 \<longrightarrow>
          (\<exists>w3. rmw_destroy_publisher api rmw_node p w2 = Some (RMW_RET_OK, w3) \<and>
             heap w3 = (heap w)(t \<mapsto> CString topic) \<and> iox w3 = Publisher_dtor api i (iox w2))))"
proof (rule create_publisher_cases [OF assms, of api], goal_cases)
  case (1 w' t)
  then show ?case
    by (intro exI [of _ nullptr] exI [of _ w'] exI [of _ "if heap w' = heap w then next_ptr w else t"])
      (use assms(1) in \<open>auto simp: world_wf_def\<close>)
next
  case (2 p t q i w')
  from assms(2) obtain n where n: "heap w rmw_node = Some (NodeHandle n)" "rn_identifier n = Iox2Ident"
    by (auto simp: endpoint_arguments_ok_def)
  have "\<exists>w3. rmw_destroy_publisher api rmw_node p w2 = Some (RMW_RET_OK, w3) \<and>
      heap w3 = (heap w)(t \<mapsto> CString topic) \<and> iox w3 = Publisher_dtor api i (iox w2)"
    if "world_wf w2" "heap w2 = heap w'" for w2
  proof -
    let ?h = "publisher_handle q t (pod_type env ts)"
    have "heap w2 rmw_node = Some (NodeHandle n)" "heap w2 p = Some (PublisherHandle ?h)"
      "heap w2 (rp_data ?h) = Some (PublisherObj i)"
      using 2 n that(2) by auto
    from destroy_publisher [OF that(1) this(1) n(2) this(2) _ this(3), of api] obtain w3 where
      w3: "rmw_destroy_publisher api rmw_node p w2 = Some (RMW_RET_OK, w3)"
        "heap w3 = (heap w2)(p := None, q := None)" "iox w3 = Publisher_dtor api i (iox w2)" by auto
    have "heap w3 = (heap w)(t \<mapsto> CString topic)"
      using w3(2) that(2) 2(4-8) by (auto simp: fun_eq_iff)
    with w3 show ?thesis by blast
  qed
  with 2 show ?case
    by (intro exI [of _ p] exI [of _ w'] exI [of _ t]) auto
qed

text \<open>On the node at 6 of the sample process.\<close>
theorem publisher_create_destroy_witness:
  "\<exists>p w1. rmw_create_publisher sim_api sim_env 6 1 30 (Some sim_qos) 1 sim_world = Some (p, w1) \<and> world_wf w1"
proof -
  have "endpoint_arguments_ok sim_env 6 1 30 sim_qos 1 ''/chatter'' sim_world"
    using sim_context_ready
    by (auto simp: endpoint_arguments_ok_def sim_world_def typesupport_valid_def sim_env_def qos_known_def sim_qos_def)
  from publisher_create_destroy [OF sim_world_wf this sim_sizes_readable, of sim_api] show ?thesis by blast
qed

text \<open>C9. Whatever sequence of the five publishing calls is made on a publisher handle, with any arguments,
  successful or not, the registry of its object holds exactly the samples its iceoryx2 port has
  out, and destroying the handle ends every loan.\<close>
theorem rmw_publisher_ledger:
  fixes w :: "('i, 'm) world"
  assumes "loan_contract api port loaned" and "publisher_ready loaned port p h i w"
    and "(rmw_publisher_call api env p)\<^sup>*\<^sup>* w w'"
    and "world_wf w'" and "heap w' rmw_node = Some (NodeHandle n)" and "rn_identifier n = Iox2Ident"
  shows "\<exists>i' w''. publisher_ready loaned port p h i' w' \<and>
    rmw_destroy_publisher api rmw_node p w' = Some (RMW_RET_OK, w'') \<and> loaned (iox w'') = {}"
proof -
  obtain i' where r: "publisher_ready loaned port p h i' w'"
    using rmw_publisher_calls_up [OF assms(3) _ assms(1), of h] assms(2) by (auto simp: publisher_up_def)
  then have "heap w' p = Some (PublisherHandle h)" "rp_identifier h = Iox2Ident"
    "heap w' (rp_data h) = Some (PublisherObj i')" "publisher_balanced loaned i' w'"
    by (simp_all add: publisher_ready_def)
  with destroy_publisher [OF assms(4-6) this(1,2,3), of api] Publisher_dtor_ends_loans [OF this(4) assms(1)] r
  show ?thesis by auto
qed

text \<open>Nothing is out after a message was borrowed and the publisher destroyed.\<close>
theorem rmw_publisher_ledger_witness:
  "\<exists>w' w''. rmw_borrow_loaned_message sim_api sim_env 22 1 (Some nullptr) sim_world = Some ((RMW_RET_OK, Some 1), w') \<and>
    rmw_destroy_publisher sim_api 6 22 w' = Some (RMW_RET_OK, w'') \<and> set (sim_loans (iox w'')) = {}"
proof -
  let ?i = "sim_publisher\<lparr>pub_registry := [(1, \<lparr>smp_data = 1, smp_len = 8, smp_key = 1\<rparr>)]\<rparr>"
  let ?w = "sim_world\<lparr>iox := sim_start\<lparr>sim_loans := [1]\<rparr>, heap := (heap sim_world)(24 \<mapsto> PublisherObj ?i)\<rparr>"
  have "Publisher_loan sim_api 8 sim_publisher sim_world = Some (Inr 1, ?i, sim_world\<lparr>iox := sim_start\<lparr>sim_loans := [1]\<rparr>\<rparr>)"
    by (simp add: Publisher_loan_def sim_publisher_def call_def sim_api_def sim_loan_def sim_start_def fresh_def
        registry_store_def)
  from publisher_method_result [where f = "Publisher_loan sim_api 8", OF sim_publisher_ready this] publisher_ready_loads [OF sim_publisher_ready]
  have b: "rmw_borrow_loaned_message sim_api sim_env 22 1 (Some nullptr) sim_world = Some ((RMW_RET_OK, Some 1), ?w)"
    by (simp add: rmw_borrow_loaned_message_def ensure_ok ensure_null_def unsafe_cast_ok message_size_def
        typesupport_handle_def sim_env_def sim_members_def sim_publisher_def)
  have "world_wf ?w" by (auto simp: world_wf_def sim_world_def split: if_splits)
  moreover have "heap ?w 6 = Some (NodeHandle (node_handle 2 10 12 8))"
    by (simp add: sim_world_def node_handle_def)
  ultimately show ?thesis
    using rmw_publisher_ledger [OF sim_loan_contract sim_publisher_ready r_into_rtranclp [of
          "rmw_publisher_call sim_api sim_env 22", OF rmw_publisher_call.borrow [OF b]]] b by auto
qed

text \<open>C14. \<open>rmw_publish\<close> for a self-contained type sends exactly the bytes of the message, of the size the
  introspection data gives, and then notifies. It returns \<open>RMW_RET_OK\<close> when both calls succeed, and
  otherwise an error with its message; no object of the process changes.\<close>
theorem publish_copies_message:
  fixes w :: "('i, 'm) world" and env :: "'m ros_env"
  assumes r: "publisher_ready loaned port p h i w" and pod: "rp_can_loan_messages h"
    and m: "heap w m = Some (Message msg)" "m \<noteq> nullptr" and nt: "pub_notifier i = Some nt"
  defines "bs \<equiv> msg_bytes env msg (pub_unserialized_size i)"
  shows "\<exists>r w'. rmw_publish api env p m w = Some (r, w') \<and> heap w' = heap w \<and>
    (case send_slice_copy api port bs (iox w) of
       (Inl _, j) \<Rightarrow> r = RMW_RET_ERROR \<and> errmsg w' \<noteq> None \<and> iox w' = j
     | (Inr _, j) \<Rightarrow> iox w' = snd (notify api nt None j) \<and>
         (if isl (fst (notify api nt None j)) then r = RMW_RET_ERROR \<and> errmsg w' \<noteq> None else r = RMW_RET_OK))"
  using publish_copy_path [OF r pod m nt] unfolding bs_def .

text \<open>Eight bytes of a message, published through the handle at 22.\<close>
theorem publish_copies_message_witness:
  "\<exists>w'. rmw_publish sim_api sim_env 22 34 (sim_world\<lparr>heap := (heap sim_world)(34 \<mapsto> Message [1, 2])\<rparr>) =
      Some (RMW_RET_OK, w') \<and> sim_sent (iox w') = [2]"
proof -
  let ?w = "sim_world\<lparr>heap := (heap sim_world)(34 \<mapsto> Message [1, 2])\<rparr>"
  have "publisher_ready (\<lambda>i. set (sim_loans i)) 6 22 (publisher_handle 24 30 True) sim_publisher ?w"
    using sim_publisher_ready by (simp add: publisher_ready_def publisher_balanced_def)
  from publish_copies_message [where msg = "[1, 2]", OF this, of 34 4 sim_api sim_env] show ?thesis
    by (auto simp: sim_publisher_def sim_api_def sim_env_def sim_start_def)
qed

text \<open>C29. \<open>rmw_publish\<close> for any other type loans the serialized size, serializes into the loan and
  publishes it. A failed loan changes nothing. When the serialization does not throw, the loan is
  over afterwards, sent or not, and subscribers are notified only after a successful send. When it
  throws, the call fails and the loan stays out: the registry still holds it, although the caller has no
  pointer to it.\<close>
theorem publish_serialized_effects:
  fixes w :: "('i, 'm) world" and env :: "'m ros_env"
  assumes r: "publisher_ready loaned port p h i w" and c: "loan_contract api port loaned"
    and pod: "\<not> rp_can_loan_messages h" and m: "heap w m = Some (Message msg)" "m \<noteq> nullptr"
    and ts: "pub_typesupport i \<noteq> nullptr" "ts_data env (pub_typesupport i) \<noteq> nullptr"
      "fastrtps_cpp env (pub_typesupport i) = Inr (Some cb)"
    and apart: "\<forall>s j. loan_slice_uninit api port n (iox w) = (Inr s, j) \<longrightarrow> heap w (smp_data s) = None"
    and n: "n = unat (4 + get_serialized_size cb msg)" and cdr: "cdr_serialize cb msg n = (ok, bytes)"
  shows "case loan_slice_uninit api port n (iox w) of
      (Inl _, j) \<Rightarrow> \<exists>w'. rmw_publish api env p m w = Some (RMW_RET_ERROR, w') \<and> errmsg w' \<noteq> None \<and>
        heap w' = heap w \<and> iox w' = j
    | (Inr s, j) \<Rightarrow> \<exists>x w' i'. rmw_publish api env p m w = Some (x, w') \<and>
        heap w' = (heap w)(rp_data h \<mapsto> PublisherObj i') \<and>
        (if \<not> ok
         then x = RMW_RET_ERROR \<and> errmsg w' \<noteq> None \<and> iox w' = write_bytes api (smp_data s) bytes j \<and>
           map_of (pub_registry i') = (map_of (pub_registry i))(smp_data s \<mapsto> s)
         else map_of (pub_registry i') = map_of (pub_registry i) \<and>
           (let (sent, k) = sample_send api s (write_bytes api (smp_data s) bytes j);
                (notified, l) = notify api (the (pub_notifier i)) None k in
            if isl sent then x = RMW_RET_ERROR \<and> errmsg w' \<noteq> None \<and> iox w' = k
            else iox w' = l \<and> (if isl notified then x = RMW_RET_ERROR \<and> errmsg w' \<noteq> None else x = RMW_RET_OK)))"
proof (rule publisher_loan_call [OF r c, of n], goal_cases)
  case (1 e w1)
  then show ?case by (simp add: rmw_publish_by_loan [OF r pod m ts n] fail_def)
next
  case (2 s reg w1)
  let ?i = "i\<lparr>pub_registry := reg\<rparr>" and ?q = "rp_data h"
  have ne: "?q \<noteq> smp_data s" "heap w1 (smp_data s) = None" "m \<noteq> ?q"
    using apart 2(1,3) r m by (auto simp: publisher_ready_def)
  have "heap w1 ?q = Some (PublisherObj ?i)" "publisher_wf ?i" "map_of (pub_registry ?i) (smp_data s) = Some s"
    "heap w1 m = Some (Message msg)"
    using 2(3,4,6) m ne by (simp_all add: publisher_ready_def publisher_balanced_def)
  note eff = publish_loaned_path_effects [OF this(1,2) _ 2(7) ne(2) this(4) m(2) ts(1,3) cdr, of api]
  have gone: "(map_of reg)(smp_data s := None) = map_of (pub_registry i)" using 2(4,5) by (simp add: fun_upd_idem)
  obtain x w' reg' where eff:
    "publish_loaned_path api env ?q m (pub_typesupport i) n (smp_data s) w1 = Some (x, w')"
    "heap w' = (heap w)(?q \<mapsto> PublisherObj (i\<lparr>pub_registry := reg'\<rparr>))"
    "if \<not> ok then x = RMW_RET_ERROR \<and> errmsg w' \<noteq> None \<and> iox w' = write_bytes api (smp_data s) bytes (iox w1) \<and> reg' = reg
     else map_of reg' = map_of (pub_registry i) \<and>
       (let (sent, k) = sample_send api s (write_bytes api (smp_data s) bytes (iox w1));
            (notified, l) = notify api (the (pub_notifier i)) None k in
        if isl sent then x = RMW_RET_ERROR \<and> errmsg w' \<noteq> None \<and> iox w' = k
        else iox w' = l \<and> (if isl notified then x = RMW_RET_ERROR \<and> errmsg w' \<noteq> None else x = RMW_RET_OK))"
    using eff 2(4) unfolding gone 2(3) fun_upd_upd by fastforce
  have "rmw_publish api env p m w = Some (x, w')"
    by (simp add: rmw_publish_by_loan [OF r pod m ts n] 2(2) eff(1))
  with eff(2,3) 2(1,4) show ?case
    unfolding 2(1) prod.case sum.case
    by (intro exI [of _ x] exI [of _ w'] exI [of _ "i\<lparr>pub_registry := reg'\<rparr>"] conjI)
      (auto simp del: fun_upd_apply split: if_splits prod.splits)
qed

text \<open>Type support 2 is not self-contained; the two bytes are serialized and sent.\<close>
theorem publish_serialized_effects_witness:
  "\<exists>w'. rmw_publish sim_api sim_env 22 34 (sim_world\<lparr>heap := (heap sim_world)
      (22 \<mapsto> PublisherHandle (publisher_handle 24 30 False), 34 \<mapsto> Message [1, 2])\<rparr>) = Some (RMW_RET_OK, w') \<and>
    sim_loans (iox w') = [] \<and> sim_sent (iox w') = [1]"
proof -
  let ?w = "sim_world\<lparr>heap := (heap sim_world)
      (22 \<mapsto> PublisherHandle (publisher_handle 24 30 False), 34 \<mapsto> Message [1, 2])\<rparr>"
  let ?cb = "\<lparr>get_serialized_size = (\<lambda>m. of_nat (length m)), cdr_serialize = (\<lambda>m n. (length m \<le> n, take n m)),
    cdr_deserialize = (\<lambda>bs m. (True, bs))\<rparr> :: u8 list callbacks"
  have "publisher_ready (\<lambda>i. set (sim_loans i)) 6 22 (publisher_handle 24 30 False) sim_publisher ?w"
    using sim_publisher_ready by (simp add: publisher_ready_def publisher_balanced_def)
  note eff = publish_serialized_effects [where m = 34 and msg = "[1, 2]" and n = 6 and cb = ?cb and ok = True and
      bytes = "[1, 2]" and env = sim_env, OF this sim_loan_contract]
  have l: "loan_slice_uninit sim_api 6 6 (iox ?w) =
      (Inr \<lparr>smp_data = 1, smp_len = 6, smp_key = 1\<rparr>, sim_start\<lparr>sim_loans := [1]\<rparr>)"
    by (simp add: sim_api_def sim_loan_def sim_start_def fresh_def)
  have "\<exists>x w'. rmw_publish sim_api sim_env 22 34 ?w = Some (x, w') \<and>
     (let (sent, k) = sample_send sim_api \<lparr>smp_data = 1, smp_len = 6, smp_key = 1\<rparr>
            (write_bytes sim_api 1 [1, 2] (sim_start\<lparr>sim_loans := [1]\<rparr>));
          (notified, l) = notify sim_api (the (pub_notifier sim_publisher)) None k in
      if isl sent then x = RMW_RET_ERROR \<and> errmsg w' \<noteq> None \<and> iox w' = k
      else iox w' = l \<and> (if isl notified then x = RMW_RET_ERROR \<and> errmsg w' \<noteq> None else x = RMW_RET_OK))"
  proof -
    have p: "\<not> rp_can_loan_messages (publisher_handle 24 30 False)" "heap ?w 34 = Some (Message [1, 2])"
      "pub_typesupport sim_publisher \<noteq> nullptr" "ts_data sim_env (pub_typesupport sim_publisher) \<noteq> nullptr"
      "fastrtps_cpp sim_env (pub_typesupport sim_publisher) = Inr (Some ?cb)"
      "34 \<noteq> nullptr" "(6::nat) = unat (4 + get_serialized_size ?cb [1, 2])" "cdr_serialize ?cb [1, 2] 6 = (True, [1, 2])"
      by (simp_all add: sim_publisher_def sim_env_def)
    have h: "\<forall>s j. loan_slice_uninit sim_api 6 6 (iox ?w) = (Inr s, j) \<longrightarrow> heap ?w (smp_data s) = None"
      unfolding l by (auto simp: sim_world_def)
    from eff [OF p(1,2,6,3,4,5) h p(7,8)] show ?thesis
      unfolding l prod.case sum.case sample.select_convs not_True_eq_False if_False by blast
  qed
  then show ?thesis by (auto simp: sim_api_def sim_start_def sim_remove_def)
qed

text \<open>C12. A borrowed message is settled once. When \<open>rmw_borrow_loaned_message\<close> fails, the caller's pointer and the
  loans are what they were; when it succeeds, the pointer is the address of a loan that was not out
  before. Returning or publishing it ends exactly that loan, and a second attempt to
  return or publish it is refused and changes nothing.\<close>
theorem loaned_message_once:
  fixes w :: "('i, 'm) world" and env :: "'m ros_env"
  assumes r: "publisher_ready loaned port p h i w" and c: "loan_contract api port loaned"
    and pod: "rp_can_loan_messages h" and ts: "ts \<noteq> nullptr"
    and n: "message_size env (pub_typesupport i) w = Some (n, w)"
  shows "\<exists>x out w1. rmw_borrow_loaned_message api env p ts (Some nullptr) w = Some ((x, out), w1) \<and>
    (if x \<noteq> RMW_RET_OK then out = Some nullptr \<and> errmsg w1 \<noteq> None \<and> loaned (iox w1) = loaned (iox w)
     else \<exists>a. out = Some a \<and> a \<noteq> nullptr \<and> a \<notin> loaned (iox w) \<and> loaned (iox w1) = insert a (loaned (iox w)) \<and>
       (\<forall>f \<in> {rmw_return_loaned_message_from_publisher api p a, rmw_publish_loaned_message api p a}.
        \<exists>y w2. f w1 = Some (y, w2) \<and> loaned (iox w2) = loaned (iox w) \<and>
          (\<forall>g \<in> {rmw_return_loaned_message_from_publisher api p a, rmw_publish_loaned_message api p a}.
           \<exists>w3. g w2 = Some (RMW_RET_ERROR, w3) \<and> iox w3 = iox w2 \<and> heap w3 = heap w2)))"
proof -
  note def = loan_calls_simps(3) [OF r pod ts n]
  show ?thesis
  proof (rule publisher_loan_call [OF r c, of n], goal_cases)
    case (1 e w1)
    then show ?case by (simp add: def fail_def)
  next
    case (2 s reg w1)
    let ?a = "smp_data s"
    have "\<exists>y w2. f w1 = Some (y, w2) \<and> loaned (iox w2) = loaned (iox w) \<and>
        (\<forall>g \<in> {rmw_return_loaned_message_from_publisher api p ?a, rmw_publish_loaned_message api p ?a}.
         \<exists>w3. g w2 = Some (RMW_RET_ERROR, w3) \<and> iox w3 = iox w2 \<and> heap w3 = heap w2)"
      if f: "f \<in> {rmw_return_loaned_message_from_publisher api p ?a, rmw_publish_loaned_message api p ?a}" for f
    proof -
      obtain y w2 k where f1: "f w1 = Some (y, w2)" "publisher_ready loaned port p h k w2"
        "loaned (iox w2) = loaned (iox w1) - {?a}"
        using end_loan [OF 2(6) c pod 2(7) f] by blast
      then have l: "loaned (iox w2) = loaned (iox w)" "?a \<notin> loaned (iox w2)" using 2(8,9) by auto
      have "\<exists>w3. g w2 = Some (RMW_RET_ERROR, w3) \<and> iox w3 = iox w2 \<and> heap w3 = heap w2"
        if "g \<in> {rmw_return_loaned_message_from_publisher api p ?a, rmw_publish_loaned_message api p ?a}" for g
        using end_loan [OF f1(2) c pod 2(7) that] l(2) by blast
      with f1(1) l show ?thesis by (intro exI [of _ y] exI [of _ w2]) simp
    qed
    with 2 show ?case by (simp add: def)
  qed
qed

text \<open>The handle at 22.\<close>
theorem loaned_message_once_witness:
  "\<exists>x out w1. rmw_borrow_loaned_message sim_api sim_env 22 1 (Some nullptr) sim_world = Some ((x, out), w1)"
proof -
  have "message_size sim_env (pub_typesupport sim_publisher) sim_world = Some (8, sim_world)"
    by (simp add: message_size_def typesupport_handle_def sim_env_def sim_members_def sim_publisher_def)
  from loaned_message_once [OF sim_publisher_ready sim_loan_contract _ _ this, of 1] show ?thesis by auto
qed

end
