(* ===== verification/Rmw_Subscription.thy ===== *)
theory Rmw_Subscription
  imports Rmw_Serialize Rmw_Endpoint
begin

text \<open>
  \<open>rmw/subscription.cpp\<close>: creating and destroying subscriptions through the C interface, and the ways
  to take: a copy of a self-contained message, any other deserialized from a loan, the loan itself,
  and the serialized bytes. An output argument is \<open>None\<close> for a null pointer, and otherwise the value it
  points to, which the call returns updated.
\<close>

section \<open>Creation and destruction\<close>

text \<open>On every failure the handle is freed, but not the copy of the topic's name.\<close>

definition rmw_create_subscription ::
  "'i iox2 \<Rightarrow> 'm ros_env \<Rightarrow> ptr \<Rightarrow> ptr \<Rightarrow> ptr \<Rightarrow> rmw_qos_profile option \<Rightarrow> ptr \<Rightarrow> ('i, 'm) world \<Rightarrow>
   (ptr \<times> ('i, 'm) world) option" where
  "rmw_create_subscription api env rmw_node type_support topic_name qos_profile subscription_options w =
     ensure_not_null rmw_node ''rmw_node'' nullptr w (do {
       node \<leftarrow> load as_node rmw_node w;
       ensure_not_null (rn_context node) ''rmw_node->context'' nullptr w (do {
         ctx \<leftarrow> load as_context (rn_context node) w;
         ensure_not_null (rc_impl ctx) ''rmw_node->context->impl'' nullptr w (
         ensure_implementation (rn_identifier node) ''rmw_node->implementation_identifier'' nullptr w (
         ensure_not_null type_support ''type_support'' nullptr w (
         ensure_valid_typesupport env type_support nullptr w (\<lambda>w.
         ensure_not_null topic_name ''topic_name'' nullptr w (
         ensure_given qos_profile ''qos_profile'' nullptr w (\<lambda>qos.
         ensure_valid_qos qos nullptr w (do {
           topic \<leftarrow> load as_string topic_name w;
           (if qos_avoid_ros_namespace_conventions qos then (\<lambda>rest. rest)
            else ensure_valid (validate_full_topic_name env) ''invalid topic name: '' topic nullptr w) (
           ensure_not_null subscription_options ''subscription_options'' nullptr w (
           case rmw_allocate env (\<lambda>g. SubscriptionHandle
                  \<lparr>rs_identifier = rmw_get_implementation_identifier, rs_data = g, rs_topic_name = g,
                   rs_can_loan_messages = False\<rparr>) w of
             (rmw_subscription, w) \<Rightarrow>
               if rmw_subscription = nullptr
               then fail nullptr ''failed to allocator memoery for rmw_subscription_t'' w
               else
                 let (pod, w) = is_pod_typesupport env type_support w in do {
                 handle \<leftarrow> load as_subscription rmw_subscription w;
                 w \<leftarrow> store SubscriptionHandle rmw_subscription (handle\<lparr>rs_can_loan_messages := pod\<rparr>) w;
                 case allocate_copy env topic w of
                   (Inl _, w) \<Rightarrow> do {
                     w \<leftarrow> rmw_free rmw_subscription w;
                     fail nullptr ''failed to allocate memory for topic name'' w }
                 | (Inr topic_ptr, w) \<Rightarrow> do {
                     handle \<leftarrow> load as_subscription rmw_subscription w;
                     w \<leftarrow> store SubscriptionHandle rmw_subscription (handle\<lparr>rs_topic_name := topic_ptr\<rparr>) w;
                     case unsafe_cast (rn_data node) w of
                       (Inl _, w) \<Rightarrow> do {
                         w \<leftarrow> rmw_free rmw_subscription w;
                         fail nullptr ''failed to retrieve Node'' w }
                     | (Inr node_ptr, w) \<Rightarrow> do {
                         node_impl \<leftarrow> load as_node_impl node_ptr w;
                         create_impl env Sub_INVARIANT_VIOLATION SubscriberObj as_subscriber_impl
                           (Subscriber_dtor api) (Subscriber_ctor api node_impl topic type_support)
                           (rmw_free rmw_subscription)
                           (\<lambda>subscriber_impl w. do {
                              handle \<leftarrow> load as_subscription rmw_subscription w;
                              w \<leftarrow> store SubscriptionHandle rmw_subscription (handle\<lparr>rs_data := subscriber_impl\<rparr>) w;
                              Some (rmw_subscription, w) })
                           ''failed to allocate memory for Subscriber'' ''failed to construct Subscriber'' w } } })) }))))))) }) })"

definition rmw_destroy_subscription ::
  "'i iox2 \<Rightarrow> ptr \<Rightarrow> ptr \<Rightarrow> ('i, 'm) world \<Rightarrow> (rmw_ret \<times> ('i, 'm) world) option" where
  "rmw_destroy_subscription api rmw_node rmw_subscription w =
     ensure_not_null rmw_node ''rmw_node'' RMW_RET_INVALID_ARGUMENT w (do {
       node \<leftarrow> load as_node rmw_node w;
       ensure_implementation (rn_identifier node) ''rmw_node->implementation_identifier''
         RMW_RET_INCORRECT_RMW_IMPLEMENTATION w (
       ensure_not_null rmw_subscription ''rmw_subscription'' RMW_RET_INVALID_ARGUMENT w (do {
         handle \<leftarrow> load as_subscription rmw_subscription w;
         ensure_implementation (rs_identifier handle) ''rmw_subscription->implementation_identifier''
           RMW_RET_INCORRECT_RMW_IMPLEMENTATION w (do {
           w \<leftarrow> (if rs_data handle \<noteq> nullptr
                 then do {
                   w \<leftarrow> destruct as_subscriber_impl (Subscriber_dtor api) (rs_data handle) w;
                   w \<leftarrow> deallocate (rs_data handle) w;
                   store SubscriptionHandle rmw_subscription (handle\<lparr>rs_data := nullptr\<rparr>) w }
                 else Some w);
           w \<leftarrow> rmw_free rmw_subscription w;
           Some (RMW_RET_OK, w) }) })) })"

section \<open>Taking messages\<close>

abbreviation subscriber_method ::
  "ptr \<Rightarrow> (subscriber_impl \<Rightarrow> ('i, 'm) world \<Rightarrow> ('r \<times> subscriber_impl \<times> ('i, 'm) world) option) \<Rightarrow>
   ('i, 'm) world \<Rightarrow> ('r \<times> ('i, 'm) world) option" where
  "subscriber_method \<equiv> method_call SubscriberObj as_subscriber_impl"

text \<open>The message at an address after bytes were copied over it; without bytes it stays as it is.\<close>

definition copy_to_message ::
  "'m ros_env \<Rightarrow> ptr \<Rightarrow> u8 list option \<Rightarrow> ('i, 'm) world \<Rightarrow> ('i, 'm) world option" where
  "copy_to_message env ros_message bytes w =
     (case bytes of
        None \<Rightarrow> Some w
      | Some bs \<Rightarrow> do { msg \<leftarrow> load as_message ros_message w; store Message ros_message (msg_write env bs msg) w })"

text \<open>
  The message to deserialize from is a structure on the stack over the payload of the loan. A
  failure of the deserialization returns without giving the loan back.
\<close>

definition rmw_take ::
  "'i iox2 \<Rightarrow> 'm ros_env \<Rightarrow> ptr \<Rightarrow> ptr \<Rightarrow> bool option \<Rightarrow> ('i, 'm) world \<Rightarrow>
   ((rmw_ret \<times> bool option) \<times> ('i, 'm) world) option" where
  "rmw_take api env rmw_subscription ros_message taken w =
     (let ret = \<lambda>r. (r, taken) in
      ensure_not_null rmw_subscription ''rmw_subscription'' (ret RMW_RET_INVALID_ARGUMENT) w (do {
        handle \<leftarrow> load as_subscription rmw_subscription w;
        ensure_implementation (rs_identifier handle) ''rmw_subscription->implementation_identifier''
          (ret RMW_RET_INCORRECT_RMW_IMPLEMENTATION) w (
        ensure_not_null ros_message ''ros_message'' (ret RMW_RET_INVALID_ARGUMENT) w (
        ensure_given taken ''taken'' (ret RMW_RET_INVALID_ARGUMENT) w (\<lambda>_.
          case unsafe_cast (rs_data handle) w of
            (Inl _, w) \<Rightarrow> fail (ret RMW_RET_ERROR) ''failed to retrieve Subscriber'' w
          | (Inr subscriber_impl, w) \<Rightarrow>
              if rs_can_loan_messages handle
              then do {
                s \<leftarrow> load as_subscriber_impl subscriber_impl w;
                (take_result, bytes, w) \<leftarrow> Subscriber_take_copy api s w;
                w \<leftarrow> copy_to_message env ros_message bytes w;
                case take_result of
                  Inl _ \<Rightarrow> fail (ret RMW_RET_ERROR) ''failed to take copy from subscriber'' w
                | Inr received \<Rightarrow> Some ((RMW_RET_OK, Some received), w) }
              else do {
                (loan_result, w) \<leftarrow> subscriber_method subscriber_impl (Subscriber_take_loan api) w;
                case loan_result of
                  Inl _ \<Rightarrow> fail (ret RMW_RET_ERROR) ''failed to take loan from subscriber'' w
                | Inr None \<Rightarrow> Some ((RMW_RET_OK, Some False), w)
                | Inr (Some loan) \<Rightarrow> do {
                    s \<leftarrow> load as_subscriber_impl subscriber_impl w;
                    (result, w) \<leftarrow> rmw_deserialize api env
                      (Some \<lparr>sm_buffer = loan_bytes loan, sm_length = loan_number_of_bytes loan,
                             sm_capacity = loan_number_of_bytes loan\<rparr>) (sub_typesupport s) ros_message w;
                    if result \<noteq> RMW_RET_OK
                    then fail (RMW_RET_ERROR, Some True) ''failed to deserialize received message'' w
                    else do {
                      (result, w) \<leftarrow> subscriber_method subscriber_impl
                        (Subscriber_return_loan api (loan_bytes loan)) w;
                      case result of
                        Inl _ \<Rightarrow> fail (RMW_RET_ERROR, Some True) ''failed to return loaned serialized payload'' w
                      | Inr _ \<Rightarrow> Some ((RMW_RET_OK, Some True), w) } } }))) }))"

definition rmw_take_with_info ::
  "'i iox2 \<Rightarrow> 'm ros_env \<Rightarrow> ptr \<Rightarrow> ptr \<Rightarrow> bool option \<Rightarrow> ptr \<Rightarrow> ('i, 'm) world \<Rightarrow>
   ((rmw_ret \<times> bool option) \<times> ('i, 'm) world) option" where
  "rmw_take_with_info api env rmw_subscription ros_message taken message_info w =
     (let ret = \<lambda>r. (r, taken) in
      ensure_not_null rmw_subscription ''rmw_subscription'' (ret RMW_RET_INVALID_ARGUMENT) w (
      ensure_not_null ros_message ''ros_message'' (ret RMW_RET_INVALID_ARGUMENT) w (
      ensure_given taken ''taken'' (ret RMW_RET_INVALID_ARGUMENT) w (\<lambda>_.
      ensure_not_null message_info ''message_info'' (ret RMW_RET_INVALID_ARGUMENT) w (do {
        handle \<leftarrow> load as_subscription rmw_subscription w;
        ensure_implementation (rs_identifier handle) ''rmw_subscription->implementation_identifier''
          (ret RMW_RET_INCORRECT_RMW_IMPLEMENTATION) w (
          rmw_take api env rmw_subscription ros_message taken w) })))))"

text \<open>Without a message, unlike the other checks.\<close>

definition ensure_can_loan :: "bool \<Rightarrow> 'r \<Rightarrow> ('i, 'm) world \<Rightarrow> ('r \<times> ('i, 'm) world) option \<Rightarrow>
   ('r \<times> ('i, 'm) world) option" where
  "ensure_can_loan can_loan_messages return_value w rest =
     (if \<not> can_loan_messages then Some (return_value, w) else rest)"

definition rmw_take_loaned_message ::
  "'i iox2 \<Rightarrow> ptr \<Rightarrow> ptr option \<Rightarrow> bool option \<Rightarrow> ('i, 'm) world \<Rightarrow>
   ((rmw_ret \<times> ptr option \<times> bool option) \<times> ('i, 'm) world) option" where
  "rmw_take_loaned_message api rmw_subscription loaned_message taken w =
     (let ret = \<lambda>r. (r, loaned_message, taken) in
      ensure_not_null rmw_subscription ''rmw_subscription'' (ret RMW_RET_INVALID_ARGUMENT) w (do {
        handle \<leftarrow> load as_subscription rmw_subscription w;
        ensure_implementation (rs_identifier handle) ''rmw_subscription->implementation_identifier''
          (ret RMW_RET_INCORRECT_RMW_IMPLEMENTATION) w (
        ensure_can_loan (rs_can_loan_messages handle) (ret RMW_RET_UNSUPPORTED) w (
        ensure_given taken ''taken'' (ret RMW_RET_INVALID_ARGUMENT) w (\<lambda>_.
        ensure_given loaned_message ''loaned_message'' (ret RMW_RET_INVALID_ARGUMENT) w (\<lambda>current.
        ensure_null current ''*loaned_message'' (ret RMW_RET_INVALID_ARGUMENT) w (
          if \<not> rs_can_loan_messages handle
          then fail (ret RMW_RET_INVALID_ARGUMENT) ''non-self-contained messages do not support loaning'' w
          else if \<not> rs_can_loan_messages handle
          then fail (ret RMW_RET_UNSUPPORTED)
            ''attempted to take loan from subscription that does not support loaning'' w
          else
            case unsafe_cast (rs_data handle) w of
              (Inl _, w) \<Rightarrow> fail (ret RMW_RET_ERROR) ''failed to retrieve Subscriber'' w
            | (Inr subscriber_impl, w) \<Rightarrow> do {
                (loan, w) \<leftarrow> subscriber_method subscriber_impl (Subscriber_take_loan api) w;
                case loan of
                  Inl _ \<Rightarrow> fail (ret RMW_RET_ERROR) ''failed to take sample from subscriber'' w
                | Inr None \<Rightarrow> Some ((RMW_RET_OK, loaned_message, Some False), w)
                | Inr (Some payload) \<Rightarrow> Some ((RMW_RET_OK, Some (loan_bytes payload), Some True), w) }))))) }))"

definition rmw_take_loaned_message_with_info ::
  "'i iox2 \<Rightarrow> ptr \<Rightarrow> ptr option \<Rightarrow> bool option \<Rightarrow> ptr \<Rightarrow> ('i, 'm) world \<Rightarrow>
   ((rmw_ret \<times> ptr option \<times> bool option) \<times> ('i, 'm) world) option" where
  "rmw_take_loaned_message_with_info api rmw_subscription loaned_message taken message_info w =
     (let ret = \<lambda>r. (r, loaned_message, taken) in
      ensure_not_null rmw_subscription ''rmw_subscription'' (ret RMW_RET_INVALID_ARGUMENT) w (do {
        handle \<leftarrow> load as_subscription rmw_subscription w;
        ensure_implementation (rs_identifier handle) ''rmw_subscription->implementation_identifier''
          (ret RMW_RET_INCORRECT_RMW_IMPLEMENTATION) w (
        ensure_can_loan (rs_can_loan_messages handle) (ret RMW_RET_UNSUPPORTED) w (
        ensure_given taken ''taken'' (ret RMW_RET_INVALID_ARGUMENT) w (\<lambda>_.
          rmw_take_loaned_message api rmw_subscription loaned_message taken w))) }))"

definition rmw_return_loaned_message_from_subscription ::
  "'i iox2 \<Rightarrow> ptr \<Rightarrow> ptr \<Rightarrow> ('i, 'm) world \<Rightarrow> (rmw_ret \<times> ('i, 'm) world) option" where
  "rmw_return_loaned_message_from_subscription api rmw_subscription loaned_message w =
     ensure_not_null rmw_subscription ''rmw_subscription'' RMW_RET_INVALID_ARGUMENT w (do {
       handle \<leftarrow> load as_subscription rmw_subscription w;
       ensure_implementation (rs_identifier handle) ''rmw_subscription->implementation_identifier''
         RMW_RET_INCORRECT_RMW_IMPLEMENTATION w (
       ensure_can_loan (rs_can_loan_messages handle) RMW_RET_UNSUPPORTED w (
       ensure_not_null loaned_message ''loaned_message'' RMW_RET_INVALID_ARGUMENT w (
         if \<not> rs_can_loan_messages handle
         then fail RMW_RET_INVALID_ARGUMENT ''non-self-contained messages do not support loaning'' w
         else
           case unsafe_cast (rs_data handle) w of
             (Inl _, w) \<Rightarrow> fail RMW_RET_ERROR ''failed to retrieve Subscriber'' w
           | (Inr subscriber_impl, w) \<Rightarrow> do {
               (result, w) \<leftarrow> subscriber_method subscriber_impl (Subscriber_return_loan api loaned_message) w;
               case result of
                 Inl _ \<Rightarrow> fail RMW_RET_ERROR ''failed to return loaned message to publisher'' w
               | Inr _ \<Rightarrow> Some (RMW_RET_OK, w) }))) })"

text \<open>
  \<open>rmw_serialized_message_resize\<close> belongs to rcutils: \<open>resize\<close> gets the message and the size and
  returns the status and the message. The length of the message is not set here.
\<close>

definition rmw_take_serialized_message ::
  "'i iox2 \<Rightarrow> (rmw_serialized_message \<Rightarrow> nat \<Rightarrow> ('i, 'm) world \<Rightarrow> (rmw_ret \<times> rmw_serialized_message) \<times> ('i, 'm) world) \<Rightarrow>
   ptr \<Rightarrow> rmw_serialized_message option \<Rightarrow> bool option \<Rightarrow> ('i, 'm) world \<Rightarrow>
   ((rmw_ret \<times> rmw_serialized_message option \<times> bool option) \<times> ('i, 'm) world) option" where
  "rmw_take_serialized_message api resize rmw_subscription serialized_message taken w =
     (let ret = \<lambda>r. (r, serialized_message, taken) in
      ensure_not_null rmw_subscription ''rmw_subscription'' (ret RMW_RET_INVALID_ARGUMENT) w (do {
        handle \<leftarrow> load as_subscription rmw_subscription w;
        ensure_implementation (rs_identifier handle) ''rmw_subscription->implementation_identifier''
          (ret RMW_RET_INCORRECT_RMW_IMPLEMENTATION) w (
        ensure_given serialized_message ''serialized_message'' (ret RMW_RET_INVALID_ARGUMENT) w (\<lambda>sm.
        ensure_given taken ''taken'' (ret RMW_RET_INVALID_ARGUMENT) w (\<lambda>_.
          case unsafe_cast (rs_data handle) w of
            (Inl _, w) \<Rightarrow> fail (ret RMW_RET_ERROR) ''failed to retrieve Subscriber'' w
          | (Inr subscriber_impl, w) \<Rightarrow> do {
              (loan_result, w) \<leftarrow> subscriber_method subscriber_impl (Subscriber_take_loan api) w;
              case loan_result of
                Inl _ \<Rightarrow> fail (ret RMW_RET_ERROR) ''failed to take loan from subscriber'' w
              | Inr None \<Rightarrow> Some ((RMW_RET_OK, serialized_message, Some False), w)
              | Inr (Some loan) \<Rightarrow>
                  let ((result, sm), w) = resize sm (loan_number_of_bytes loan) w in
                  if result \<noteq> RMW_RET_OK
                  then fail (RMW_RET_ERROR, Some sm, Some True)
                    ''failed to resize serialized message to store received payload'' w
                  else do {
                    bytes \<leftarrow> read_buffer api (loan_bytes loan) (loan_number_of_bytes loan) w;
                    w \<leftarrow> write_buffer api (sm_buffer sm) bytes w;
                    (result, w) \<leftarrow> subscriber_method subscriber_impl
                      (Subscriber_return_loan api (loan_bytes loan)) w;
                    case result of
                      Inl _ \<Rightarrow> fail (RMW_RET_ERROR, Some sm, Some True)
                        ''failed to return loaned serialized payload'' w
                    | Inr _ \<Rightarrow> Some ((RMW_RET_OK, Some sm, Some True), w) } }))) }))"

section \<open>Queries and entry points without an implementation\<close>

text \<open>The sequences are given by their capacities.\<close>

definition rmw_take_sequence ::
  "ptr \<Rightarrow> nat \<Rightarrow> nat option \<Rightarrow> nat option \<Rightarrow> ptr \<Rightarrow> ('i, 'm) world \<Rightarrow> (rmw_ret \<times> ('i, 'm) world) option" where
  "rmw_take_sequence rmw_subscription count message_sequence message_info_sequence taken w =
     ensure_not_null rmw_subscription ''rmw_subscription'' RMW_RET_INVALID_ARGUMENT w (do {
       handle \<leftarrow> load as_subscription rmw_subscription w;
       ensure_implementation (rs_identifier handle) ''rmw_subscription->implementation_identifier''
         RMW_RET_INCORRECT_RMW_IMPLEMENTATION w (
       ensure_given message_sequence ''message_sequence'' RMW_RET_INVALID_ARGUMENT w (\<lambda>capacity.
       ensure_given message_info_sequence ''message_info_sequence'' RMW_RET_INVALID_ARGUMENT w (\<lambda>info_capacity.
       ensure_not_null taken ''taken'' RMW_RET_INVALID_ARGUMENT w (
         if count = 0 \<or> capacity < count \<or> info_capacity < count
         then Some (RMW_RET_INVALID_ARGUMENT, w)
         else Some (RMW_RET_UNSUPPORTED, w))))) })"

definition rmw_take_serialized_message_with_info ::
  "ptr \<Rightarrow> rmw_serialized_message option \<Rightarrow> bool option \<Rightarrow> ptr \<Rightarrow> ('i, 'm) world \<Rightarrow> (rmw_ret \<times> ('i, 'm) world) option" where
  "rmw_take_serialized_message_with_info rmw_subscription serialized_message taken message_info w =
     ensure_not_null rmw_subscription ''rmw_subscription'' RMW_RET_INVALID_ARGUMENT w (do {
       handle \<leftarrow> load as_subscription rmw_subscription w;
       ensure_implementation (rs_identifier handle) ''rmw_subscription->implementation_identifier''
         RMW_RET_INCORRECT_RMW_IMPLEMENTATION w (
       ensure_given serialized_message ''serialized_message'' RMW_RET_INVALID_ARGUMENT w (\<lambda>_.
       ensure_given taken ''taken'' RMW_RET_INVALID_ARGUMENT w (\<lambda>_.
       ensure_not_null message_info ''message_info'' RMW_RET_INVALID_ARGUMENT w (
         Some (RMW_RET_UNSUPPORTED, w))))) })"

definition rmw_subscription_count_matched_publishers ::
  "ptr \<Rightarrow> ptr \<Rightarrow> ('i, 'm) world \<Rightarrow> (rmw_ret \<times> ('i, 'm) world) option" where
  "rmw_subscription_count_matched_publishers rmw_subscription publisher_count w =
     ensure_not_null rmw_subscription ''rmw_subscription'' RMW_RET_INVALID_ARGUMENT w (do {
       handle \<leftarrow> load as_subscription rmw_subscription w;
       ensure_implementation (rs_identifier handle) ''rmw_subscription->implementation_identifier''
         RMW_RET_INCORRECT_RMW_IMPLEMENTATION w (
       ensure_not_null publisher_count ''publisher_count'' RMW_RET_INVALID_ARGUMENT w (
         Some (RMW_RET_UNSUPPORTED, w))) })"

definition rmw_subscription_get_actual_qos ::
  "'m ros_env \<Rightarrow> ptr \<Rightarrow> rmw_qos_profile option \<Rightarrow> ('i, 'm) world \<Rightarrow>
   ((rmw_ret \<times> rmw_qos_profile option) \<times> ('i, 'm) world) option" where
  "rmw_subscription_get_actual_qos env rmw_subscription qos w =
     (let ret = \<lambda>r. (r, qos) in
      ensure_not_null rmw_subscription ''rmw_subscription'' (ret RMW_RET_INVALID_ARGUMENT) w (do {
        handle \<leftarrow> load as_subscription rmw_subscription w;
        ensure_implementation (rs_identifier handle) ''rmw_subscription->implementation_identifier''
          (ret RMW_RET_INCORRECT_RMW_IMPLEMENTATION) w (
        ensure_given qos ''qos'' (ret RMW_RET_INVALID_ARGUMENT) w (\<lambda>_.
          Some ((RMW_RET_OK, Some (qos_profile_default env)), w))) }))"

definition rmw_take_dynamic_message :: rmw_ret where
  "rmw_take_dynamic_message = RMW_RET_UNSUPPORTED"

definition rmw_take_dynamic_message_with_info :: rmw_ret where
  "rmw_take_dynamic_message_with_info = RMW_RET_UNSUPPORTED"

definition rmw_init_subscription_allocation :: rmw_ret where
  "rmw_init_subscription_allocation = RMW_RET_UNSUPPORTED"

definition rmw_fini_subscription_allocation :: rmw_ret where
  "rmw_fini_subscription_allocation = RMW_RET_UNSUPPORTED"

definition rmw_subscription_set_content_filter :: rmw_ret where
  "rmw_subscription_set_content_filter = RMW_RET_UNSUPPORTED"

definition rmw_subscription_get_content_filter :: rmw_ret where
  "rmw_subscription_get_content_filter = RMW_RET_UNSUPPORTED"

definition rmw_subscription_set_on_new_message_callback :: rmw_ret where
  "rmw_subscription_set_on_new_message_callback = RMW_RET_UNSUPPORTED"

definition rmw_subscription_get_network_flow_endpoints :: rmw_ret where
  "rmw_subscription_get_network_flow_endpoints = RMW_RET_UNSUPPORTED"

section \<open>Creation\<close>

definition subscription_handle :: "ptr \<Rightarrow> ptr \<Rightarrow> bool \<Rightarrow> rmw_subscription" where
  "subscription_handle q t pod =
     \<lparr>rs_identifier = Iox2Ident, rs_data = q, rs_topic_name = t, rs_can_loan_messages = pod\<rparr>"

lemma subscription_handle_simps [simp]:
  "rs_identifier (subscription_handle q t pod) = Iox2Ident" "rs_data (subscription_handle q t pod) = q"
  "rs_topic_name (subscription_handle q t pod) = t" "rs_can_loan_messages (subscription_handle q t pod) = pod"
  "(subscription_handle q t pod)\<lparr>rs_data := q'\<rparr> = subscription_handle q' t pod"
  "(subscription_handle q t pod)\<lparr>rs_topic_name := t'\<rparr> = subscription_handle q t' pod"
  "(subscription_handle q t pod)\<lparr>rs_can_loan_messages := pod'\<rparr> = subscription_handle q t pod'"
  by (simp_all add: subscription_handle_def)

interpretation subscription_endpoint: endpoint_handle SubscriptionHandle as_subscription subscription_handle
  "\<lambda>pod h. h\<lparr>rs_can_loan_messages := pod\<rparr>" "\<lambda>t h. h\<lparr>rs_topic_name := t\<rparr>" "\<lambda>q h. h\<lparr>rs_data := q\<rparr>"
  by unfold_locales simp_all

lemma Subscriber_ctor_frame:
  "Subscriber_ctor api node topic ts w = Some (r, w') \<Longrightarrow> sys.more w' = sys.more w"
  by (auto simp: Subscriber_ctor_def Let_def dest!: call_more
      split: Option.bind_splits sum.splits prod.splits)

definition subscription_construct ::
  "'i iox2 \<Rightarrow> 'm ros_env \<Rightarrow> ptr \<Rightarrow> ptr \<Rightarrow> node_impl \<Rightarrow> string \<Rightarrow> ('i, 'm) world \<Rightarrow> (ptr \<times> ('i, 'm) world) option" where
  "subscription_construct api env type_support p node_impl topic w =
     create_impl env Sub_INVARIANT_VIOLATION SubscriberObj as_subscriber_impl
       (Subscriber_dtor api) (Subscriber_ctor api node_impl topic type_support) (rmw_free p)
       (\<lambda>q w. do {
          h \<leftarrow> load as_subscription p w;
          w \<leftarrow> store SubscriptionHandle p (h\<lparr>rs_data := q\<rparr>) w;
          Some (p, w) })
       ''failed to allocate memory for Subscriber'' ''failed to construct Subscriber'' w"

lemma rmw_create_subscription_endpoint:
  "rmw_create_subscription api env rmw_node ts topic_name qos options w =
   create_endpoint env SubscriptionHandle as_subscription (\<lambda>g. subscription_handle g g False)
     (\<lambda>pod h. h\<lparr>rs_can_loan_messages := pod\<rparr>) (\<lambda>t h. h\<lparr>rs_topic_name := t\<rparr>)
     ''qos_profile'' ''subscription_options'' ''failed to allocator memoery for rmw_subscription_t''
     (subscription_construct api env ts) rmw_node ts topic_name qos options w"
  unfolding rmw_create_subscription_def create_endpoint_def subscription_construct_def subscription_handle_def
    rmw_get_implementation_identifier_def ..

lemma create_subscription_cases:
  fixes w :: "('i, 'm) world"
  assumes wf: "world_wf w" and args: "endpoint_arguments_ok env rmw_node ts topic_name qos options topic w"
  obtains w' t where "rmw_create_subscription api env rmw_node ts topic_name (Some qos) options w = Some (nullptr, w')"
      "errmsg w' \<noteq> None" "world_wf w'" "heap w' = heap w \<or> heap w t = None \<and> heap w' = (heap w)(t \<mapsto> CString topic)"
  | p t q i w' where "rmw_create_subscription api env rmw_node ts topic_name (Some qos) options w = Some (p, w')"
      "p \<noteq> nullptr" "q \<noteq> nullptr" "distinct [p, t, q]" "heap w p = None" "heap w t = None" "heap w q = None"
      "heap w' = (heap w)(p \<mapsto> SubscriptionHandle (subscription_handle q t (pod_type env ts)), t \<mapsto> CString topic,
         q \<mapsto> SubscriberObj i)"
      "subscriber_wf i" "sub_topic i = topic" "sub_typesupport i = ts" "sub_registry i = []" "world_wf w'"
proof -
  show thesis
  proof (rule subscription_endpoint.create_cases [OF wf args subscriber_obj.object_kind_axioms,
        where ctor = "\<lambda>d topic. Subscriber_ctor api d topic ts" and good = subscriber_wf
        and build_impl = "subscription_construct api env ts" and qn = "''qos_profile''" and opn = "''subscription_options''"
        and ?m0.0 = "''failed to allocator memoery for rmw_subscription_t''", OF _ _ subscription_construct_def,
        folded rmw_create_subscription_endpoint], goal_cases)
    case (1 d w)
    then show ?case by (rule Subscriber_ctor_ok)
  next
    case (2 d w r w')
    then show ?case by (rule Subscriber_ctor_frame)
  next
    case (3 w' t)
    then show ?case by (rule that(1))
  next
    case (4 p t q i w' d w0 w1)
    with Subscriber_ctor_fields [OF 4(10)] show ?case by (intro that(2)) auto
  qed
qed

lemma destroy_subscription:
  fixes w :: "('i, 'm) world"
  assumes wf: "world_wf w" and n: "heap w rmw_node = Some (NodeHandle n)" "rn_identifier n = Iox2Ident"
    and p: "heap w p = Some (SubscriptionHandle h)" "rs_identifier h = Iox2Ident"
    and q: "heap w (rs_data h) = Some (SubscriberObj i)"
  shows "\<exists>w'. rmw_destroy_subscription api rmw_node p w = Some (RMW_RET_OK, w') \<and>
    heap w' = (heap w)(p := None, rs_data h := None) \<and> iox w' = Subscriber_dtor api i (iox w) \<and>
    errmsg w' = errmsg w"
proof -
  have "rmw_node \<noteq> nullptr" "p \<noteq> nullptr" "rs_data h \<noteq> nullptr" "rs_data h \<noteq> p"
    using wf n p q by (auto simp: world_wf_def)
  with assms show ?thesis
    by (simp add: rmw_destroy_subscription_def ensure_ok load_def destruct_def deallocate_def
        rmw_free_def store_def run_iox_def fun_upd_twist)
qed

end
