(* ===== verification/Rmw_Take_Correct.thy ===== *)
theory Rmw_Take_Correct
  imports Rmw_Subscription
begin

text \<open>What the calls of \<open>rmw/subscription.cpp\<close> do: the messages taken, the samples held and given back.\<close>

section \<open>Handles in use\<close>

text \<open>A handle of this implementation for a complete subscriber whose registry and port agree.\<close>

definition subscription_ready ::
  "('i \<Rightarrow> ptr set) \<Rightarrow> nat \<Rightarrow> ptr \<Rightarrow> rmw_subscription \<Rightarrow> subscriber_impl \<Rightarrow> ('i, 'm) world \<Rightarrow> bool" where
  "subscription_ready held port p h s w \<longleftrightarrow>
     p \<noteq> nullptr \<and> rs_data h \<noteq> nullptr \<and> heap w p = Some (SubscriptionHandle h) \<and> rs_identifier h = Iox2Ident \<and>
     heap w (rs_data h) = Some (SubscriberObj s) \<and> subscriber_balanced held s w \<and> sub_subscriber s = Some port"

lemma subscription_ready_cong:
  "heap w' = heap w \<Longrightarrow> iox w' = iox w \<Longrightarrow> subscription_ready held port p h s w' = subscription_ready held port p h s w"
  by (simp add: subscription_ready_def subscriber_balanced_def)

lemma subscription_ready_chain [simp]:
  "subscription_ready held port p h s (chain m w) = subscription_ready held port p h s w"
  by (rule subscription_ready_cong) simp_all

lemma subscription_ready_loads:
  "subscription_ready held port p h s w \<Longrightarrow>
   load as_subscription p w = Some h \<and> load as_subscriber_impl (rs_data h) w = Some s \<and>
   rs_identifier h = Iox2Ident \<and> p \<noteq> nullptr \<and> rs_data h \<noteq> nullptr"
  by (simp add: subscription_ready_def load_def)

lemma subscriber_methods_frame:
  "Subscriber_take_copy api s w = Some (r, bs, w') \<Longrightarrow> sys.more w' = sys.more w"
  "Subscriber_take_loan api s w = Some (r1, s', w') \<Longrightarrow> sys.more w' = sys.more w"
  "Subscriber_return_loan api a s w = Some (r2, s', w') \<Longrightarrow> sys.more w' = sys.more w"
  by (auto simp: Subscriber_take_copy_def Subscriber_take_loan_def Subscriber_return_loan_def
      registry_store_def Let_def dest!: call_more
      split: Option.bind_splits sum.splits prod.splits if_splits option.splits SampleRegistryError.splits)

text \<open>A method call through the address keeps it ready, and gives what the method gives.\<close>

lemma subscriber_method_ready:
  fixes w :: "('i, 'm) world"
  assumes r: "subscription_ready held port p h s w" and c: "receive_contract api port held"
    and f: "f s w = Some (x, s', w1)" and step: "subscriber_step api (s, w) (s', w1)"
    and more: "sys.more w1 = sys.more w"
  shows "subscriber_method (rs_data h) f w = Some (x, w1\<lparr>heap := (heap w)(rs_data h \<mapsto> SubscriberObj s')\<rparr>) \<and>
    subscription_ready held port p h s' (w1\<lparr>heap := (heap w)(rs_data h \<mapsto> SubscriberObj s')\<rparr>)"
  using r subscriber_obj.method_result [where f = f, OF _ f more] subscriber_step_balanced [OF step _ _ c]
  by (auto simp: subscription_ready_def subscriber_balanced_def)

text \<open>The same as a postcondition.\<close>

definition subscription_up ::
  "('i \<Rightarrow> ptr set) \<Rightarrow> nat \<Rightarrow> ptr \<Rightarrow> rmw_subscription \<Rightarrow> ('i, 'm) world \<Rightarrow> bool" where
  "subscription_up held port p h w \<longleftrightarrow> (\<exists>s. subscription_ready held port p h s w)"

lemma subscription_up_chain [simp]:
  "subscription_up held port p h (chain m w) = subscription_up held port p h w"
  by (simp add: subscription_up_def)

lemma subscription_up_loads:
  "subscription_up held port p h w \<Longrightarrow>
   load as_subscription p w = Some h \<and> rs_identifier h = Iox2Ident \<and> p \<noteq> nullptr \<and> rs_data h \<noteq> nullptr"
  by (auto simp: subscription_up_def dest: subscription_ready_loads)

lemma subscription_up_methods:
  fixes w :: "('i, 'm) world"
  assumes u: "subscription_up held port p h w" and c: "receive_contract api port held"
  shows "post (subscription_up held port p h) (subscriber_method (rs_data h) (Subscriber_take_loan api) w)"
    and "post (subscription_up held port p h) (subscriber_method (rs_data h) (Subscriber_return_loan api a) w)"
proof -
  obtain s where r: "subscription_ready held port p h s w" using u by (auto simp: subscription_up_def)
  note q = subscription_ready_loads [OF r, unfolded subscriber_obj.load_iff]
  show "post (subscription_up held port p h) (subscriber_method (rs_data h) (Subscriber_take_loan api) w)"
    unfolding post_def subscription_up_def
  proof (intro allI impI)
    fix x w' assume m: "subscriber_method (rs_data h) (Subscriber_take_loan api) w = Some (x, w')"
    from q obtain s' w1 where "Subscriber_take_loan api s w = Some (x, s', w1)"
      by (auto elim: subscriber_obj.method_inv [OF _ m])
    from subscriber_method_ready [where f = "Subscriber_take_loan api", OF r c this
        subscriber_step.take_loan [OF this] subscriber_methods_frame(2) [OF this]] m
    show "\<exists>s. subscription_ready held port p h s w'" by auto
  qed
  show "post (subscription_up held port p h) (subscriber_method (rs_data h) (Subscriber_return_loan api a) w)"
    unfolding post_def subscription_up_def
  proof (intro allI impI)
    fix x w' assume m: "subscriber_method (rs_data h) (Subscriber_return_loan api a) w = Some (x, w')"
    from q obtain s' w1 where "Subscriber_return_loan api a s w = Some (x, s', w1)"
      by (auto elim: subscriber_obj.method_inv [OF _ m])
    from subscriber_method_ready [where f = "Subscriber_return_loan api a", OF r c this
        subscriber_step.return_loan [OF this] subscriber_methods_frame(3) [OF this]] m
    show "\<exists>s. subscription_ready held port p h s w'" by auto
  qed
qed

lemma subscription_up_copy:
  fixes w :: "('i, 'm) world"
  assumes "subscription_up held port p h w" and "receive_contract api port held"
    and "load as_subscriber_impl (rs_data h) w = Some s" and "Subscriber_take_copy api s w = Some (x, bs, w')"
  shows "subscription_up held port p h w'"
  using assms subscriber_step_balanced [OF subscriber_step.take_copy [OF assms(4)] _ _ assms(2)]
    world_more [OF subscriber_methods_frame(1) [OF assms(4)]]
  by (auto simp: subscription_up_def subscription_ready_def load_def)

text \<open>Messages and buffers are other objects.\<close>

lemma subscription_up_message:
  "subscription_up held port p h w \<Longrightarrow> load as_message a w = Some m \<Longrightarrow> store Message a m' w = Some w' \<Longrightarrow>
   subscription_up held port p h w'"
  by (auto simp: subscription_up_def subscription_ready_def subscriber_balanced_def message.load_iff store_def)

lemma subscription_up_copy_to_message:
  "copy_to_message env a bs w = Some w' \<Longrightarrow> subscription_up held port p h w \<Longrightarrow> subscription_up held port p h w'"
  by (auto simp: copy_to_message_def split: option.splits Option.bind_splits intro: subscription_up_message)

lemma subscription_up_typesupport:
  "typesupport_handle th w = (d, w') \<Longrightarrow> subscription_up held port p h w \<Longrightarrow> subscription_up held port p h w'"
  by (auto simp: typesupport_handle_def subscription_up_def subscription_ready_def subscriber_balanced_def
      split: sum.splits option.splits)

lemma subscription_up_deserialize:
  assumes "subscription_up held port p h w"
  shows "post (subscription_up held port p h) (rmw_deserialize api env sm ts m w)"
  unfolding rmw_deserialize_def Let_def
  by (intro post_intros post_bind_option)
    (use assms in \<open>auto dest: subscription_up_typesupport intro: subscription_up_message\<close>)

text \<open>
  What rcutils documents of resizing: only the message's buffer changes hands, the new one has the
  requested size, and the length is only ever cut off.
\<close>

definition resize_contract ::
  "(rmw_serialized_message \<Rightarrow> nat \<Rightarrow> ('i, 'm) world \<Rightarrow> (rmw_ret \<times> rmw_serialized_message) \<times> ('i, 'm) world) \<Rightarrow> bool" where
  "resize_contract resize \<longleftrightarrow>
     (\<forall>sm n w r sm' w'. resize sm n w = ((r, sm'), w') \<longrightarrow>
        iox w' = iox w \<and> (world_wf w \<longrightarrow> world_wf w') \<and>
        (\<forall>a ob. heap w a = Some ob \<longrightarrow> (\<forall>bs. ob \<noteq> Bytes bs) \<longrightarrow> heap w' a = Some ob) \<and>
        (r = RMW_RET_OK \<longrightarrow> sm_capacity sm' = n \<and> sm_length sm' = min (sm_length sm) n \<and>
           (\<exists>bs. heap w' (sm_buffer sm') = Some (Bytes bs) \<and> length bs = n)) \<and>
        (r \<noteq> RMW_RET_OK \<longrightarrow> sm' = sm))"

lemma subscription_up_resize:
  "resize sm n w = (rs, w') \<Longrightarrow> resize_contract resize \<Longrightarrow> subscription_up held port p h w \<Longrightarrow>
   subscription_up held port p h w'"
  unfolding resize_contract_def subscription_up_def subscription_ready_def subscriber_balanced_def
  by (cases rs) (metis obj.distinct)

lemma subscription_up_write:
  "write_buffer api a bs w = Some w' \<Longrightarrow> subscription_up held port p h w \<Longrightarrow>
   receive_contract api port held \<Longrightarrow> subscription_up held port p h w'"
  by (auto simp: write_buffer_def subscription_up_def subscription_ready_def subscriber_balanced_def run_iox_def
      receive_contractD(8) split: option.splits obj.splits if_splits)

section \<open>The calls on one subscription\<close>

lemmas subscription_post_intros =
  post_intros post_bind_inv [OF subscription_up_methods(1)] post_bind_inv [OF subscription_up_methods(2)]
  post_bind_inv [OF subscription_up_deserialize] post_bind_option

lemma subscription_up_calls:
  assumes "subscription_up held port p h w" and c: "receive_contract api port held"
  shows "post (subscription_up held port p h) (rmw_take api env p m tk w)"
    and "post (subscription_up held port p h) (rmw_take_loaned_message api p lm tk w)"
    and "post (subscription_up held port p h) (rmw_return_loaned_message_from_subscription api p a w)"
    and "resize_contract resize \<Longrightarrow> post (subscription_up held port p h) (rmw_take_serialized_message api resize p sm tk w)"
proof -
  note u = assms(1) and ld = subscription_up_loads [OF assms(1)]
  show "post (subscription_up held port p h) (rmw_take api env p m tk w)"
    unfolding rmw_take_def Let_def
    by (simp add: ld unsafe_cast_ok cong: if_cong split del: if_split, intro subscription_post_intros)
      (use u c in \<open>auto dest: subscription_up_copy subscription_up_copy_to_message\<close>)
  show "post (subscription_up held port p h) (rmw_take_loaned_message api p lm tk w)"
    unfolding rmw_take_loaned_message_def Let_def ensure_can_loan_def
    by (simp add: ld unsafe_cast_ok cong: if_cong split del: if_split, intro subscription_post_intros; simp add: u c)
  show "post (subscription_up held port p h) (rmw_return_loaned_message_from_subscription api p a w)"
    unfolding rmw_return_loaned_message_from_subscription_def Let_def ensure_can_loan_def
    by (simp add: ld unsafe_cast_ok cong: if_cong split del: if_split, intro subscription_post_intros; simp add: u c)
  show "post (subscription_up held port p h) (rmw_take_serialized_message api resize p sm tk w)" if "resize_contract resize"
    unfolding rmw_take_serialized_message_def Let_def
    by (simp add: ld unsafe_cast_ok cong: if_cong split del: if_split, intro subscription_post_intros)
      (use assms that in \<open>auto dest: subscription_up_resize subscription_up_write\<close>)
qed

inductive rmw_subscription_call ::
  "'i iox2 \<Rightarrow> 'm ros_env \<Rightarrow> (rmw_serialized_message \<Rightarrow> nat \<Rightarrow> ('i, 'm) world \<Rightarrow>
     (rmw_ret \<times> rmw_serialized_message) \<times> ('i, 'm) world) \<Rightarrow> ptr \<Rightarrow> ('i, 'm) world \<Rightarrow> ('i, 'm) world \<Rightarrow> bool"
  for api env resize p where
  take_message: "rmw_take api env p m tk w = Some (r, w') \<Longrightarrow> rmw_subscription_call api env resize p w w'"
| take_with_info: "rmw_take_with_info api env p m tk mi w = Some (r, w') \<Longrightarrow> rmw_subscription_call api env resize p w w'"
| take_loaned: "rmw_take_loaned_message api p lm tk w = Some (r, w') \<Longrightarrow> rmw_subscription_call api env resize p w w'"
| take_loaned_with_info:
    "rmw_take_loaned_message_with_info api p lm tk mi w = Some (r, w') \<Longrightarrow> rmw_subscription_call api env resize p w w'"
| return_loaned:
    "rmw_return_loaned_message_from_subscription api p a w = Some (r, w') \<Longrightarrow> rmw_subscription_call api env resize p w w'"
| take_serialized:
    "rmw_take_serialized_message api resize p sm tk w = Some (r, w') \<Longrightarrow> rmw_subscription_call api env resize p w w'"

lemma subscription_up_info_calls:
  assumes "subscription_up held port p h w" and c: "receive_contract api port held"
  shows "post (subscription_up held port p h) (rmw_take_with_info api env p m tk mi w)"
    and "post (subscription_up held port p h) (rmw_take_loaned_message_with_info api p lm tk mi w)"
  unfolding rmw_take_with_info_def rmw_take_loaned_message_with_info_def Let_def ensure_can_loan_def
  by (simp add: subscription_up_loads [OF assms(1)] cong: if_cong split del: if_split, intro subscription_post_intros;
      simp add: assms subscription_up_calls [OF assms])+

lemma rmw_subscription_calls_up:
  assumes "(rmw_subscription_call api env resize p)\<^sup>*\<^sup>* w w'" and "subscription_up held port p h w"
    and "receive_contract api port held" and "resize_contract resize"
  shows "subscription_up held port p h w'"
  using assms(1,2)
proof (induction rule: rtranclp_induct)
  case (step w w')
  from step(2) have u: "subscription_up held port p h w" using step by simp
  note calls = subscription_up_calls [OF step(3) [OF step(4)] assms(3)] subscription_up_info_calls [OF step(3) [OF step(4)] assms(3)]
  from step(2) show ?case by cases (blast dest: postD intro: calls assms(4))+
qed

text \<open>Destroying a subscriber gives every sample back.\<close>

lemma registry_dtor_gives_back:
  "receive_contract api port held \<Longrightarrow> registry_wf reg \<Longrightarrow> held (registry_dtor api reg i) = held i - fst ` set reg"
proof (induction reg arbitrary: i)
  case Nil
  then show ?case by (simp add: registry_dtor_def)
next
  case (Cons a reg)
  then show ?case
    by (cases a) (auto simp: registry_dtor_def registry_wf_def receive_contractD(6))
qed

lemma Subscriber_dtor_gives_back:
  assumes "subscriber_balanced held s w" and c: "receive_contract api port held"
  shows "held (Subscriber_dtor api s (iox w)) = {}"
proof -
  from assms(1) have "registry_wf (sub_registry s)" "fst ` set (sub_registry s) = held (iox w)"
    by (auto simp: subscriber_balanced_def subscriber_wf_def dom_map_of_conv_image_fst)
  with c show ?thesis
    by (simp add: Subscriber_dtor_def drop_opt_def receive_contractD(7) registry_dtor_gives_back split: option.split)
qed

section \<open>What taking does\<close>

lemma take_loan_call:
  fixes w :: "('i, 'm) world"
  assumes r: "subscription_ready held port p h s w" and c: "receive_contract api port held"
  obtains e w' where "receive api port (iox w) = (Inl e, iox w')" "errmsg w' \<noteq> None" "heap w' = heap w"
      "subscriber_method (rs_data h) (Subscriber_take_loan api) w = Some (Inl RECV_FAILURE, w')"
      "subscription_ready held port p h s w'" "held (iox w') = held (iox w)"
  | w' where "receive api port (iox w) = (Inr None, iox w')" "heap w' = heap w"
      "subscriber_method (rs_data h) (Subscriber_take_loan api) w = Some (Inr None, w')"
      "subscription_ready held port p h s w'" "held (iox w') = held (iox w)"
  | x reg w' where "receive api port (iox w) = (Inr (Some x), iox w')"
      "subscriber_method (rs_data h) (Subscriber_take_loan api) w =
         Some (Inr (Some \<lparr>loan_bytes = smp_data x, loan_number_of_bytes = smp_len x\<rparr>), w')"
      "heap w' = (heap w)(rs_data h \<mapsto> SubscriberObj (s\<lparr>sub_registry := reg\<rparr>))"
      "subscription_ready held port p h (s\<lparr>sub_registry := reg\<rparr>) w'" "next_ptr w' = next_ptr w"
      "smp_data x \<noteq> nullptr" "smp_data x \<notin> held (iox w)" "held (iox w') = insert (smp_data x) (held (iox w))"
proof -
  have bal: "subscriber_balanced held s w" and port: "sub_subscriber s = Some port"
    and hq: "(heap w)(rs_data h \<mapsto> SubscriberObj s) = heap w"
    using r by (simp_all add: subscription_ready_def fun_upd_idem)
  note call = subscriber_method_ready [where f = "Subscriber_take_loan api", OF r c _
      subscriber_step.take_loan subscriber_methods_frame(2)]
  show thesis
  proof (rule Subscriber_take_loan_cases [OF bal port c], goal_cases)
    case (1 e w1)
    from call [OF 1(3,3,3)] have "subscriber_method (rs_data h) (Subscriber_take_loan api) w =
        Some (Inl RECV_FAILURE, w1\<lparr>heap := heap w\<rparr>)" "subscription_ready held port p h s (w1\<lparr>heap := heap w\<rparr>)"
      by (simp_all add: hq)
    with 1 receive_contractD(5) [OF c 1(1)] show ?case
      by (intro that(1) [of e "w1\<lparr>heap := heap w\<rparr>"]) simp_all
  next
    case (2 w1)
    from call [OF 2(3,3,3)] have "subscriber_method (rs_data h) (Subscriber_take_loan api) w =
        Some (Inr None, w1\<lparr>heap := heap w\<rparr>)" "subscription_ready held port p h s (w1\<lparr>heap := heap w\<rparr>)"
      by (simp_all add: hq)
    with 2 receive_contractD(4) [OF c 2(1)] show ?case
      by (intro that(2) [of "w1\<lparr>heap := heap w\<rparr>"]) simp_all
  next
    case (3 x reg w1)
    from call [OF 3(3,3,3)] world_more [OF subscriber_methods_frame(2) [OF 3(3)]]
    show ?case
      using 3 receive_contractD(1-3) [OF c 3(1)]
      by (intro that(3) [of x "w1\<lparr>heap := (heap w)(rs_data h \<mapsto> SubscriberObj (s\<lparr>sub_registry := reg\<rparr>))\<rparr>" reg]) simp_all
  qed
qed

lemma return_loan_call:
  fixes w :: "('i, 'm) world"
  assumes r: "subscription_ready held port p h s w" and c: "receive_contract api port held"
  obtains "a \<notin> held (iox w)"
      "subscriber_method (rs_data h) (Subscriber_return_loan api a) w = Some (Inl Sub_INVALID_PAYLOAD, w)"
  | x reg w' where "a \<in> held (iox w)" "map_of (sub_registry s) a = Some x" "smp_data x = a"
      "subscriber_method (rs_data h) (Subscriber_return_loan api a) w = Some (Inr (), w')"
      "heap w' = (heap w)(rs_data h \<mapsto> SubscriberObj (s\<lparr>sub_registry := reg\<rparr>))"
      "iox w' = sample_drop api x (iox w)" "held (iox w') = held (iox w) - {a}"
      "subscription_ready held port p h (s\<lparr>sub_registry := reg\<rparr>) w'"
proof -
  have wf: "subscriber_wf s" and dom: "dom (map_of (sub_registry s)) = held (iox w)"
    and hq: "(heap w)(rs_data h \<mapsto> SubscriberObj s) = heap w"
    using r by (simp_all add: subscription_ready_def subscriber_balanced_def fun_upd_idem)
  note call = subscriber_method_ready [where f = "Subscriber_return_loan api a", OF r c _
      subscriber_step.return_loan subscriber_methods_frame(3)]
  show thesis
  proof (rule Subscriber_return_loan_cases [OF wf, of a api w], goal_cases)
    case 1
    with call [OF 1(2,2,2)] dom show ?case by (intro that(1)) (auto simp: hq)
  next
    case (2 x reg)
    with call [OF 2(5,5,5)] dom receive_contractD(6) [OF c, of x] show ?case
      by (intro that(2) [of x "run_iox (sample_drop api x) w\<lparr>heap := (heap w)(rs_data h \<mapsto>
            SubscriberObj (s\<lparr>sub_registry := reg\<rparr>))\<rparr>" reg]) auto
  qed
qed

text \<open>The calls on loans, with the handle followed to its object.\<close>

lemma taken_loan_calls_simps:
  fixes w :: "('i, 'm) world"
  assumes r: "subscription_ready held port p h s w" and pod: "rs_can_loan_messages h"
  shows "a \<noteq> nullptr \<Longrightarrow> rmw_return_loaned_message_from_subscription api p a w = do {
      (result, w) \<leftarrow> subscriber_method (rs_data h) (Subscriber_return_loan api a) w;
      case result of
        Inl _ \<Rightarrow> fail RMW_RET_ERROR ''failed to return loaned message to publisher'' w
      | Inr _ \<Rightarrow> Some (RMW_RET_OK, w) }"
    and "rmw_take_loaned_message api p (Some nullptr) (Some b) w = do {
      (loan, w) \<leftarrow> subscriber_method (rs_data h) (Subscriber_take_loan api) w;
      case loan of
        Inl _ \<Rightarrow> fail (RMW_RET_ERROR, Some nullptr, Some b) ''failed to take sample from subscriber'' w
      | Inr None \<Rightarrow> Some ((RMW_RET_OK, Some nullptr, Some False), w)
      | Inr (Some payload) \<Rightarrow> Some ((RMW_RET_OK, Some (loan_bytes payload), Some True), w) }"
  using subscription_ready_loads [OF r] pod
  by (simp_all add: rmw_return_loaned_message_from_subscription_def rmw_take_loaned_message_def
      ensure_ok ensure_null_def ensure_can_loan_def unsafe_cast_ok)

lemma take_copy_path:
  fixes w :: "('i, 'm) world"
  assumes "subscription_ready held port p h s w" and "receive_contract api port held"
    and "rs_can_loan_messages h" and "heap w m = Some (Message msg)" and "m \<noteq> nullptr"
  shows "\<exists>r t w'. rmw_take api env p m (Some b) w = Some ((r, Some t), w') \<and> held (iox w') = held (iox w) \<and>
    (case receive api port (iox w) of
       (Inl _, j) \<Rightarrow> r = RMW_RET_ERROR \<and> errmsg w' \<noteq> None \<and> t = b \<and> heap w' = heap w
     | (Inr None, j) \<Rightarrow> r = RMW_RET_OK \<and> \<not> t \<and> heap w' = heap w \<and> iox w' = j
     | (Inr (Some x), j) \<Rightarrow> r = RMW_RET_OK \<and> t \<and> iox w' = sample_drop api x j \<and>
         heap w' = (heap w)(m \<mapsto> Message (msg_write env (payload_bytes api x j) msg)))"
proof -
  note ld = subscription_ready_loads [OF assms(1)]
  have def: "rmw_take api env p m (Some b) w = do {
      (take_result, bytes, w) \<leftarrow> Subscriber_take_copy api s w;
      w \<leftarrow> copy_to_message env m bytes w;
      case take_result of
        Inl _ \<Rightarrow> fail (RMW_RET_ERROR, Some b) ''failed to take copy from subscriber'' w
      | Inr received \<Rightarrow> Some ((RMW_RET_OK, Some received), w) }"
    using ld assms(3,5) by (simp add: rmw_take_def ensure_ok unsafe_cast_ok)
  have wf: "subscriber_wf s" "sub_subscriber s = Some port"
    using assms(1) by (simp_all add: subscription_ready_def subscriber_balanced_def)
  show ?thesis
  proof (rule Subscriber_take_copy_cases [OF wf assms(2), of w], goal_cases)
    case (1 e w')
    with world_more [OF subscriber_methods_frame(1) [OF 1(3)]] show ?case
      by (simp add: def copy_to_message_def fail_def)
  next
    case (2 w')
    with world_more [OF subscriber_methods_frame(1) [OF 2(3)]] show ?case
      by (auto simp: def copy_to_message_def)
  next
    case (3 x i w')
    with world_more [OF subscriber_methods_frame(1) [OF 3(3)]] assms(4) show ?case
      by (auto simp: def copy_to_message_def load_def store_def)
  qed
qed

text \<open>
  What is left of \<open>rmw_take\<close> and of \<open>rmw_take_serialized_message\<close> once there is a loan: the message is
  read, and the loan is given back if that worked.
\<close>

definition deserialize_loan ::
  "'i iox2 \<Rightarrow> 'm ros_env \<Rightarrow> ptr \<Rightarrow> ptr \<Rightarrow> subscriber_loan \<Rightarrow> ('i, 'm) world \<Rightarrow>
   ((rmw_ret \<times> bool option) \<times> ('i, 'm) world) option" where
  "deserialize_loan api env q m loan w = do {
     s \<leftarrow> load as_subscriber_impl q w;
     (result, w) \<leftarrow> rmw_deserialize api env
       (Some \<lparr>sm_buffer = loan_bytes loan, sm_length = loan_number_of_bytes loan,
              sm_capacity = loan_number_of_bytes loan\<rparr>) (sub_typesupport s) m w;
     if result \<noteq> RMW_RET_OK
     then fail (RMW_RET_ERROR, Some True) ''failed to deserialize received message'' w
     else do {
       (result, w) \<leftarrow> subscriber_method q (Subscriber_return_loan api (loan_bytes loan)) w;
       case result of
         Inl _ \<Rightarrow> fail (RMW_RET_ERROR, Some True) ''failed to return loaned serialized payload'' w
       | Inr _ \<Rightarrow> Some ((RMW_RET_OK, Some True), w) } }"

lemma rmw_take_by_loan:
  assumes "subscription_ready held port p h s w" and "\<not> rs_can_loan_messages h" and "m \<noteq> nullptr"
  shows "rmw_take api env p m (Some b) w = do {
      (loan_result, w) \<leftarrow> subscriber_method (rs_data h) (Subscriber_take_loan api) w;
      case loan_result of
        Inl _ \<Rightarrow> fail (RMW_RET_ERROR, Some b) ''failed to take loan from subscriber'' w
      | Inr None \<Rightarrow> Some ((RMW_RET_OK, Some False), w)
      | Inr (Some loan) \<Rightarrow> deserialize_loan api env (rs_data h) m loan w }"
  unfolding deserialize_loan_def
  using subscription_ready_loads [OF assms(1)] assms(2,3) by (simp add: rmw_take_def ensure_ok unsafe_cast_ok)

lemma deserialize_loan_effects:
  fixes w :: "('i, 'm) world"
  assumes r: "subscription_ready held port p h s w" and c: "receive_contract api port held"
    and m: "heap w m = Some (Message msg)" "m \<noteq> nullptr"
    and ts: "sub_typesupport s \<noteq> nullptr" "fastrtps_cpp env (sub_typesupport s) = Inr (Some cb)"
    and a: "smp_data y \<noteq> nullptr" "heap w (smp_data y) = None" "smp_data y \<in> held (iox w)"
    and d: "cdr_deserialize cb (payload_bytes api y (iox w)) msg = (finished, msg')"
  shows "\<exists>x w'. deserialize_loan api env (rs_data h) m
      \<lparr>loan_bytes = smp_data y, loan_number_of_bytes = smp_len y\<rparr> w = Some ((x, Some True), w') \<and>
    heap w' m = Some (Message msg') \<and>
    (if finished then x = RMW_RET_OK \<and> held (iox w') = held (iox w) - {smp_data y} \<and>
       (\<exists>reg z. subscription_ready held port p h (s\<lparr>sub_registry := reg\<rparr>) w' \<and> iox w' = sample_drop api z (iox w) \<and>
          heap w' = (heap w)(m \<mapsto> Message msg', rs_data h \<mapsto> SubscriberObj (s\<lparr>sub_registry := reg\<rparr>)))
     else x = RMW_RET_ERROR \<and> errmsg w' \<noteq> None \<and> held (iox w') = held (iox w))"
proof -
  let ?sm = "\<lparr>sm_buffer = smp_data y, sm_length = smp_len y, sm_capacity = smp_len y\<rparr>"
  let ?w2 = "w\<lparr>heap := (heap w)(m \<mapsto> Message msg')\<rparr>"
  have mq: "m \<noteq> rs_data h" "m \<noteq> p" using m r by (auto simp: subscription_ready_def)
  have rd: "read_buffer api (smp_data y) (smp_len y) w = Some (payload_bytes api y (iox w))"
    using a by (simp add: read_buffer_def payload_bytes_def)
  have de: "rmw_deserialize api env (Some ?sm) (sub_typesupport s) m w =
      Some (if finished then (RMW_RET_OK, ?w2) else (RMW_RET_ERROR, chain ''failed to deserialize'' ?w2))"
    using rmw_deserialize_simp [OF m(2) ts m(1), of api ?sm, OF _ d] rd by (simp add: Let_def)
  note ld = subscription_ready_loads [OF r]
  have r2: "subscription_ready held port p h s ?w2"
    using r mq by (simp add: subscription_ready_def subscriber_balanced_def)
  show ?thesis
  proof (cases finished)
    case False
    with de ld show ?thesis by (auto simp: deserialize_loan_def fail_def)
  next
    case True
    show ?thesis
    proof (rule return_loan_call [OF r2 c, of "smp_data y"], goal_cases)
      case 1
      with a show ?case by simp
    next
      case (2 x' reg' w3)
      with de ld True mq show ?case by (auto simp: deserialize_loan_def)
    qed
  qed
qed




section \<open>On the concrete middleware\<close>

lemma sim_subscription_ready:
  "subscription_ready (\<lambda>i. set (sim_held i)) 7 26 (subscription_handle 28 32 True) sim_subscriber sim_world"
  by (simp add: subscription_ready_def sim_world_def subscription_handle_def subscriber_balanced_def)
    (simp add: sim_subscriber_def sim_start_def subscriber_wf_def)

text \<open>A resize that takes new memory every time.\<close>

definition sim_resize ::
  "rmw_serialized_message \<Rightarrow> nat \<Rightarrow> ('i, 'm) world \<Rightarrow> (rmw_ret \<times> rmw_serialized_message) \<times> ('i, 'm) world" where
  "sim_resize sm n w =
     (if heap w (next_ptr w) = None
      then ((RMW_RET_OK, \<lparr>sm_buffer = next_ptr w, sm_length = min (sm_length sm) n, sm_capacity = n\<rparr>),
            w\<lparr>heap := (heap w)(next_ptr w \<mapsto> Bytes (replicate n 0)), next_ptr := next_ptr w + 2\<rparr>)
      else ((RMW_RET_BAD_ALLOC, sm), w))"

lemma sim_resize_contract: "resize_contract sim_resize"
  by (auto simp: resize_contract_def sim_resize_def world_wf_def split: if_splits)

section \<open>Properties\<close>

text \<open>C18. \<open>rmw_create_subscription\<close> with valid arguments returns. A null pointer comes with an error
  message, and leaves behind nothing but possibly the copy of the topic's name. Otherwise the handle
  can be destroyed, whatever was done in between that leaves the memory as it is: the memory is then
  what it was before the creation, again but for the copy of the topic's name, which no function frees,
  and the subscriber's port is closed.\<close>
theorem subscription_create_destroy:
  fixes w :: "('i, 'm) world"
  assumes "world_wf w" and "endpoint_arguments_ok env rmw_node ts topic_name qos options topic w"
  shows "\<exists>p w1 t. rmw_create_subscription api env rmw_node ts topic_name (Some qos) options w = Some (p, w1) \<and>
    world_wf w1 \<and> heap w t = None \<and>
    (if p = nullptr then errmsg w1 \<noteq> None \<and> (heap w1 = heap w \<or> heap w1 = (heap w)(t \<mapsto> CString topic))
     else \<exists>s. subscriber_wf s \<and> sub_topic s = topic \<and> sub_typesupport s = ts \<and>
       (\<forall>w2. world_wf w2 \<longrightarrow> heap w2 = heap w1 \<longrightarrow>
          (\<exists>w3. rmw_destroy_subscription api rmw_node p w2 = Some (RMW_RET_OK, w3) \<and>
             heap w3 = (heap w)(t \<mapsto> CString topic) \<and> iox w3 = Subscriber_dtor api s (iox w2))))"
proof (rule create_subscription_cases [OF assms, of api], goal_cases)
  case (1 w' t)
  then show ?case
    by (intro exI [of _ nullptr] exI [of _ w'] exI [of _ "if heap w' = heap w then next_ptr w else t"])
      (use assms(1) in \<open>auto simp: world_wf_def\<close>)
next
  case (2 p t q s w')
  from assms(2) obtain n where n: "heap w rmw_node = Some (NodeHandle n)" "rn_identifier n = Iox2Ident"
    by (auto simp: endpoint_arguments_ok_def)
  have "\<exists>w3. rmw_destroy_subscription api rmw_node p w2 = Some (RMW_RET_OK, w3) \<and>
      heap w3 = (heap w)(t \<mapsto> CString topic) \<and> iox w3 = Subscriber_dtor api s (iox w2)"
    if "world_wf w2" "heap w2 = heap w'" for w2
  proof -
    let ?h = "subscription_handle q t (pod_type env ts)"
    have "heap w2 rmw_node = Some (NodeHandle n)" "heap w2 p = Some (SubscriptionHandle ?h)"
      "heap w2 (rs_data ?h) = Some (SubscriberObj s)"
      using 2 n that(2) by auto
    from destroy_subscription [OF that(1) this(1) n(2) this(2) _ this(3), of api] obtain w3 where
      w3: "rmw_destroy_subscription api rmw_node p w2 = Some (RMW_RET_OK, w3)"
        "heap w3 = (heap w2)(p := None, q := None)" "iox w3 = Subscriber_dtor api s (iox w2)" by auto
    have "heap w3 = (heap w)(t \<mapsto> CString topic)"
      using w3(2) that(2) 2(4-8) by (auto simp: fun_eq_iff)
    with w3 show ?thesis by blast
  qed
  with 2 show ?case
    by (intro exI [of _ p] exI [of _ w'] exI [of _ t]) auto
qed

text \<open>On the node at 6 of the sample process.\<close>
theorem subscription_create_destroy_witness:
  "\<exists>p w1. rmw_create_subscription sim_api sim_env 6 1 30 (Some sim_qos) 1 sim_world = Some (p, w1) \<and> world_wf w1"
proof -
  have "endpoint_arguments_ok sim_env 6 1 30 sim_qos 1 ''/chatter'' sim_world"
    using sim_context_ready
    by (auto simp: endpoint_arguments_ok_def sim_world_def typesupport_valid_def sim_env_def qos_known_def sim_qos_def)
  from subscription_create_destroy [OF sim_world_wf this, of sim_api] show ?thesis by blast
qed

text \<open>C10. Whatever sequence of the six taking and returning calls is made on a subscription handle, with any
  arguments, successful or not, the registry of its object holds exactly the samples its iceoryx2
  port counts as held, and destroying the handle gives every sample back.\<close>
theorem rmw_subscription_ledger:
  fixes w :: "('i, 'm) world"
  assumes "receive_contract api port held" and "resize_contract resize"
    and "subscription_ready held port p h s w" and "(rmw_subscription_call api env resize p)\<^sup>*\<^sup>* w w'"
    and "world_wf w'" and "heap w' rmw_node = Some (NodeHandle n)" and "rn_identifier n = Iox2Ident"
  shows "\<exists>s' w''. subscription_ready held port p h s' w' \<and>
    rmw_destroy_subscription api rmw_node p w' = Some (RMW_RET_OK, w'') \<and> held (iox w'') = {}"
proof -
  obtain s' where r: "subscription_ready held port p h s' w'"
    using rmw_subscription_calls_up [OF assms(4) _ assms(1,2), of h] assms(3) by (auto simp: subscription_up_def)
  then have "heap w' p = Some (SubscriptionHandle h)" "rs_identifier h = Iox2Ident"
    "heap w' (rs_data h) = Some (SubscriberObj s')" "subscriber_balanced held s' w'"
    by (simp_all add: subscription_ready_def)
  with destroy_subscription [OF assms(5-7) this(1,2,3), of api] Subscriber_dtor_gives_back [OF this(4) assms(1)] r
  show ?thesis by auto
qed

text \<open>After the waiting sample was taken as a loan.\<close>
theorem rmw_subscription_ledger_witness:
  "\<exists>w' w''. rmw_take_loaned_message sim_api 26 (Some nullptr) (Some False) sim_world =
      Some ((RMW_RET_OK, Some 1, Some True), w') \<and> sim_held (iox w') = [1] \<and>
    rmw_destroy_subscription sim_api 6 26 w' = Some (RMW_RET_OK, w'') \<and> set (sim_held (iox w'')) = {}"
proof -
  let ?s = "sim_subscriber\<lparr>sub_registry := [(1, \<lparr>smp_data = 1, smp_len = 2, smp_key = 1\<rparr>)]\<rparr>"
  let ?i = "sim_start\<lparr>sim_held := [1], sim_inbox := 0\<rparr>"
  let ?w = "sim_world\<lparr>iox := ?i, heap := (heap sim_world)(28 \<mapsto> SubscriberObj ?s)\<rparr>"
  have l: "Subscriber_take_loan sim_api sim_subscriber sim_world =
      Some (Inr (Some \<lparr>loan_bytes = 1, loan_number_of_bytes = 2\<rparr>), ?s, sim_world\<lparr>iox := ?i\<rparr>)"
    by (simp add: Subscriber_take_loan_def sim_subscriber_def sim_api_def sim_receive_def sim_start_def
        call_def registry_store_def fresh_def)
  from subscriber_method_ready [where f = "Subscriber_take_loan sim_api", OF sim_subscription_ready sim_receive_contract l
      subscriber_step.take_loan [OF l]] subscription_ready_loads [OF sim_subscription_ready]
  have b: "rmw_take_loaned_message sim_api 26 (Some nullptr) (Some False) sim_world =
      Some ((RMW_RET_OK, Some 1, Some True), ?w)"
    by (simp add: rmw_take_loaned_message_def ensure_ok ensure_null_def ensure_can_loan_def unsafe_cast_ok)
  have "world_wf ?w" by (auto simp: world_wf_def sim_world_def split: if_splits)
  moreover have "heap ?w 6 = Some (NodeHandle (node_handle 2 10 12 8))"
    by (simp add: sim_world_def node_handle_def)
  ultimately show ?thesis
    using rmw_subscription_ledger [OF sim_receive_contract sim_resize_contract sim_subscription_ready r_into_rtranclp
        [of "rmw_subscription_call sim_api sim_env sim_resize 26", OF rmw_subscription_call.take_loaned [OF b]]] b by auto
qed

text \<open>C15. \<open>rmw_take\<close> for a self-contained type returns and holds no sample afterwards that it did not hold
  before. A failure of iceoryx2 is an error with its message; without a sample the message stays as it
  is and \<open>taken\<close> is false; with one, \<open>taken\<close> is true and the payload has been copied over the message.\<close>
theorem take_copies_message:
  fixes w :: "('i, 'm) world"
  assumes "subscription_ready held port p h s w" and "receive_contract api port held"
    and "rs_can_loan_messages h" and "heap w m = Some (Message msg)" and "m \<noteq> nullptr"
  shows "\<exists>r t w'. rmw_take api env p m (Some b) w = Some ((r, Some t), w') \<and> held (iox w') = held (iox w) \<and>
    (case receive api port (iox w) of
       (Inl _, j) \<Rightarrow> r = RMW_RET_ERROR \<and> errmsg w' \<noteq> None \<and> t = b \<and> heap w' = heap w
     | (Inr None, j) \<Rightarrow> r = RMW_RET_OK \<and> \<not> t \<and> heap w' = heap w
     | (Inr (Some x), j) \<Rightarrow> r = RMW_RET_OK \<and> t \<and>
         heap w' = (heap w)(m \<mapsto> Message (msg_write env (payload_bytes api x j) msg)))"
  using take_copy_path [OF assms, of env b] by (auto split: sum.splits option.splits prod.splits)

text \<open>The sample that is waiting.\<close>
theorem take_copies_message_witness:
  "\<exists>w'. rmw_take sim_api sim_env 26 34 (Some False) (sim_world\<lparr>heap := (heap sim_world)(34 \<mapsto> Message [])\<rparr>) =
      Some ((RMW_RET_OK, Some True), w') \<and> heap w' 34 = Some (Message [7, 8])"
proof -
  have "subscription_ready (\<lambda>i. set (sim_held i)) 7 26 (subscription_handle 28 32 True) sim_subscriber
      (sim_world\<lparr>heap := (heap sim_world)(34 \<mapsto> Message [])\<rparr>)"
    using sim_subscription_ready by (simp add: subscription_ready_def subscriber_balanced_def)
  from take_copies_message [OF this sim_receive_contract, of 34 "[]" sim_env False] show ?thesis
    by (auto simp: sim_api_def sim_receive_def sim_start_def payload_bytes_def sim_env_def Let_def)
qed

text \<open>C16. \<open>rmw_take\<close> for any other type deserializes from a loan. Without a sample nothing changes. With one,
  the message is what the type support makes of the payload, and if it does not throw the sample is given
  back. When it throws, the call fails with \<open>taken\<close> true, and the sample stays held: the
  registry keeps it, although the caller has no pointer to it.\<close>
theorem take_deserializes_message:
  fixes w :: "('i, 'm) world"
  assumes r: "subscription_ready held port p h s w" and c: "receive_contract api port held"
    and pod: "\<not> rs_can_loan_messages h" and m: "heap w m = Some (Message msg)" "m \<noteq> nullptr"
    and ts: "sub_typesupport s \<noteq> nullptr" "fastrtps_cpp env (sub_typesupport s) = Inr (Some cb)"
    and apart: "\<forall>x j. receive api port (iox w) = (Inr (Some x), j) \<longrightarrow> heap w (smp_data x) = None"
  shows "\<exists>x t w'. rmw_take api env p m (Some b) w = Some ((x, Some t), w') \<and>
    (case receive api port (iox w) of
       (Inl _, j) \<Rightarrow> x = RMW_RET_ERROR \<and> errmsg w' \<noteq> None \<and> t = b \<and> heap w' = heap w \<and> held (iox w') = held (iox w)
     | (Inr None, j) \<Rightarrow> x = RMW_RET_OK \<and> \<not> t \<and> heap w' = heap w \<and> held (iox w') = held (iox w)
     | (Inr (Some y), j) \<Rightarrow> t \<and>
         (let (finished, msg') = cdr_deserialize cb (payload_bytes api y j) msg in
          heap w' m = Some (Message msg') \<and>
          (if finished then x = RMW_RET_OK \<and> held (iox w') = held (iox w)
           else x = RMW_RET_ERROR \<and> errmsg w' \<noteq> None \<and> held (iox w') = insert (smp_data y) (held (iox w)))))"
proof -
  note def = rmw_take_by_loan [OF r pod m(2)]
  have mq: "m \<noteq> rs_data h" using m r by (auto simp: subscription_ready_def)
  show ?thesis
  proof (rule take_loan_call [OF r c], goal_cases)
    case (1 e w')
    then show ?case by (simp add: def fail_def)
  next
    case (2 w')
    then show ?case by (auto simp: def)
  next
    case (3 y reg w1)
    let ?s = "s\<lparr>sub_registry := reg\<rparr>"
    obtain ok msg' where d: "cdr_deserialize cb (payload_bytes api y (iox w1)) msg = (ok, msg')" by fastforce
    have h1: "heap w1 m = Some (Message msg)" using 3(3) m mq by simp
    have "heap w (smp_data y) = None" using apart 3(1) by blast
    moreover have "smp_data y \<noteq> rs_data h" using calculation r by (auto simp: subscription_ready_def)
    ultimately have "heap w1 (smp_data y) = None" "smp_data y \<in> held (iox w1)" using 3(3,8) by simp_all
    moreover have "sub_typesupport ?s \<noteq> nullptr" "fastrtps_cpp env (sub_typesupport ?s) = Inr (Some cb)"
      using ts by simp_all
    ultimately show ?case
      using deserialize_loan_effects [OF 3(4) c h1 m(2) _ _ 3(6) _ _ d, of env] 3(1,2,7,8) d by (cases ok) (auto simp: def)
  qed
qed

text \<open>The waiting sample, for a type that has to be deserialized.\<close>
theorem take_deserializes_message_witness:
  "\<exists>w'. rmw_take sim_api sim_env 26 34 (Some False) (sim_world\<lparr>heap := (heap sim_world)
      (26 \<mapsto> SubscriptionHandle (subscription_handle 28 32 False), 34 \<mapsto> Message [])\<rparr>) =
      Some ((RMW_RET_OK, Some True), w') \<and> heap w' 34 = Some (Message [7, 8]) \<and> set (sim_held (iox w')) = {}"
proof -
  let ?w = "sim_world\<lparr>heap := (heap sim_world)
      (26 \<mapsto> SubscriptionHandle (subscription_handle 28 32 False), 34 \<mapsto> Message [])\<rparr>"
  let ?cb = "\<lparr>get_serialized_size = (\<lambda>m. of_nat (length m)), cdr_serialize = (\<lambda>m n. (length m \<le> n, take n m)),
    cdr_deserialize = (\<lambda>bs m. (True, bs))\<rparr> :: u8 list callbacks"
  have r: "subscription_ready (\<lambda>i. set (sim_held i)) 7 26 (subscription_handle 28 32 False) sim_subscriber ?w"
    using sim_subscription_ready by (simp add: subscription_ready_def subscriber_balanced_def)
  have l: "receive sim_api 7 (iox ?w) = (Inr (Some \<lparr>smp_data = 1, smp_len = 2, smp_key = 1\<rparr>),
      sim_start\<lparr>sim_held := [1], sim_inbox := 0\<rparr>)"
    by (simp add: sim_api_def sim_receive_def sim_start_def fresh_def)
  have p: "\<not> rs_can_loan_messages (subscription_handle 28 32 False)" "heap ?w 34 = Some (Message [])" "34 \<noteq> nullptr"
    "sub_typesupport sim_subscriber \<noteq> nullptr" "fastrtps_cpp sim_env (sub_typesupport sim_subscriber) = Inr (Some ?cb)"
    "\<forall>x j. receive sim_api 7 (iox ?w) = (Inr (Some x), j) \<longrightarrow> heap ?w (smp_data x) = None"
    unfolding l by (auto simp: sim_subscriber_def sim_env_def sim_world_def)
  have "cdr_deserialize ?cb (payload_bytes sim_api \<lparr>smp_data = 1, smp_len = 2, smp_key = 1\<rparr> j) [] = (True, [7, 8])" for j
    by (simp add: payload_bytes_def sim_api_def)
  with take_deserializes_message [OF r sim_receive_contract p, of False] show ?thesis
    unfolding l by (auto simp: sim_start_def)
qed

text \<open>C13. A sample taken as a loan is given back once. When the call fails or there is no sample, the caller's
  pointer and the samples held are what they were; otherwise the pointer is the address of a sample that
  was not held before. Returning it gives exactly that sample back, and returning it again is
  refused and changes nothing.\<close>
theorem taken_loan_once:
  fixes w :: "('i, 'm) world"
  assumes r: "subscription_ready held port p h s w" and c: "receive_contract api port held"
    and pod: "rs_can_loan_messages h"
  shows "\<exists>x out t w1. rmw_take_loaned_message api p (Some nullptr) (Some b) w = Some ((x, out, Some t), w1) \<and>
    (if x \<noteq> RMW_RET_OK \<or> \<not> t then out = Some nullptr \<and> held (iox w1) = held (iox w) \<and> (x = RMW_RET_OK \<or> t = b \<and> errmsg w1 \<noteq> None)
     else \<exists>a. out = Some a \<and> a \<noteq> nullptr \<and> a \<notin> held (iox w) \<and> held (iox w1) = insert a (held (iox w)) \<and>
       (\<exists>w2. rmw_return_loaned_message_from_subscription api p a w1 = Some (RMW_RET_OK, w2) \<and>
          held (iox w2) = held (iox w) \<and>
          (\<exists>w3. rmw_return_loaned_message_from_subscription api p a w2 = Some (RMW_RET_ERROR, w3) \<and>
             iox w3 = iox w2 \<and> heap w3 = heap w2)))"
proof -
  let ?q = "rs_data h"
  note ret = taken_loan_calls_simps(1) [OF _ pod] and def = taken_loan_calls_simps(2) [OF r pod]
  show ?thesis
  proof (rule take_loan_call [OF r c], goal_cases)
    case (1 e w')
    then show ?case by (auto simp: def fail_def)
  next
    case (2 w')
    then show ?case by (auto simp: def)
  next
    case (3 y reg w1)
    let ?a = "smp_data y"
    from 3(8) have in1: "?a \<in> held (iox w1)" by simp
    obtain w2 reg2 where 2: "subscriber_method ?q (Subscriber_return_loan api ?a) w1 = Some (Inr (), w2)"
      "held (iox w2) = held (iox w1) - {?a}" "subscription_ready held port p h (s\<lparr>sub_registry := reg2\<rparr>) w2"
      using in1 by (rule_tac return_loan_call [OF 3(4) c, of ?a]) auto
    have out: "?a \<notin> held (iox w2)" using 2(2) by simp
    have again: "subscriber_method ?q (Subscriber_return_loan api ?a) w2 = Some (Inl Sub_INVALID_PAYLOAD, w2)"
      using out by (rule_tac return_loan_call [OF 2(3) c, of ?a]) auto
    have "held (iox w2) = held (iox w)" using 2(2) 3(7,8) by simp
    with 3 2 again ret [OF 3(4,6)] ret [OF 2(3) 3(6)] show ?case by (auto simp: def fail_def)
  qed
qed

text \<open>The handle at 26.\<close>
theorem taken_loan_once_witness:
  "\<exists>x out t w1. rmw_take_loaned_message sim_api 26 (Some nullptr) (Some False) sim_world = Some ((x, out, Some t), w1)"
  using taken_loan_once [OF sim_subscription_ready sim_receive_contract, of False] by auto



end
