(* ===== verification/Simulation.thy ===== *)
theory Simulation
  imports Rmw_Prelude
begin

text \<open>
  Sequences of operations. A component that is driven through its interface implements an abstract
  machine when every operation the caller may ask for returns the result the machine gives and
  keeps the two states related; then every permitted sequence of operations does.
\<close>

fun run_calls :: "('op \<Rightarrow> 'c \<Rightarrow> ('r \<times> 'c) option) \<Rightarrow> 'op list \<Rightarrow> 'c \<Rightarrow> ('r list \<times> 'c) option" where
  "run_calls perform [] c = Some ([], c)"
| "run_calls perform (x # xs) c = do { (r, c) \<leftarrow> perform x c; (rs, c) \<leftarrow> run_calls perform xs c; Some (r # rs, c) }"

fun run_machine :: "('op \<Rightarrow> 'a \<Rightarrow> 'r \<times> 'a) \<Rightarrow> 'op list \<Rightarrow> 'a \<Rightarrow> 'r list \<times> 'a" where
  "run_machine step [] a = ([], a)"
| "run_machine step (x # xs) a =
     (let (r, a) = step x a; (rs, a) = run_machine step xs a in (r # rs, a))"

text \<open>Every operation is permitted in the state it meets.\<close>

fun permitted :: "('op \<Rightarrow> 'a \<Rightarrow> bool) \<Rightarrow> ('op \<Rightarrow> 'a \<Rightarrow> 'r \<times> 'a) \<Rightarrow> 'op list \<Rightarrow> 'a \<Rightarrow> bool" where
  "permitted may step [] a = True"
| "permitted may step (x # xs) a \<longleftrightarrow> may x a \<and> permitted may step xs (snd (step x a))"

locale simulation =
  fixes perform :: "'op \<Rightarrow> 'c \<Rightarrow> ('r \<times> 'c) option"
    and step :: "'op \<Rightarrow> 'a \<Rightarrow> 'r \<times> 'a"
    and may :: "'op \<Rightarrow> 'a \<Rightarrow> bool"
    and related :: "'a \<Rightarrow> 'c \<Rightarrow> bool"
  assumes simulates: "related a c \<Longrightarrow> may x a \<Longrightarrow>
    \<exists>c'. perform x c = Some (fst (step x a), c') \<and> related (snd (step x a)) c'"
begin

lemma runs:
  "related a c \<Longrightarrow> permitted may step xs a \<Longrightarrow>
   \<exists>c'. run_calls perform xs c = Some (fst (run_machine step xs a), c') \<and> related (snd (run_machine step xs a)) c'"
proof (induction xs arbitrary: a c)
  case Nil
  then show ?case by simp
next
  case (Cons x xs)
  from Cons.prems obtain c1 where c1: "perform x c = Some (fst (step x a), c1)" "related (snd (step x a)) c1"
    using simulates by fastforce
  from Cons.IH [OF c1(2)] Cons.prems(2) c1(1) show ?case
    by (fastforce simp: Let_def split_beta)
qed

end

end
