(* ===== verification/Live_Middleware.thy ===== *)
theory Live_Middleware
  imports Sim_Middleware Names
begin

text \<open>
  A second concrete middleware, one that transports: a queue of payloads between one publisher and one
  subscriber, payloads in memory, notifications that stay pending until the listener is drained, and
  attachments that are reported while their listener has a notification. A listener is created on the event
  service that was opened last, without a notification; notifying reaches the listeners that exist then on the
  service of the notifier.
\<close>

record live =
  lv_queue :: "u8 list list"
  lv_memory :: "nat \<Rightarrow> u8 list"
  lv_loans :: "nat list"
  lv_held :: "nat list"
  lv_attached :: "(nat \<times> nat option) list"
  lv_pending :: "nat list"
  lv_listeners :: "(nat \<times> string) list"
  lv_opened :: string

definition lv_remove :: "nat \<Rightarrow> live \<Rightarrow> live" where
  "lv_remove a i = i\<lparr>lv_loans := filter (\<lambda>x. x \<noteq> a) (lv_loans i), lv_held := filter (\<lambda>x. x \<noteq> a) (lv_held i)\<rparr>"

definition lv_loan :: "nat \<Rightarrow> live \<Rightarrow> (string + sample) \<times> live" where
  "lv_loan n i =
     (let a = fresh (lv_loans i @ lv_held i) in
      (Inr \<lparr>smp_data = a, smp_len = n, smp_key = a\<rparr>,
       i\<lparr>lv_loans := a # lv_loans i, lv_memory := (lv_memory i)(a := replicate n 0)\<rparr>))"

definition lv_send :: "sample \<Rightarrow> live \<Rightarrow> (string + nat) \<times> live" where
  "lv_send s i =
     (Inr 1, (lv_remove (smp_data s) i)\<lparr>lv_queue := lv_queue i @ [take (smp_len s) (lv_memory i (smp_data s))],
        lv_held := lv_held i\<rparr>)"

definition lv_receive :: "live \<Rightarrow> (string + sample option) \<times> live" where
  "lv_receive i =
     (case lv_queue i of
        [] \<Rightarrow> (Inr None, i)
      | bs # rest \<Rightarrow>
          let a = fresh (lv_loans i @ lv_held i) in
          (Inr (Some \<lparr>smp_data = a, smp_len = length bs, smp_key = a\<rparr>),
           i\<lparr>lv_queue := rest, lv_held := a # lv_held i, lv_memory := (lv_memory i)(a := bs)\<rparr>))"

definition lv_write :: "nat \<Rightarrow> u8 list \<Rightarrow> live \<Rightarrow> live" where
  "lv_write a bs i = i\<lparr>lv_memory := (lv_memory i)(a := bs @ drop (length bs) (lv_memory i a))\<rparr>"

definition lv_attach :: "nat option \<Rightarrow> live \<Rightarrow> (string + nat) \<times> live" where
  "lv_attach l i =
     (let g = fresh (map fst (lv_attached i)) in (Inr g, i\<lparr>lv_attached := lv_attached i @ [(g, l)]\<rparr>))"

text \<open>The interval elapses when nothing else is to be reported.\<close>

definition lv_wait :: "live \<Rightarrow> nat list" where
  "lv_wait i =
     (let ids = [g. (g, Some l) \<leftarrow> lv_attached i, l \<in> set (lv_pending i)] in
      if ids = [] then [g. (g, None) \<leftarrow> lv_attached i] else ids)"

definition lv_listen :: "live \<Rightarrow> (string + nat) \<times> live" where
  "lv_listen i =
     (let l = fresh (map fst (lv_listeners i) @ lv_pending i) in
      (Inr l, i\<lparr>lv_listeners := (l, lv_opened i) # lv_listeners i\<rparr>))"

text \<open>The notifier 4 is a publisher's, 10 and 12 are those of two guard conditions.\<close>

definition lv_service :: "nat \<Rightarrow> string" where
  "lv_service p =
     (if p = 10 then names_guard_condition 0 0 else if p = 12 then names_guard_condition 0 1 else names_topic ''/chatter'')"

definition lv_notify :: "nat \<Rightarrow> live \<Rightarrow> live" where
  "lv_notify p i = i\<lparr>lv_pending := [l. (l, s) \<leftarrow> lv_listeners i, s = lv_service p] @ lv_pending i\<rparr>"

lemma lv_notify_simps [simp]:
  "lv_queue (lv_notify p i) = lv_queue i" "lv_memory (lv_notify p i) = lv_memory i"
  "lv_loans (lv_notify p i) = lv_loans i" "lv_held (lv_notify p i) = lv_held i"
  "lv_attached (lv_notify p i) = lv_attached i" "lv_listeners (lv_notify p i) = lv_listeners i"
  "set (lv_pending (lv_notify p i)) = set (lv_pending i) \<union> {l. (l, lv_service p) \<in> set (lv_listeners i)}"
  by (auto simp: lv_notify_def)

definition live_api :: "live iox2" where
  "live_api =
     \<lparr>node_name_create = Inr, node_create = (\<lambda>t n i. (Inr 1, i)), node_drop = (\<lambda>n i. i),
      service_name_create = Inr, event_open_or_create = (\<lambda>n s i. (Inr 2, i\<lparr>lv_opened := s\<rparr>)),
      pubsub_open_or_create = (\<lambda>n s c i. (Inr 3, i)), notifier_create = (\<lambda>s i. (Inr 4, i)),
      listener_create = (\<lambda>s i. lv_listen i), publisher_create = (\<lambda>s n i. (Inr 6, i)),
      subscriber_create = (\<lambda>s i. (Inr 7, i)), port_drop = (\<lambda>p i. i),
      port_id_bytes = (\<lambda>p. Some [of_nat p, 1]),
      notify = (\<lambda>p e i. (Inr 1, lv_notify p i)),
      loan_slice_uninit = (\<lambda>p n i. lv_loan n i), sample_send = lv_send,
      sample_drop = (\<lambda>s i. lv_remove (smp_data s) i),
      send_slice_copy = (\<lambda>p bs i. (Inr 1, i\<lparr>lv_queue := lv_queue i @ [bs]\<rparr>)),
      receive = (\<lambda>p i. lv_receive i), read_bytes = (\<lambda>a n i. take n (lv_memory i a)), write_bytes = lv_write,
      waitset_create = (\<lambda>i. (Inr 9, i)), waitset_drop = (\<lambda>n i. i),
      attach_notification = (\<lambda>ws l i. lv_attach (Some l) i), attach_interval = (\<lambda>ws t i. lv_attach None i),
      attachment_from_guard = (\<lambda>g. g),
      guard_drop = (\<lambda>g i. i\<lparr>lv_attached := filter (\<lambda>x. fst x \<noteq> g) (lv_attached i)\<rparr>),
      wait_once = (\<lambda>ws t i. (Inr (lv_wait i), i)),
      try_wait_all = (\<lambda>l i. (Inr 1, i\<lparr>lv_pending := filter (\<lambda>x. x \<noteq> l) (lv_pending i)\<rparr>)),
      duration_from_seconds = (\<lambda>s. 1000000000 * unat s), duration_from_nanoseconds = unat,
      duration_add = (+), node_list = (\<lambda>i. Inr []), service_list = (\<lambda>i. Inr []), set_log_level = (\<lambda>l i. i)\<rparr>"

definition live_start :: live where
  "live_start = \<lparr>lv_queue = [], lv_memory = (\<lambda>a. []), lv_loans = [], lv_held = [], lv_attached = [],
                 lv_pending = [], lv_listeners = [], lv_opened = []\<rparr>"

lemma live_loan_contract: "loan_contract live_api port (\<lambda>i. set (lv_loans i))"
  using fresh_notin [of "lv_loans i @ lv_held i" for i]
  by (auto simp: loan_contract_def live_api_def lv_loan_def lv_send_def lv_remove_def lv_write_def Let_def
      simp del: fresh_notin)

lemma live_receive_contract: "receive_contract live_api port (\<lambda>i. set (lv_held i))"
  using fresh_notin [of "lv_loans i @ lv_held i" for i]
  by (auto simp: receive_contract_def live_api_def lv_receive_def lv_remove_def lv_write_def Let_def
      simp del: fresh_notin split: list.splits)

end
