(* ===== verification/Rmw_Channel.thy ===== *)
theory Rmw_Channel
  imports Rmw_Publish_Correct Rmw_Take_Correct Simulation Live_Middleware
begin

text \<open>
  A publisher and a subscription of one topic together: publishing and taking implement a queue of
  messages, for types that are copied and for types that are serialized.
\<close>

section \<open>The channel\<close>

text \<open>
  The two handles, their ports in iceoryx2, the type support of the topic with its callbacks, the size
  of its messages as plain data, and whether the type is self-contained.
\<close>

record 'm channel =
  ch_publisher :: ptr
  ch_subscription :: ptr
  ch_publisher_port :: nat
  ch_notifier :: nat
  ch_subscriber_port :: nat
  ch_typesupport :: ptr
  ch_callbacks :: "'m callbacks"
  ch_size :: nat
  ch_pod :: bool

text \<open>
  What iceoryx2 documents of two ports of one service that does not fail. \<open>queue i\<close> holds the payloads
  that wait for the subscriber, and has room for \<open>capacity\<close> of them. A payload that is sent while there
  is room is added at the end, whether it was copied in or written into a loan; with nothing borrowed
  there is always memory for a loan, in the shared memory and so at no address of an object of the
  process; receiving takes the first payload; everything else leaves the queue alone. \<open>signalled i\<close> is what can be
  seen of the notifications: notifying changes it as \<open>told\<close> says, and no other of these operations changes it.
\<close>

definition channel_contract ::
  "'i iox2 \<Rightarrow> 'm channel \<Rightarrow> ('i \<Rightarrow> ptr set) \<Rightarrow> ('i \<Rightarrow> ptr set) \<Rightarrow> ('i \<Rightarrow> u8 list list) \<Rightarrow>
   ('s \<Rightarrow> 's) \<Rightarrow> ('i \<Rightarrow> 's) \<Rightarrow> nat \<Rightarrow> bool" where
  "channel_contract api c loaned held queue told signalled capacity \<longleftrightarrow>
     loan_contract api (ch_publisher_port c) loaned \<and> receive_contract api (ch_subscriber_port c) held \<and>
     (\<forall>bs i. length (queue i) < capacity \<longrightarrow>
        (\<exists>k j. send_slice_copy api (ch_publisher_port c) bs i = (Inr k, j) \<and> queue j = queue i @ [bs] \<and> held j = held i \<and>
           signalled j = signalled i)) \<and>
     (\<forall>s i. length (queue i) < capacity \<longrightarrow> smp_data s \<in> loaned i \<longrightarrow>
        (\<exists>k j. sample_send api s i = (Inr k, j) \<and> queue j = queue i @ [payload_bytes api s i] \<and> held j = held i \<and>
           signalled j = signalled i)) \<and>
     (\<forall>n i. loaned i = {} \<longrightarrow>
        (\<exists>s j. loan_slice_uninit api (ch_publisher_port c) n i = (Inr s, j) \<and> odd (smp_data s) \<and>
           queue j = queue i \<and> held j = held i \<and> signalled j = signalled i \<and>
           (\<forall>bs. length bs \<le> n \<longrightarrow> queue (write_bytes api (smp_data s) bs j) = queue j \<and>
           signalled (write_bytes api (smp_data s) bs j) = signalled j \<and>
              (\<exists>rest. payload_bytes api s (write_bytes api (smp_data s) bs j) = bs @ rest)))) \<and>
     (\<forall>i. \<exists>n j. notify api (ch_notifier c) None i = (Inr n, j) \<and> queue j = queue i \<and> held j = held i \<and> signalled j = told (signalled i)) \<and>
     (\<forall>i. held i = {} \<longrightarrow>
        (\<exists>x j. receive api (ch_subscriber_port c) i = (Inr x, j) \<and> loaned j = loaned i \<and> queue j = tl (queue i) \<and> signalled j = signalled i \<and>
           (x = None \<longleftrightarrow> queue i = []) \<and>
           (\<forall>y. x = Some y \<longrightarrow> odd (smp_data y) \<and> payload_bytes api y j = hd (queue i)))) \<and>
     (\<forall>x i. queue (sample_drop api x i) = queue i \<and> signalled (sample_drop api x i) = signalled i)"

lemma channel_contractD:
  assumes "channel_contract api c loaned held queue told signalled capacity"
  shows "loan_contract api (ch_publisher_port c) loaned" and "receive_contract api (ch_subscriber_port c) held"
    and "length (queue i) < capacity \<Longrightarrow>
      \<exists>k j. send_slice_copy api (ch_publisher_port c) bs i = (Inr k, j) \<and> queue j = queue i @ [bs] \<and> held j = held i \<and>
        signalled j = signalled i"
    and "length (queue i) < capacity \<Longrightarrow> smp_data s \<in> loaned i \<Longrightarrow>
      \<exists>k j. sample_send api s i = (Inr k, j) \<and> queue j = queue i @ [payload_bytes api s i] \<and> held j = held i \<and>
        signalled j = signalled i"
    and "loaned i = {} \<Longrightarrow>
      \<exists>s j. loan_slice_uninit api (ch_publisher_port c) n i = (Inr s, j) \<and> odd (smp_data s) \<and>
        queue j = queue i \<and> held j = held i \<and> signalled j = signalled i \<and>
        (\<forall>bs. length bs \<le> n \<longrightarrow> queue (write_bytes api (smp_data s) bs j) = queue j \<and>
           signalled (write_bytes api (smp_data s) bs j) = signalled j \<and>
           (\<exists>rest. payload_bytes api s (write_bytes api (smp_data s) bs j) = bs @ rest))"
    and "\<exists>n j. notify api (ch_notifier c) None i = (Inr n, j) \<and> queue j = queue i \<and> held j = held i \<and> signalled j = told (signalled i)"
    and "held i = {} \<Longrightarrow>
      \<exists>x j. receive api (ch_subscriber_port c) i = (Inr x, j) \<and> loaned j = loaned i \<and> queue j = tl (queue i) \<and> signalled j = signalled i \<and>
        (x = None \<longleftrightarrow> queue i = []) \<and>
        (\<forall>y. x = Some y \<longrightarrow> odd (smp_data y) \<and> payload_bytes api y j = hd (queue i))"
    and "queue (sample_drop api x i) = queue i" and "signalled (sample_drop api x i) = signalled i"
  using assms unfolding channel_contract_def by simp_all

text \<open>A payload from which taking recovers the message, whatever it overwrites.\<close>

definition carries :: "'m ros_env \<Rightarrow> 'm channel \<Rightarrow> 'm \<Rightarrow> u8 list \<Rightarrow> bool" where
  "carries env c msg bs \<longleftrightarrow>
     (\<forall>other. if ch_pod c then msg_write env bs other = msg
              else cdr_deserialize (ch_callbacks c) bs other = (True, msg))"

text \<open>
  A message the type support can represent: its bytes restore it, or it serializes into the size
  computed for it and the deserializer undoes that, whatever follows in the payload.
\<close>

definition representable :: "'m ros_env \<Rightarrow> 'm channel \<Rightarrow> 'm \<Rightarrow> bool" where
  "representable env c msg \<longleftrightarrow>
     (if ch_pod c then carries env c msg (msg_bytes env msg (ch_size c))
      else let n = unat (4 + get_serialized_size (ch_callbacks c) msg) in
        \<exists>bytes. cdr_serialize (ch_callbacks c) msg n = (True, bytes) \<and> length bytes \<le> n \<and>
          (\<forall>rest. carries env c msg (bytes @ rest)))"

text \<open>The channel is up, with nothing borrowed, and \<open>msgs\<close> wait in it.\<close>

definition channel_up ::
  "'m ros_env \<Rightarrow> 'm channel \<Rightarrow> ('i \<Rightarrow> ptr set) \<Rightarrow> ('i \<Rightarrow> ptr set) \<Rightarrow> ('i \<Rightarrow> u8 list list) \<Rightarrow>
   'm list \<Rightarrow> ('i, 'm) world \<Rightarrow> bool" where
  "channel_up env c loaned held queue msgs w \<longleftrightarrow>
     (\<exists>ph i sh s.
        publisher_ready loaned (ch_publisher_port c) (ch_publisher c) ph i w \<and>
        rp_can_loan_messages ph = ch_pod c \<and> pub_notifier i = Some (ch_notifier c) \<and>
        pub_typesupport i = ch_typesupport c \<and> pub_unserialized_size i = ch_size c \<and>
        subscription_ready held (ch_subscriber_port c) (ch_subscription c) sh s w \<and>
        rs_can_loan_messages sh = ch_pod c \<and> sub_typesupport s = ch_typesupport c) \<and>
     ch_typesupport c \<noteq> nullptr \<and> ts_data env (ch_typesupport c) \<noteq> nullptr \<and>
     fastrtps_cpp env (ch_typesupport c) = Inr (Some (ch_callbacks c)) \<and>
     (\<forall>a. odd a \<or> a = nullptr \<longrightarrow> heap w a = None) \<and>
     loaned (iox w) = {} \<and> held (iox w) = {} \<and> list_all2 (carries env c) msgs (queue (iox w))"

text \<open>The messages in memory.\<close>

definition messages :: "('i, 'm) world \<Rightarrow> ptr \<rightharpoonup> 'm" where
  "messages w a = load as_message a w"

lemma messages_iff: "messages w a = Some m \<longleftrightarrow> heap w a = Some (Message m)"
  by (simp add: messages_def message.load_iff)

lemma messages_cong: "heap w' = heap w \<Longrightarrow> messages w' = messages w"
  by (simp add: messages_def load_def fun_eq_iff)

lemma messages_other:
  assumes "heap w' = (heap w)(q \<mapsto> ob)" and "heap w q = Some ob'" and "as_message ob = None" and "as_message ob' = None"
  shows "messages w' = messages w"
  using assms by (simp add: messages_def load_def fun_eq_iff)

lemma messages_upd:
  assumes "heap w' = (heap w)(m \<mapsto> Message msg)"
  shows "messages w' = (messages w)(m \<mapsto> msg)"
  using assms by (simp add: messages_def load_def fun_eq_iff)

text \<open>What the two calls may change in memory: messages, and the registries of a publisher or subscriber.\<close>

fun like_object :: "'m obj \<Rightarrow> 'm obj \<Rightarrow> bool" where
  "like_object (Message _) (Message _) = True"
| "like_object (PublisherObj _) (PublisherObj _) = True"
| "like_object (SubscriberObj s) (SubscriberObj s') \<longleftrightarrow> sub_service_name s' = sub_service_name s"
| "like_object a b \<longleftrightarrow> a = b"

lemma like_object_refl [simp]: "like_object a a"
  by (cases a) simp_all

definition objects_kept :: "('i, 'm) world \<Rightarrow> ('i, 'm) world \<Rightarrow> bool" where
  "objects_kept w w' \<longleftrightarrow> (\<forall>a ob. heap w a = Some ob \<longrightarrow> (\<exists>ob'. heap w' a = Some ob' \<and> like_object ob ob'))"

lemma objects_kept_same: "heap w' = heap w \<Longrightarrow> objects_kept w w'"
  by (auto simp: objects_kept_def)

section \<open>One call\<close>

lemma channel_upE:
  fixes w :: "('i, 'm) world"
  assumes "channel_up env c loaned held queue msgs w"
  obtains ph i sh s where "publisher_ready loaned (ch_publisher_port c) (ch_publisher c) ph i w"
    "rp_can_loan_messages ph = ch_pod c" "pub_notifier i = Some (ch_notifier c)" "pub_unserialized_size i = ch_size c"
    "pub_typesupport i = ch_typesupport c" "subscription_ready held (ch_subscriber_port c) (ch_subscription c) sh s w"
    "rs_can_loan_messages sh = ch_pod c" "sub_typesupport s = ch_typesupport c"
    "loaned (iox w) = {}" "held (iox w) = {}" "list_all2 (carries env c) msgs (queue (iox w))"
    "ch_typesupport c \<noteq> nullptr" "ts_data env (ch_typesupport c) \<noteq> nullptr"
    "fastrtps_cpp env (ch_typesupport c) = Inr (Some (ch_callbacks c))"
    "\<And>a m. messages w a = Some m \<Longrightarrow> heap w a = Some (Message m) \<and> a \<noteq> nullptr" "\<And>a. odd a \<Longrightarrow> heap w a = None"
proof -
  have "heap w a = Some (Message m) \<and> a \<noteq> nullptr" if "messages w a = Some m" for a m
    using assms that unfolding messages_iff channel_up_def by (metis option.distinct(1))
  moreover have "heap w a = None" if "odd a" for a using assms that by (simp add: channel_up_def)
  ultimately show thesis
    using assms unfolding channel_up_def by (elim exE conjE) (rule that; assumption | simp)
qed

lemma channel_up_idle:
  "channel_up env c loaned held queue msgs w \<Longrightarrow> loaned (iox w) = {} \<and> held (iox w) = {}"
  by (simp add: channel_up_def)

lemma list_all2_snoc: "list_all2 P xs ys \<Longrightarrow> P x y \<Longrightarrow> list_all2 P (xs @ [x]) (ys @ [y])"
  by (simp add: list_all2_appendI)

lemma publish_enqueues_copy:
  fixes w :: "('i, 'm) world"
  assumes ct: "channel_contract api c loaned held queue told signalled capacity" and up: "channel_up env c loaned held queue msgs w"
    and pod: "ch_pod c" and src: "messages w src = Some msg" and room: "length msgs < capacity"
    and rep: "representable env c msg"
  shows "\<exists>w'. rmw_publish api env (ch_publisher c) src w = Some (RMW_RET_OK, w') \<and>
    channel_up env c loaned held queue (msgs @ [msg]) w' \<and> messages w' = messages w \<and>
    signalled (iox w') = told (signalled (iox w)) \<and> objects_kept w w'"
proof (rule channel_upE [OF up], goal_cases)
  case (1 ph i sh s)
  let ?bs = "msg_bytes env msg (ch_size c)"
  note r = 1(1-8) and q = 1(9-11) and m = 1(15) [OF src] and lc = channel_contractD(1) [OF ct]
  have "length (queue (iox w)) < capacity" using room q(3) by (simp add: list_all2_lengthD)
  then obtain k j where s: "send_slice_copy api (ch_publisher_port c) ?bs (iox w) = (Inr k, j)"
    "queue j = queue (iox w) @ [?bs]" "held j = held (iox w)" "signalled j = signalled (iox w)"
    using channel_contractD(3) [OF ct] by metis
  obtain n l where n: "notify api (ch_notifier c) None j = (Inr n, l)" "queue l = queue j" "held l = held j" "signalled l = told (signalled j)"
    using channel_contractD(6) [OF ct] by metis
  obtain w' where w': "rmw_publish api env (ch_publisher c) src w = Some (RMW_RET_OK, w')" "heap w' = heap w" "iox w' = l"
    using publish_copy_path [OF r(1) _ _ _ r(3), of src msg api env] m r(2,4) pod s n by (auto simp: split_beta)
  have l: "loaned l = {}"
    using loan_contractD(7) [OF lc, of "ch_publisher_port c" ?bs "iox w"]
      loan_contractD(8) [OF lc, of "ch_notifier c" None j] s(1) n(1) q(1) by simp
  have "publisher_ready loaned (ch_publisher_port c) (ch_publisher c) ph i w'"
    using r(1) w' l q(1) by (simp add: publisher_ready_def publisher_balanced_def)
  moreover have "subscription_ready held (ch_subscriber_port c) (ch_subscription c) sh s w'"
    using r(6) w' s(3) n(3) by (simp add: subscription_ready_def subscriber_balanced_def)
  moreover have "list_all2 (carries env c) (msgs @ [msg]) (queue (iox w'))"
    using rep pod q(3) w'(3) s(2) n(2) by (simp add: representable_def list_all2_snoc)
  ultimately have "channel_up env c loaned held queue (msgs @ [msg]) w'"
    using up r(2-5,7,8) w' s(3) n(3) l q(2) by (simp add: channel_up_def) blast
  with w' n(4) s(4) messages_cong [of w' w] objects_kept_same [of w' w] show ?thesis by auto
qed

text \<open>The runtime's side of publishing through a loan.\<close>

lemma channel_loan_sent:
  assumes ct: "channel_contract api c loaned held queue told signalled capacity" and idle: "loaned i = {}" "held i = {}"
    and room: "length (queue i) < capacity" and n: "length bytes \<le> n"
  obtains x j k j2 m l rest where "loan_slice_uninit api (ch_publisher_port c) n i = (Inr x, j)" "odd (smp_data x)"
    "sample_send api x (write_bytes api (smp_data x) bytes j) = (Inr k, j2)" "notify api (ch_notifier c) None j2 = (Inr m, l)"
    "queue l = queue i @ [bytes @ rest]" "loaned l = {}" "held l = {}" "signalled l = told (signalled i)"
proof -
  note lc = channel_contractD(1) [OF ct] and rc = channel_contractD(2) [OF ct]
  obtain x j where x: "loan_slice_uninit api (ch_publisher_port c) n i = (Inr x, j)" "odd (smp_data x)"
    "queue j = queue i" "held j = held i" "queue (write_bytes api (smp_data x) bytes j) = queue j"
    "signalled (write_bytes api (smp_data x) bytes j) = signalled i"
    "\<exists>rest. payload_bytes api x (write_bytes api (smp_data x) bytes j) = bytes @ rest"
    using channel_contractD(5) [OF ct idle(1)] n by metis
  let ?i = "write_bytes api (smp_data x) bytes j"
  have loaned: "loaned ?i = {smp_data x}" using loan_contractD(3,9) [OF lc] x(1) idle(1) by simp
  have "length (queue ?i) < capacity" using room x(3,5) by simp
  with loaned obtain k j2 where send: "sample_send api x ?i = (Inr k, j2)" "queue j2 = queue ?i @ [payload_bytes api x ?i]"
    "held j2 = held ?i" "signalled j2 = signalled ?i"
    using channel_contractD(4) [OF ct] by blast
  obtain m l where l: "notify api (ch_notifier c) None j2 = (Inr m, l)" "queue l = queue j2" "held l = held j2" "signalled l = told (signalled j2)"
    using channel_contractD(6) [OF ct] by metis
  have "loaned l = {}"
    using loan_contractD(5) [OF lc, of x ?i] loan_contractD(8) [OF lc, of "ch_notifier c" None j2] send(1) l(1) loaned by simp
  moreover have "held l = {}" using l(3) send(3) receive_contractD(8) [OF rc] x(4) idle(2) by simp
  ultimately show thesis using x send l that by (metis (no_types))
qed

lemma publish_enqueues_loan:
  fixes w :: "('i, 'm) world"
  assumes ct: "channel_contract api c loaned held queue told signalled capacity" and up: "channel_up env c loaned held queue msgs w"
    and pod: "\<not> ch_pod c" and src: "messages w src = Some msg" and room: "length msgs < capacity"
    and rep: "representable env c msg"
  shows "\<exists>w'. rmw_publish api env (ch_publisher c) src w = Some (RMW_RET_OK, w') \<and>
    channel_up env c loaned held queue (msgs @ [msg]) w' \<and> messages w' = messages w \<and>
    signalled (iox w') = told (signalled (iox w)) \<and> objects_kept w w'"
proof (rule channel_upE [OF up], goal_cases)
  case (1 ph i sh s)
  note r = 1(1-8) and q = 1(9-11) and m = 1(15) [OF src] and lc = channel_contractD(1) [OF ct]
  have ts: "pub_typesupport i \<noteq> nullptr" "ts_data env (pub_typesupport i) \<noteq> nullptr"
    "fastrtps_cpp env (pub_typesupport i) = Inr (Some (ch_callbacks c))"
    using 1(12-14) r(5) by simp_all
  define n where "n = unat (4 + get_serialized_size (ch_callbacks c) msg)"
  from rep pod obtain bytes where ser: "cdr_serialize (ch_callbacks c) msg n = (True, bytes)" "length bytes \<le> n"
    "\<And>rest. carries env c msg (bytes @ rest)"
    by (auto simp: representable_def n_def Let_def)
  have "length (queue (iox w)) < capacity" using room q(3) by (simp add: list_all2_lengthD)
  from channel_loan_sent [OF ct q(1,2) this ser(2)] obtain x j k j2 nn l rest where
    x: "loan_slice_uninit api (ch_publisher_port c) n (iox w) = (Inr x, j)" "odd (smp_data x)"
    and sent: "sample_send api x (write_bytes api (smp_data x) bytes j) = (Inr k, j2)" "notify api (ch_notifier c) None j2 = (Inr nn, l)"
    and l: "queue l = queue (iox w) @ [bytes @ rest]" "loaned l = {}" "held l = {}" "signalled l = told (signalled (iox w))" .
  let ?q = "rp_data ph"
  obtain reg w1 where w1: "iox w1 = j" "publisher_method ?q (Publisher_loan api n) w = Some (Inr (smp_data x), w1)"
    "heap w1 = (heap w)(?q \<mapsto> PublisherObj (i\<lparr>pub_registry := reg\<rparr>))"
    "map_of reg = (map_of (pub_registry i))(smp_data x \<mapsto> x)"
    "publisher_ready loaned (ch_publisher_port c) (ch_publisher c) ph (i\<lparr>pub_registry := reg\<rparr>) w1"
    "smp_data x \<noteq> nullptr"
    by (rule publisher_loan_call [OF r(1) lc, of n]) (use x(1) in auto)
  have hq: "heap w ?q = Some (PublisherObj i)" using r(1) by (simp add: publisher_ready_def)
  have q1: "heap w1 ?q = Some (PublisherObj (i\<lparr>pub_registry := reg\<rparr>))" "publisher_wf (i\<lparr>pub_registry := reg\<rparr>)"
    "map_of reg (smp_data x) = Some x" "heap w1 (smp_data x) = None" "heap w1 src = Some (Message msg)"
    using w1(3-5) hq m 1(16) [OF x(2)] by (auto simp: publisher_ready_def publisher_balanced_def)
  from publish_loaned_path_effects [OF q1(1-3) w1(6) q1(4,5) conjunct2 [OF m] ts(1,3) ser(1), of api] sent w1(1) r(3)
  obtain w' reg' where w': "publish_loaned_path api env ?q src (pub_typesupport i) n (smp_data x) w1 = Some (RMW_RET_OK, w')"
    "heap w' = (heap w)(?q \<mapsto> PublisherObj (i\<lparr>pub_registry := reg'\<rparr>))" "iox w' = l"
    by (auto simp: w1(3))
  have pub: "rmw_publish api env (ch_publisher c) src w = Some (RMW_RET_OK, w')"
    using rmw_publish_by_loan [OF r(1) _ conjunct1 [OF m] conjunct2 [OF m] ts n_def, of api] r(2) pod w1(2) w'(1) by simp
  have "publisher_up loaned (ch_publisher_port c) (ch_publisher c) ph w'"
    using rmw_publisher_call_up [OF rmw_publisher_call.publish [OF pub] _ lc] r(1) by (auto simp: publisher_up_def)
  then have "publisher_ready loaned (ch_publisher_port c) (ch_publisher c) ph (i\<lparr>pub_registry := reg'\<rparr>) w'"
    using w'(2) by (auto simp: publisher_up_def publisher_ready_def)
  moreover have "subscription_ready held (ch_subscriber_port c) (ch_subscription c) sh s w'"
    using r(6) w'(2,3) hq l(3) q(2) by (auto simp: subscription_ready_def subscriber_balanced_def)
  moreover have "list_all2 (carries env c) (msgs @ [msg]) (queue (iox w'))"
    using q(3) w'(3) l(1) ser(3) by (simp add: list_all2_snoc)
  moreover have "\<forall>a. odd a \<or> a = nullptr \<longrightarrow> heap w' a = None"
    using up hq w'(2) by (auto simp: channel_up_def)
  ultimately have "channel_up env c loaned held queue (msgs @ [msg]) w'"
    using 1(12-14) r(2-5,7,8) l(2,3) w'(3) unfolding channel_up_def by fastforce
  moreover have "messages w' = messages w" by (rule messages_other [OF w'(2) hq]) simp_all
  moreover have "objects_kept w w'" using w'(2) hq by (auto simp: objects_kept_def)
  ultimately show ?thesis using pub w'(3) l(4) by blast
qed

text \<open>Taking, whichever way the type is taken.\<close>

lemma take_nothing:
  fixes w :: "('i, 'm) world"
  assumes r: "subscription_ready held port p h s w" and c: "receive_contract api port held"
    and m: "heap w dst = Some (Message other)" "dst \<noteq> nullptr" and none: "receive api port (iox w) = (Inr None, j)"
  shows "\<exists>w'. rmw_take api env p dst (Some b) w = Some ((RMW_RET_OK, Some False), w') \<and>
    heap w' = heap w \<and> iox w' = j \<and> held (iox w') = held (iox w)"
proof (cases "rs_can_loan_messages h")
  case True
  then show ?thesis using take_copy_path [OF r c _ m, of env b] none by auto
next
  case False
  show ?thesis
    by (rule take_loan_call [OF r c]) (use none rmw_take_by_loan [OF r False m(2), of api env b] in auto)
qed

lemma take_something:
  fixes w :: "('i, 'm) world"
  assumes r: "subscription_ready held port p h s w" and c: "receive_contract api port held"
    and m: "heap w dst = Some (Message other)" "dst \<noteq> nullptr" and some: "receive api port (iox w) = (Inr (Some y), j)"
    and y: "heap w (smp_data y) = None"
    and ts: "sub_typesupport s \<noteq> nullptr" "fastrtps_cpp env (sub_typesupport s) = Inr (Some cb)"
    and dec: "if rs_can_loan_messages h then msg_write env (payload_bytes api y j) other = msg
              else cdr_deserialize cb (payload_bytes api y j) other = (True, msg)"
  shows "\<exists>w' reg z. rmw_take api env p dst (Some b) w = Some ((RMW_RET_OK, Some True), w') \<and>
    heap w' = (heap w)(dst \<mapsto> Message msg, rs_data h \<mapsto> SubscriberObj (s\<lparr>sub_registry := reg\<rparr>)) \<and>
    subscription_ready held port p h (s\<lparr>sub_registry := reg\<rparr>) w' \<and>
    held (iox w') = held (iox w) \<and> iox w' = sample_drop api z j"
proof -
  have hs: "heap w (rs_data h) = Some (SubscriberObj s)" and dq: "dst \<noteq> rs_data h"
    using r m by (auto simp: subscription_ready_def)
  show ?thesis
  proof (cases "rs_can_loan_messages h")
    case True
    then obtain w' where w': "rmw_take api env p dst (Some b) w = Some ((RMW_RET_OK, Some True), w')"
      "heap w' = (heap w)(dst \<mapsto> Message msg)" "held (iox w') = held (iox w)" "iox w' = sample_drop api y j"
      using take_copy_path [OF r c _ m, of env b] some dec by auto
    moreover from this have "subscription_ready held port p h (s\<lparr>sub_registry := sub_registry s\<rparr>) w'"
      using r m by (auto simp: subscription_ready_def subscriber_balanced_def)
    ultimately show ?thesis
      using hs dq by (intro exI [of _ w'] exI [of _ "sub_registry s"] exI [of _ y]) (auto simp: fun_upd_idem)
  next
    case False
    obtain reg w1 where w1: "iox w1 = j"
      "subscriber_method (rs_data h) (Subscriber_take_loan api) w =
         Some (Inr (Some \<lparr>loan_bytes = smp_data y, loan_number_of_bytes = smp_len y\<rparr>), w1)"
      "heap w1 = (heap w)(rs_data h \<mapsto> SubscriberObj (s\<lparr>sub_registry := reg\<rparr>))"
      "subscription_ready held port p h (s\<lparr>sub_registry := reg\<rparr>) w1"
      "smp_data y \<noteq> nullptr" "smp_data y \<notin> held (iox w)" "held (iox w1) = insert (smp_data y) (held (iox w))"
      by (rule take_loan_call [OF r c]) (use some in auto)
    have "heap w1 (smp_data y) = None" "heap w1 dst = Some (Message other)" using w1(3) y hs m dq by auto
    moreover have "cdr_deserialize cb (payload_bytes api y (iox w1)) other = (True, msg)" using dec False w1(1) by simp
    ultimately obtain w' reg' z where w': "deserialize_loan api env (rs_data h) dst
        \<lparr>loan_bytes = smp_data y, loan_number_of_bytes = smp_len y\<rparr> w1 = Some ((RMW_RET_OK, Some True), w')"
      "held (iox w') = held (iox w)" "iox w' = sample_drop api z j"
      "subscription_ready held port p h (s\<lparr>sub_registry := reg'\<rparr>) w'"
      "heap w' = (heap w1)(dst \<mapsto> Message msg, rs_data h \<mapsto> SubscriberObj (s\<lparr>sub_registry := reg'\<rparr>))"
      using deserialize_loan_effects [OF w1(4) c _ m(2), of other env cb y True msg] ts w1(1,5-7) by auto
    moreover have "heap w' = (heap w)(dst \<mapsto> Message msg, rs_data h \<mapsto> SubscriberObj (s\<lparr>sub_registry := reg'\<rparr>))"
      using w'(5) w1(3) dq by auto
    moreover have "rmw_take api env p dst (Some b) w = Some ((RMW_RET_OK, Some True), w')"
      using w'(1) w1(2) rmw_take_by_loan [OF r False m(2), of api env b] by simp
    ultimately show ?thesis by blast
  qed
qed

text \<open>Taking from an empty channel finds nothing; from any other, the first message.\<close>

lemma channel_up_taken:
  fixes w :: "('i, 'm) world"
  assumes up: "channel_up env c loaned held queue msgs w" and dst: "messages w dst = Some other"
    and s: "subscription_ready held (ch_subscriber_port c) (ch_subscription c) sh s w" "rs_can_loan_messages sh = ch_pod c"
      "sub_typesupport s = ch_typesupport c"
    and h: "heap w' = (heap w)(dst \<mapsto> Message msg, rs_data sh \<mapsto> SubscriberObj (s\<lparr>sub_registry := reg\<rparr>))"
    and s': "subscription_ready held (ch_subscriber_port c) (ch_subscription c) sh (s\<lparr>sub_registry := reg\<rparr>) w'"
    and i: "held (iox w') = {}" "loaned (iox w') = {}" "queue (iox w') = tl (queue (iox w))"
  shows "channel_up env c loaned held queue (tl msgs) w'"
proof (rule channel_upE [OF up], goal_cases)
  case (1 ph p _ _)
  note m = 1(15) [OF dst]
  have "list_all2 (carries env c) (tl msgs) (queue (iox w'))"
    using 1(11) i(3) by (cases msgs; cases "queue (iox w)") auto
  moreover have "publisher_ready loaned (ch_publisher_port c) (ch_publisher c) ph p w'"
    using 1(1,9) s(1) m h i(2) by (auto simp: publisher_ready_def publisher_balanced_def subscription_ready_def)
  moreover have "\<forall>a. odd a \<or> a = nullptr \<longrightarrow> heap w' a = None"
    using h s(1) m up by (auto simp: channel_up_def subscription_ready_def)
  ultimately show ?thesis
    using 1(2-5,12-14) s(2,3) s' i(1,2) unfolding channel_up_def by fastforce
qed

lemma take_dequeues:
  fixes w :: "('i, 'm) world"
  assumes ct: "channel_contract api c loaned held queue told signalled capacity" and up: "channel_up env c loaned held queue msgs w"
    and dst: "messages w dst = Some other"
  shows "\<exists>w'. rmw_take api env (ch_subscription c) dst (Some b) w = Some ((RMW_RET_OK, Some (msgs \<noteq> [])), w') \<and>
    channel_up env c loaned held queue (tl msgs) w' \<and>
    messages w' = (case msgs of [] \<Rightarrow> messages w | msg # _ \<Rightarrow> (messages w)(dst \<mapsto> msg)) \<and>
    signalled (iox w') = signalled (iox w) \<and> objects_kept w w'"
proof (rule channel_upE [OF up], goal_cases)
  case (1 ph i sh s)
  note r = 1(1-8) and q = 1(9-11) and m = conjunct1 [OF 1(15) [OF dst]] conjunct2 [OF 1(15) [OF dst]]
    and lc = channel_contractD(1) [OF ct] and rc = channel_contractD(2) [OF ct]
  obtain x j where x: "receive api (ch_subscriber_port c) (iox w) = (Inr x, j)" "loaned j = loaned (iox w)"
    "queue j = tl (queue (iox w))" "signalled j = signalled (iox w)" "x = None \<longleftrightarrow> msgs = []"
    "\<forall>y. x = Some y \<longrightarrow> odd (smp_data y) \<and> payload_bytes api y j = hd (queue (iox w))"
    using channel_contractD(7) [OF ct q(2)] q(3) by (metis list_all2_Nil list_all2_Nil2)
  have hs: "heap w (rs_data sh) = Some (SubscriberObj s)" and dq: "dst \<noteq> rs_data sh"
    using r(6) m by (auto simp: subscription_ready_def)
  show ?thesis
  proof (cases msgs)
    case Nil
    with take_nothing [OF r(6) rc m, of j env b] x(1,5) obtain w' where
      w': "rmw_take api env (ch_subscription c) dst (Some b) w = Some ((RMW_RET_OK, Some False), w')"
      "heap w' = heap w" "iox w' = j" "held (iox w') = held (iox w)" by auto
    have "subscription_ready held (ch_subscriber_port c) (ch_subscription c) sh (s\<lparr>sub_registry := sub_registry s\<rparr>) w'"
      using r(6) w'(2,4) by (simp add: subscription_ready_def subscriber_balanced_def)
    with channel_up_taken [OF up dst r(6-8), of w' other "sub_registry s"] w' hs dq m x(2,3) q(1,2) have "channel_up env c loaned held queue (tl msgs) w'"
      by (simp add: fun_upd_idem)
    with w' x(4) Nil messages_cong [of w' w] objects_kept_same [of w' w] show ?thesis by auto
  next
    case (Cons msg rest)
    then obtain y where y: "receive api (ch_subscriber_port c) (iox w) = (Inr (Some y), j)" "odd (smp_data y)"
      "payload_bytes api y j = hd (queue (iox w))"
      using x(1,5,6) by auto
    have "carries env c msg (payload_bytes api y j)" using q(3) Cons y(3) by (cases "queue (iox w)") auto
    then obtain w' reg z where w': "rmw_take api env (ch_subscription c) dst (Some b) w = Some ((RMW_RET_OK, Some True), w')"
      "heap w' = (heap w)(dst \<mapsto> Message msg, rs_data sh \<mapsto> SubscriberObj (s\<lparr>sub_registry := reg\<rparr>))"
      "subscription_ready held (ch_subscriber_port c) (ch_subscription c) sh (s\<lparr>sub_registry := reg\<rparr>) w'"
      "held (iox w') = held (iox w)" "iox w' = sample_drop api z j"
      using take_something [OF r(6) rc m y(1) 1(16) [OF y(2)], of env "ch_callbacks c" msg b] 1(12,14) r(7,8)
      by (auto simp: carries_def)
    moreover have "messages w' = (messages w)(dst \<mapsto> msg)"
      using w'(2) hs dq by (auto simp: messages_def load_def fun_eq_iff)
    moreover have "objects_kept w w'" using w'(2) hs dq m by (auto simp: objects_kept_def)
    moreover have "signalled (iox w') = signalled (iox w)" using w'(5) x(4) channel_contractD(9) [OF ct] by simp
    moreover have "loaned (iox w') = {}" "queue (iox w') = tl (queue (iox w))"
      using w'(5) x(2,3) q(1) loan_contractD(6) [OF lc] channel_contractD(8) [OF ct] by auto
    ultimately show ?thesis using channel_up_taken [OF up dst r(6-8) w'(2,3)] q(2) Cons by auto
  qed
qed

section \<open>The queue\<close>

text \<open>
  The two calls, with the address of the message that is published or overwritten, and what they
  come to on a queue of messages and the messages in memory.
\<close>

datatype channel_op = Publish ptr | Take ptr

fun channel_call ::
  "'i iox2 \<Rightarrow> 'm ros_env \<Rightarrow> 'm channel \<Rightarrow> channel_op \<Rightarrow> ('i, 'm) world \<Rightarrow>
   ((rmw_ret \<times> bool option) \<times> ('i, 'm) world) option" where
  "channel_call api env c (Publish src) w = do { (r, w) \<leftarrow> rmw_publish api env (ch_publisher c) src w; Some ((r, None), w) }"
| "channel_call api env c (Take dst) w = rmw_take api env (ch_subscription c) dst (Some False) w"

fun queue_step ::
  "channel_op \<Rightarrow> 'm list \<times> (ptr \<rightharpoonup> 'm) \<Rightarrow> (rmw_ret \<times> bool option) \<times> 'm list \<times> (ptr \<rightharpoonup> 'm)" where
  "queue_step (Publish src) (msgs, memory) = ((RMW_RET_OK, None), msgs @ [the (memory src)], memory)"
| "queue_step (Take dst) ([], memory) = ((RMW_RET_OK, Some False), [], memory)"
| "queue_step (Take dst) (msg # msgs, memory) = ((RMW_RET_OK, Some True), msgs, memory(dst \<mapsto> msg))"

text \<open>What the caller has to see to: the addresses are those of messages, a published message can be represented,
  and no more than \<open>capacity\<close> messages wait.\<close>

fun channel_may ::
  "'m ros_env \<Rightarrow> 'm channel \<Rightarrow> nat \<Rightarrow> channel_op \<Rightarrow> 'm list \<times> (ptr \<rightharpoonup> 'm) \<Rightarrow> bool" where
  "channel_may env c capacity (Publish src) (msgs, memory) \<longleftrightarrow>
     length msgs < capacity \<and> (case memory src of None \<Rightarrow> False | Some msg \<Rightarrow> representable env c msg)"
| "channel_may env c capacity (Take dst) (msgs, memory) \<longleftrightarrow> memory dst \<noteq> None"

lemma channel_call_simulates:
  fixes w :: "('i, 'm) world"
  assumes ct: "channel_contract api c loaned held queue told signalled capacity" and up: "channel_up env c loaned held queue msgs w"
    and may: "channel_may env c capacity x (msgs, messages w)"
  shows "\<exists>w'. channel_call api env c x w = Some (fst (queue_step x (msgs, messages w)), w') \<and>
    channel_up env c loaned held queue (fst (snd (queue_step x (msgs, messages w)))) w' \<and>
    messages w' = snd (snd (queue_step x (msgs, messages w))) \<and>
    signalled (iox w') = (case x of Publish _ \<Rightarrow> told (signalled (iox w)) | Take _ \<Rightarrow> signalled (iox w)) \<and> objects_kept w w'"
proof (cases x)
  case (Publish src)
  with may obtain msg where "messages w src = Some msg" "length msgs < capacity" "representable env c msg"
    by (auto split: option.splits)
  with publish_enqueues_copy [OF ct up _ this] publish_enqueues_loan [OF ct up _ this] Publish show ?thesis
    by (cases "ch_pod c") auto
next
  case (Take dst)
  with may obtain other where "messages w dst = Some other" by auto
  from take_dequeues [OF ct up this, of False] Take show ?thesis by (cases msgs) auto
qed

definition channel_related ::
  "'i iox2 \<Rightarrow> 'm ros_env \<Rightarrow> 'm channel \<Rightarrow> ('i \<Rightarrow> ptr set) \<Rightarrow> ('i \<Rightarrow> ptr set) \<Rightarrow> ('i \<Rightarrow> u8 list list) \<Rightarrow> ('s \<Rightarrow> 's) \<Rightarrow>
   ('i \<Rightarrow> 's) \<Rightarrow> nat \<Rightarrow> 'm list \<times> (ptr \<rightharpoonup> 'm) \<Rightarrow> ('i, 'm) world \<Rightarrow> bool" where
  "channel_related api env c loaned held queue told signalled capacity a w \<longleftrightarrow>
     channel_contract api c loaned held queue told signalled capacity \<and> channel_up env c loaned held queue (fst a) w \<and>
     messages w = snd a"

interpretation channel: simulation "channel_call api env c" queue_step "channel_may env c capacity"
    "channel_related api env c loaned held queue told signalled capacity"
  for api :: "'i iox2" and env :: "'m ros_env" and c loaned held queue capacity
proof
  fix a :: "'m list \<times> (ptr \<rightharpoonup> 'm)" and w :: "('i, 'm) world" and x
  assume rel: "channel_related api env c loaned held queue told signalled capacity a w" and may: "channel_may env c capacity x a"
  obtain msgs memory where [simp]: "a = (msgs, memory)" by (cases a)
  from rel have ct: "channel_contract api c loaned held queue told signalled capacity" and up: "channel_up env c loaned held queue msgs w"
    and mem: "messages w = memory" by (simp_all add: channel_related_def)
  from channel_call_simulates [OF ct up] may mem
  show "\<exists>w'. channel_call api env c x w = Some (fst (queue_step x a), w') \<and>
      channel_related api env c loaned held queue told signalled capacity (snd (queue_step x a)) w'"
    using ct by (fastforce simp: channel_related_def)
qed

section \<open>On the middleware that transports\<close>

text \<open>The publisher at 22 and the subscription at 26, for a type that is copied or one that is serialized.\<close>

definition live_channel :: "bool \<Rightarrow> u8 list channel" where
  "live_channel pod =
     \<lparr>ch_publisher = 22, ch_subscription = 26, ch_publisher_port = 6, ch_notifier = 4, ch_subscriber_port = 7,
      ch_typesupport = 1,
      ch_callbacks = \<lparr>get_serialized_size = (\<lambda>m. of_nat (length m)), cdr_serialize = (\<lambda>m n. (length m \<le> n, take n m)),
        cdr_deserialize = (\<lambda>bs m. (True, take 2 bs))\<rparr>,
      ch_size = 8, ch_pod = pod\<rparr>"

definition live_env :: "u8 list ros_env" where
  "live_env = sim_env\<lparr>fastrtps_cpp := (\<lambda>ts. Inr (Some (ch_callbacks (live_channel True))))\<rparr>"

definition live_world :: "bool \<Rightarrow> (live, u8 list) world" where
  "live_world pod =
     \<lparr>errmsg = None, iox = live_start,
      heap = (heap sim_world)(22 \<mapsto> PublisherHandle (publisher_handle 24 30 pod),
        26 \<mapsto> SubscriptionHandle (subscription_handle 28 32 pod), 34 \<mapsto> Message [1, 2], 36 \<mapsto> Message [], 38 \<mapsto> Message []),
      next_ptr = 40, requests = 0\<rparr>"

lemma live_channel_contract:
  "channel_contract live_api (live_channel pod) (\<lambda>i. set (lv_loans i)) (\<lambda>i. set (lv_held i)) lv_queue
     (\<lambda>(P, L). (P \<union> {l. (l, names_topic ''/chatter'') \<in> L}, L)) (\<lambda>i. (set (lv_pending i), set (lv_listeners i))) capacity"
  unfolding channel_contract_def
proof (intro conjI allI impI, goal_cases)
  case 1
  show ?case by (rule live_loan_contract)
next
  case 2
  show ?case by (rule live_receive_contract)
next
  case (5 n i)
  show ?case
    by (simp add: live_api_def lv_loan_def Let_def payload_bytes_def lv_write_def)
qed (auto simp: live_api_def live_channel_def lv_service_def lv_send_def lv_receive_def lv_remove_def
    payload_bytes_def Let_def split: list.splits)

lemma live_channel_up:
  "channel_up live_env (live_channel pod) (\<lambda>i. set (lv_loans i)) (\<lambda>i. set (lv_held i)) lv_queue [] (live_world pod)"
proof -
  have "publisher_ready (\<lambda>i. set (lv_loans i)) 6 22 (publisher_handle 24 30 pod) sim_publisher (live_world pod)"
    using sim_publisher_wf
    by (simp add: publisher_ready_def publisher_balanced_def live_world_def sim_world_def sim_publisher_def live_start_def)
  moreover have "subscription_ready (\<lambda>i. set (lv_held i)) 7 26 (subscription_handle 28 32 pod) sim_subscriber (live_world pod)"
    using sim_subscriber_wf
    by (simp add: subscription_ready_def subscriber_balanced_def live_world_def sim_world_def sim_subscriber_def live_start_def)
  moreover have "heap (live_world pod) a = None" if "odd a \<or> a = 0" for a
    using that by (auto simp: live_world_def sim_world_def split: if_splits)
  ultimately show ?thesis
    unfolding channel_up_def
    by (intro conjI exI [of _ "publisher_handle 24 30 pod"] exI [of _ sim_publisher]
        exI [of _ "subscription_handle 28 32 pod"] exI [of _ sim_subscriber])
      (simp_all add: live_channel_def live_env_def sim_publisher_def sim_subscriber_def sim_env_def live_world_def live_start_def)
qed

section \<open>Properties\<close>

text \<open>C7. Publishing and taking on one topic implement a queue of messages, whichever way the type is
  transported: for every sequence of \<open>rmw_publish\<close> and \<open>rmw_take\<close> calls that never has more messages
  waiting than fit, every call returns \<open>RMW_RET_OK\<close>, \<open>taken\<close> says whether a message was waiting, a taken
  message is the oldest one not taken yet, exactly as it was published, and no other message in memory
  changes. Afterwards nothing is borrowed on either side.\<close>
theorem channel_refines_queue:
  fixes w :: "('i, 'm) world"
  assumes "channel_contract api c loaned held queue told signalled capacity"
    and "channel_up env c loaned held queue msgs w"
    and "permitted (channel_may env c capacity) queue_step ops (msgs, messages w)"
  shows "\<exists>results msgs' memory w'. run_machine queue_step ops (msgs, messages w) = (results, msgs', memory) \<and>
    run_calls (channel_call api env c) ops w = Some (results, w') \<and>
    channel_up env c loaned held queue msgs' w' \<and> messages w' = memory \<and>
    loaned (iox w') = {} \<and> held (iox w') = {}"
proof -
  have "channel_related api env c loaned held queue told signalled capacity (msgs, messages w) w"
    using assms by (simp add: channel_related_def)
  from channel.runs [OF this assms(3)] show ?thesis
    by (cases "run_machine queue_step ops (msgs, messages w)") (auto simp: channel_related_def channel_up_idle)
qed

text \<open>A message published twice and taken three times, as plain bytes and serialized.\<close>
theorem channel_refines_queue_witness:
  "\<forall>pod. \<exists>w'. run_calls (channel_call live_api live_env (live_channel pod))
        [Publish 34, Take 36, Take 38, Publish 34, Take 38] (live_world pod) =
      Some ([(RMW_RET_OK, None), (RMW_RET_OK, Some True), (RMW_RET_OK, Some False), (RMW_RET_OK, None),
             (RMW_RET_OK, Some True)], w') \<and>
    messages w' 36 = Some [1, 2] \<and> messages w' 38 = Some [1, 2]"
proof
  fix pod
  have m: "messages (live_world pod) 34 = Some [1, 2]" "messages (live_world pod) 36 = Some []"
    "messages (live_world pod) 38 = Some []"
    by (simp_all add: messages_def load_def live_world_def)
  have r: "representable live_env (live_channel pod) [1, 2]"
    by (auto simp: representable_def carries_def live_env_def live_channel_def sim_env_def)
  have "permitted (channel_may live_env (live_channel pod) 2) queue_step
      [Publish 34, Take 36, Take 38, Publish 34, Take 38] ([], messages (live_world pod))"
    by (simp add: m r)
  from channel_refines_queue [OF live_channel_contract live_channel_up this] m show "\<exists>w'. run_calls (channel_call live_api live_env (live_channel pod))
        [Publish 34, Take 36, Take 38, Publish 34, Take 38] (live_world pod) =
      Some ([(RMW_RET_OK, None), (RMW_RET_OK, Some True), (RMW_RET_OK, Some False), (RMW_RET_OK, None),
             (RMW_RET_OK, Some True)], w') \<and>
    messages w' 36 = Some [1, 2] \<and> messages w' 38 = Some [1, 2]"
    by (auto simp: Let_def)
qed

end
