(* ===== verification/Wait_Liveness.thy ===== *)
theory Wait_Liveness
  imports Waitset_Correct
begin

text \<open>
  Nothing that is pending is missed: when the middleware accepts the attachments and its wait reports
  every attachment whose listener has a notification, an unbounded wait reports the index of every
  mapped entity that is pending.
\<close>

text \<open>
  What the middleware promises, without failures. \<open>attached i\<close> pairs the guards with their listeners
  and \<open>pending i\<close> holds the listeners with a notification. A guard is new, its attachment's id is its
  own, and a wait reports at least the attachments of the pending listeners.
\<close>

definition delivery_contract ::
  "'i iox2 \<Rightarrow> nat \<Rightarrow> ('i \<Rightarrow> (nat \<times> nat) set) \<Rightarrow> ('i \<Rightarrow> nat set) \<Rightarrow> bool" where
  "delivery_contract api waitset attached pending \<longleftrightarrow>
     (\<forall>l i. \<exists>g i'. attach_notification api waitset l i = (Inr g, i') \<and> g \<notin> fst ` attached i \<and>
        insert (g, l) (attached i) \<subseteq> attached i' \<and> pending i \<subseteq> pending i') \<and>
     (\<forall>i. \<exists>ids i'. wait_once api waitset None i = (Inr ids, i') \<and>
        (\<forall>(g, l) \<in> attached i. l \<in> pending i \<longrightarrow> attachment_from_guard api g \<in> set ids)) \<and>
     inj (attachment_from_guard api) \<and> drains_ok api"

lemma delivery_contractD:
  assumes "delivery_contract api waitset attached pending"
  shows "\<exists>g i'. attach_notification api waitset l i = (Inr g, i') \<and> g \<notin> fst ` attached i \<and>
      insert (g, l) (attached i) \<subseteq> attached i' \<and> pending i \<subseteq> pending i'"
    and "\<exists>ids i'. wait_once api waitset None i = (Inr ids, i') \<and>
      (\<forall>(g, l) \<in> attached i. l \<in> pending i \<longrightarrow> attachment_from_guard api g \<in> set ids)"
    and "inj (attachment_from_guard api)" and "drains_ok api"
  using assms unfolding delivery_contract_def by simp_all

lemma attach_mapped_listeners_delivers:
  fixes w :: "('i, 'z) sys_scheme"
  assumes c: "delivery_contract api waitset attached pending" and ws: "ws_waitset ws = Some waitset"
    and "mapping_in_range ws ms"
  shows "\<exists>new w'. attach_mapped_listeners api ws ms old w = Some (Inr (), old @ new, w') \<and>
    map att_mapping new = ms \<and> (\<forall>a \<in> set new. att_id a = attachment_from_guard api (att_guard a) \<and>
      (att_guard a, listener_of ws (att_mapping a)) \<in> attached (iox w')) \<and>
    distinct (map att_guard new) \<and> att_guard ` set new \<inter> fst ` attached (iox w) = {} \<and>
    attached (iox w) \<subseteq> attached (iox w') \<and> pending (iox w) \<subseteq> pending (iox w')"
  using assms(3)
proof (induction ms arbitrary: old w)
  case Nil
  show ?case by (intro exI [of _ "[]"] exI [of _ w]) simp
next
  case (Cons m ms)
  from Cons.prems have range: "mapping_in_range ws ms"
    and m: "map_storage_index m < length (listener_names (map_type m) ws)"
    by (simp_all add: mapping_in_range_def)
  obtain g i' where g: "attach_notification api waitset (listener_of ws m) (iox w) = (Inr g, i')"
    "g \<notin> fst ` attached (iox w)" "insert (g, listener_of ws m) (attached (iox w)) \<subseteq> attached i'"
    "pending (iox w) \<subseteq> pending i'"
    using delivery_contractD(1) [OF c] by metis
  let ?a = "\<lparr>att_guard = g, att_id = attachment_from_guard api g, att_mapping = m\<rparr>"
  let ?w = "w\<lparr>iox := i'\<rparr>"
  have step: "attach_mapped_listener api ws m w = Some (Inr ?a, ?w)"
    using g(1) m by (simp add: attach_mapped_listener_by_kind get_stored_listener_def listener_of_def
        listener_names_def ws call_def)
  from Cons.IH [OF range, of "old @ [?a]" ?w] obtain new w' where
    "attach_mapped_listeners api ws ms (old @ [?a]) ?w = Some (Inr (), (old @ [?a]) @ new, w')"
    "map att_mapping new = ms" "\<forall>a \<in> set new. att_id a = attachment_from_guard api (att_guard a) \<and>
      (att_guard a, listener_of ws (att_mapping a)) \<in> attached (iox w')"
    "distinct (map att_guard new)" "att_guard ` set new \<inter> fst ` attached (iox ?w) = {}"
    "attached (iox ?w) \<subseteq> attached (iox w')" "pending (iox ?w) \<subseteq> pending (iox w')" by blast
  moreover from g(3) have "insert g (fst ` attached (iox w)) \<subseteq> fst ` attached i'" by force
  moreover from calculation have "g \<notin> att_guard ` set new" "att_guard ` set new \<inter> fst ` attached (iox w) = {}"
    by simp_all blast+
  ultimately show ?case
    using g step by (intro exI [of _ "?a # new"] exI [of _ w'] conjI) (simp_all, blast+)
qed

lemma find_attached:
  assumes "distinct (map att_id attached)" and "a \<in> set attached"
  shows "find (\<lambda>x. att_id x = att_id a) attached = Some a"
  using assms by (induction attached) auto

lemma attached_entries_complete:
  assumes "distinct (map att_id attached)" and "a \<in> set attached" and "att_id a \<in> set ids"
  shows "triggered_of (att_mapping a) \<in> set (attached_entries None attached ids)"
  using assms(3) find_attached [OF assms(1,2)] by (induction ids) (auto split: option.split)

text \<open>Nothing pending is missed: an unbounded wait on a well-formed wait set, with a middleware that does
  not fail, ends with the index of every staged entity whose listener has a notification, whatever
  else is staged or reported.\<close>
lemma pending_is_reported:
  assumes "waitset_wf ws" and "ws_waitset ws = Some waitset"
    and "delivery_contract api waitset attached pending"
    and "m \<in> set (ws_mapping ws)" and "listener_of ws m \<in> pending (iox w)"
  shows "\<exists>ts w'. WaitSet_wait api None ws w = Some (Inr ts, w') \<and>
    \<lparr>trg_type = map_type m, trg_rmw_index = map_rmw_index m\<rparr> \<in> set ts"
proof -
  have range: "mapping_in_range ws (ws_mapping ws)"
    using assms(1) by (auto simp: waitset_wf_def mapping_in_range_def)
  from attach_mapped_listeners_delivers [OF assms(3,2) range, of "[]" w] obtain new w1 where
    att: "attach_mapped_listeners api ws (ws_mapping ws) [] w = Some (Inr (), new, w1)"
    "map att_mapping new = ws_mapping ws" "\<forall>a \<in> set new. att_id a = attachment_from_guard api (att_guard a) \<and>
      (att_guard a, listener_of ws (att_mapping a)) \<in> attached (iox w1)"
    "distinct (map att_guard new)" "pending (iox w) \<subseteq> pending (iox w1)" by auto
  obtain ids i' where wait: "wait_once api waitset None (iox w1) = (Inr ids, i')"
    "\<forall>(g, l) \<in> attached (iox w1). l \<in> pending (iox w1) \<longrightarrow> attachment_from_guard api g \<in> set ids"
    using delivery_contractD(2) [OF assms(3)] by metis
  have "distinct (map att_id new)"
  proof -
    have "map att_id new = map (attachment_from_guard api) (map att_guard new)" using att(3) by simp
    then show ?thesis
      using att(4) inj_on_subset [OF delivery_contractD(3) [OF assms(3)]] by (simp only: distinct_map) simp
  qed
  moreover obtain a where a: "a \<in> set new" "att_mapping a = m"
    using assms(4) att(2) by (metis imageE list.set_map)
  moreover have "att_id a \<in> set ids" using a att(3,5) wait(2) assms(5) by fastforce
  ultimately have rep: "triggered_of m \<in> set (attached_entries None new ids)"
    using attached_entries_complete by metis
  have "mapping_in_range ws (map att_mapping new)" using range att(2) by simp
  then obtain ts w3 where ev: "process_events api ws None new ids [] (w1\<lparr>iox := i'\<rparr>) = (ts, w3)"
    "ts = attached_entries None new ids"
    using process_events_drains [of ws new api None ids "[]" "w1\<lparr>iox := i'\<rparr>"] drained_all [OF delivery_contractD(4) [OF assms(3)]]
    by auto
  have ne: "ws_mapping ws \<noteq> []" using assms(4) by auto
  with ev rep have "triggered_of m \<in> set ts" by simp
  moreover have "WaitSet_wait api None ws w = Some (Inr ts, run_iox (wait_context_dtor api new None) w3)"
    using ne att(1) wait(1) ev(1) assms(2) by (simp add: WaitSet_wait_def call_def Let_def)
  ultimately show ?thesis by (simp add: triggered_of_def)
qed

text \<open>The staged guard condition of the sample wait set, pending.\<close>
lemma pending_is_reported_witness:
  "\<exists>ts w'. WaitSet_wait sim_api None sim_waitset sim_sys = Some (Inr ts, w') \<and>
    \<lparr>trg_type = GUARD_CONDITION, trg_rmw_index = 3\<rparr> \<in> set ts"
proof -
  let ?m = "\<lparr>map_type = GUARD_CONDITION, map_storage_index = 0, map_rmw_index = 3\<rparr>"
  have c: "delivery_contract sim_api 9 (\<lambda>i. set (sim_guards i) \<times> UNIV) (\<lambda>i. {5})"
    using fresh_notin
    by (auto simp: delivery_contract_def sim_api_def sim_attach_def Let_def drains_ok_def)
  have "ws_waitset sim_waitset = Some 9" "?m \<in> set (ws_mapping sim_waitset)" "listener_of sim_waitset ?m \<in> {5}"
    by (simp_all add: sim_waitset_def listener_of_def listener_storage_def)
  from pending_is_reported [where w = sim_sys, OF sim_waitset_wf this(1) c this(2,3)] show ?thesis by simp
qed

end
