(* ===== verification/Wait_Delivery.thy ===== *)
theory Wait_Delivery
  imports Wait_Liveness Live_Middleware
begin

text \<open>
  What a wait reports, on a middleware that does not fail: exactly the mapped entities whose listener has a
  notification, whatever else is mapped or reported, and what is reported is drained.
\<close>

section \<open>Events in the middleware\<close>

text \<open>
  What iceoryx2 documents of notifications. \<open>attached i\<close> pairs the guards with their listeners, or with
  \<open>None\<close> for an interval; \<open>pending i\<close> holds the listeners with a notification that was not drained. A
  guard is new. A wait reports the attachments of the pending listeners and may report an interval;
  notifications may arrive while it blocks, so never for a timeout of zero. Draining empties one listener, and a listener that is created has
  no notification yet.
\<close>

definition event_contract ::
  "'i iox2 \<Rightarrow> nat \<Rightarrow> ('i \<Rightarrow> (nat \<times> nat option) set) \<Rightarrow> ('i \<Rightarrow> nat set) \<Rightarrow> bool" where
  "event_contract api waitset attached pending \<longleftrightarrow>
     (\<forall>l i. \<exists>g j. attach_notification api waitset l i = (Inr g, j) \<and> g \<notin> fst ` attached i \<and>
        attached j = insert (g, Some l) (attached i) \<and> pending j = pending i) \<and>
     (\<forall>t i. \<exists>g j. attach_interval api waitset t i = (Inr g, j) \<and> g \<notin> fst ` attached i \<and>
        attached j = insert (g, None) (attached i) \<and> pending j = pending i) \<and>
     (\<forall>t i. \<exists>ids j. wait_once api waitset t i = (Inr ids, j) \<and> attached j = attached i \<and>
        pending i \<subseteq> pending j \<and> (t = Some 0 \<longrightarrow> pending j = pending i) \<and>
        (\<forall>g l. (g, Some l) \<in> attached i \<longrightarrow> l \<in> pending j \<longrightarrow> attachment_from_guard api g \<in> set ids) \<and>
        (\<forall>x \<in> set ids. \<exists>g a. x = attachment_from_guard api g \<and> (g, a) \<in> attached i \<and> set_option a \<subseteq> pending j)) \<and>
     (\<forall>l i. \<exists>n j. try_wait_all api l i = (Inr n, j) \<and> attached j = attached i \<and> pending j = pending i - {l}) \<and>
     (\<forall>g i. pending (guard_drop api g i) = pending i) \<and>
     (\<forall>n s i. \<exists>x j. event_open_or_create api n s i = (Inr x, j) \<and> pending j = pending i) \<and>
     (\<forall>s i. \<exists>l j. listener_create api s i = (Inr l, j) \<and> pending j = pending i \<and> l \<notin> pending i) \<and>
     inj (attachment_from_guard api)"

lemma event_contractD:
  assumes "event_contract api waitset attached pending"
  shows "\<exists>g j. attach_notification api waitset l i = (Inr g, j) \<and> g \<notin> fst ` attached i \<and>
      attached j = insert (g, Some l) (attached i) \<and> pending j = pending i"
    and "\<exists>g j. attach_interval api waitset d i = (Inr g, j) \<and> g \<notin> fst ` attached i \<and>
      attached j = insert (g, None) (attached i) \<and> pending j = pending i"
    and "\<exists>ids j. wait_once api waitset t i = (Inr ids, j) \<and> attached j = attached i \<and>
      pending i \<subseteq> pending j \<and> (t = Some 0 \<longrightarrow> pending j = pending i) \<and>
      (\<forall>g l. (g, Some l) \<in> attached i \<longrightarrow> l \<in> pending j \<longrightarrow> attachment_from_guard api g \<in> set ids) \<and>
      (\<forall>x \<in> set ids. \<exists>g a. x = attachment_from_guard api g \<and> (g, a) \<in> attached i \<and> set_option a \<subseteq> pending j)"
    and "\<exists>n j. try_wait_all api l i = (Inr n, j) \<and> attached j = attached i \<and> pending j = pending i - {l}"
    and "pending (guard_drop api g i) = pending i"
    and "\<exists>x j. event_open_or_create api n s i = (Inr x, j) \<and> pending j = pending i"
    and "\<exists>l j. listener_create api x i = (Inr l, j) \<and> pending j = pending i \<and> l \<notin> pending i"
    and "inj (attachment_from_guard api)"
  using assms unfolding event_contract_def by simp_all

text \<open>No notification arrives while a wait blocks.\<close>

definition no_arrivals :: "'i iox2 \<Rightarrow> nat \<Rightarrow> ('i \<Rightarrow> nat set) \<Rightarrow> bool" where
  "no_arrivals api waitset pending \<longleftrightarrow> (\<forall>t i. pending (snd (wait_once api waitset t i)) = pending i)"

lemma wait_once_reports:
  assumes "event_contract api waitset attached pending"
  shows "\<exists>ids j. wait_once api waitset t i = (Inr ids, j) \<and> attached j = attached i \<and>
      pending i \<subseteq> pending j \<and> (t = Some 0 \<or> no_arrivals api waitset pending \<longrightarrow> pending j = pending i) \<and>
      (\<forall>g l. (g, Some l) \<in> attached i \<longrightarrow> l \<in> pending j \<longrightarrow> attachment_from_guard api g \<in> set ids) \<and>
      (\<forall>x \<in> set ids. \<exists>g a. x = attachment_from_guard api g \<and> (g, a) \<in> attached i \<and> set_option a \<subseteq> pending j)"
  using event_contractD(3) [OF assms, of t i] unfolding no_arrivals_def by (metis snd_conv)

lemma live_no_arrivals: "no_arrivals live_api 9 (\<lambda>i. set (lv_pending i))"
  by (simp add: no_arrivals_def live_api_def)

lemma live_event_contract:
  "event_contract live_api 9 (\<lambda>i. set (lv_attached i)) (\<lambda>i. set (lv_pending i))"
  unfolding event_contract_def
proof (intro conjI allI, goal_cases)
  case (1 l i)
  show ?case using fresh_notin [of "map fst (lv_attached i)"]
    by (auto simp: live_api_def lv_attach_def Let_def simp del: fresh_notin)
next
  case (2 d i)
  show ?case using fresh_notin [of "map fst (lv_attached i)"]
    by (auto simp: live_api_def lv_attach_def Let_def simp del: fresh_notin)
next
  case (3 t i)
  show ?case by (auto simp: live_api_def lv_wait_def Let_def)
next
  case (7 s i)
  show ?case using fresh_notin [of "map fst (lv_listeners i) @ lv_pending i"]
    by (auto simp: live_api_def lv_listen_def Let_def simp del: fresh_notin)
qed (auto simp: live_api_def)

section \<open>Attaching\<close>

text \<open>The attachments made for a mapping, each with a guard of its own.\<close>

definition attachments_of ::
  "'i iox2 \<Rightarrow> waitset_impl \<Rightarrow> rmw_mapping list \<Rightarrow> ('i \<Rightarrow> (nat \<times> nat option) set) \<Rightarrow> 'i \<Rightarrow> attachment_details list \<Rightarrow> 'i \<Rightarrow> bool" where
  "attachments_of api ws ms attached i atts j \<longleftrightarrow>
     map att_mapping atts = ms \<and> (\<forall>a \<in> set atts. att_id a = attachment_from_guard api (att_guard a)) \<and>
     distinct (map att_guard atts) \<and> att_guard ` set atts \<inter> fst ` attached i = {} \<and>
     attached j = attached i \<union> (\<lambda>a. (att_guard a, Some (listener_of ws (att_mapping a)))) ` set atts"

lemma attachments_of_unique:
  assumes "attachments_of api ws ms attached i atts j" and "a \<in> set atts" and "(att_guard a, x) \<in> attached j"
  shows "x = Some (listener_of ws (att_mapping a))"
proof -
  have "(att_guard a, x) \<notin> attached i" using assms(1,2) by (force simp: attachments_of_def)
  then obtain b where "b \<in> set atts" "att_guard b = att_guard a" "x = Some (listener_of ws (att_mapping b))"
    using assms(1,3) by (auto simp: attachments_of_def)
  moreover have "b = a" using calculation(1,2) assms(1,2) by (auto simp: attachments_of_def distinct_map inj_on_def)
  ultimately show ?thesis by simp
qed

lemma attachments_of_distinct:
  assumes "event_contract api waitset attached pending" and "attachments_of api ws ms attached i atts j"
  shows "distinct (map att_id atts)"
proof -
  have "map att_id atts = map (attachment_from_guard api) (map att_guard atts)"
    using assms(2) by (simp add: attachments_of_def)
  then show ?thesis
    using assms(2) inj_on_subset [OF event_contractD(8) [OF assms(1)]]
    by (simp only: distinct_map attachments_of_def) simp
qed

text \<open>So an attachment is among the ids of a wait exactly when its listener is pending.\<close>

lemma attachments_of_reported:
  assumes c: "event_contract api waitset attached pending" and of: "attachments_of api ws ms attached i atts j"
    and a: "a \<in> set atts"
    and ids: "\<forall>g l. (g, Some l) \<in> attached j \<longrightarrow> l \<in> P \<longrightarrow> attachment_from_guard api g \<in> set ids"
      "\<forall>x \<in> set ids. \<exists>g a. x = attachment_from_guard api g \<and> (g, a) \<in> attached j \<and> set_option a \<subseteq> P"
  shows "att_id a \<in> set ids \<longleftrightarrow> listener_of ws (att_mapping a) \<in> P"
proof
  have g: "att_id a = attachment_from_guard api (att_guard a)" using of a by (simp add: attachments_of_def)
  assume "att_id a \<in> set ids"
  then obtain h x where h: "att_id a = attachment_from_guard api h" "(h, x) \<in> attached j" "set_option x \<subseteq> P"
    using ids(2) by blast
  then have "h = att_guard a" using g event_contractD(8) [OF c] by (simp add: inj_eq)
  with h attachments_of_unique [OF of a, of x] show "listener_of ws (att_mapping a) \<in> P" by simp
qed (use of a ids(1) in \<open>auto simp: attachments_of_def\<close>)

lemma attach_mapped_listeners_all:
  fixes w :: "('i, 'z) sys_scheme"
  assumes c: "event_contract api waitset attached pending" and ws: "ws_waitset ws = Some waitset"
    and "mapping_in_range ws ms"
  shows "\<exists>atts w'. attach_mapped_listeners api ws ms old w = Some (Inr (), old @ atts, w') \<and>
    attachments_of api ws ms attached (iox w) atts (iox w') \<and> pending (iox w') = pending (iox w)"
  using assms(3)
proof (induction ms arbitrary: old w)
  case Nil
  show ?case by (intro exI [of _ "[]"] exI [of _ w]) (simp add: attachments_of_def)
next
  case (Cons m ms)
  from Cons.prems have range: "mapping_in_range ws ms"
    and m: "map_storage_index m < length (listener_names (map_type m) ws)"
    by (simp_all add: mapping_in_range_def)
  obtain g j where g: "attach_notification api waitset (listener_of ws m) (iox w) = (Inr g, j)"
    "g \<notin> fst ` attached (iox w)" "attached j = insert (g, Some (listener_of ws m)) (attached (iox w))"
    "pending j = pending (iox w)"
    using event_contractD(1) [OF c] by metis
  let ?a = "\<lparr>att_guard = g, att_id = attachment_from_guard api g, att_mapping = m\<rparr>"
  have step: "attach_mapped_listener api ws m w = Some (Inr ?a, w\<lparr>iox := j\<rparr>)"
    using g(1) m by (simp add: attach_mapped_listener_by_kind get_stored_listener_def listener_of_def
        listener_names_def ws call_def)
  from Cons.IH [OF range, of "old @ [?a]" "w\<lparr>iox := j\<rparr>"] obtain atts w' where
    "attach_mapped_listeners api ws ms (old @ [?a]) (w\<lparr>iox := j\<rparr>) = Some (Inr (), (old @ [?a]) @ atts, w')"
    "attachments_of api ws ms attached j atts (iox w')" "pending (iox w') = pending j" by auto
  with g step show ?case
    by (intro exI [of _ "?a # atts"] exI [of _ w'] conjI) (auto simp: attachments_of_def)
qed

section \<open>Processing\<close>

text \<open>The attachments a run of the callback handles: those reported, up to the timeout's id.\<close>

fun handled :: "nat option \<Rightarrow> attachment_details list \<Rightarrow> nat list \<Rightarrow> attachment_details list" where
  "handled t atts [] = []"
| "handled t atts (i # ids) =
     (if t = Some i then []
      else case find (\<lambda>a. att_id a = i) atts of
             Some a \<Rightarrow> a # handled t atts ids
           | None \<Rightarrow> handled t atts ids)"

lemma handled_sound: "a \<in> set (handled t atts ids) \<Longrightarrow> a \<in> set atts \<and> att_id a \<in> set ids"
  by (induction ids) (auto split: if_splits option.splits dest: find_SomeD)

lemma handled_complete:
  assumes "distinct (map att_id atts)" and "a \<in> set atts" and "att_id a \<in> set ids"
  shows "a \<in> set (handled None atts ids)"
  using assms(3) find_attached [OF assms(1,2)] by (induction ids) (auto split: option.split)

lemma process_events_handles:
  fixes w :: "('i, 'z) sys_scheme"
  assumes c: "event_contract api waitset attached pending" and range: "mapping_in_range ws (map att_mapping atts)"
  shows "\<exists>w'. process_events api ws t atts ids result w =
      (result @ map (triggered_of \<circ> att_mapping) (handled t atts ids), w') \<and>
    pending (iox w') = pending (iox w) - (listener_of ws \<circ> att_mapping) ` set (handled t atts ids)"
proof (induction ids arbitrary: result w)
  case Nil
  show ?case by simp
next
  case (Cons i ids)
  show ?case
  proof (cases "t = Some i \<or> find (\<lambda>a. att_id a = i) atts = None")
    case True
    with Cons.IH [of result w] show ?thesis by auto
  next
    case False
    then obtain a where a: "find (\<lambda>a. att_id a = i) atts = Some a" and t: "t \<noteq> Some i" by blast
    let ?m = "att_mapping a"
    from a range have "map_storage_index ?m < length (listener_names (map_type ?m) ws)"
      by (auto simp: mapping_in_range_def dest: find_SomeD)
    then have l: "get_stored_listener (map_type ?m) (map_storage_index ?m) ws =
        Some (listener_storage (map_type ?m) ws ! map_storage_index ?m)"
      by (simp add: get_stored_listener_def listener_names_def)
    obtain n j where "try_wait_all api (listener_of ws ?m) (iox w) = (Inr n, j)" "pending j = pending (iox w) - {listener_of ws ?m}"
      using event_contractD(4) [OF c] by metis
    then have "process_trigger api ws (map_type ?m) (map_storage_index ?m) w = (Inr (), w\<lparr>iox := j\<rparr>)"
      by (simp add: process_trigger_def l call_def listener_of_def)
    moreover obtain w' where "process_events api ws t atts ids (result @ [triggered_of ?m]) (w\<lparr>iox := j\<rparr>) =
        ((result @ [triggered_of ?m]) @ map (triggered_of \<circ> att_mapping) (handled t atts ids), w')"
      "pending (iox w') = pending j - (listener_of ws \<circ> att_mapping) ` set (handled t atts ids)"
      using Cons.IH [of "result @ [triggered_of ?m]" "w\<lparr>iox := j\<rparr>"] by auto
    ultimately show ?thesis
      using a t \<open>pending j = _\<close> by (auto simp: triggered_of_def)
  qed
qed

section \<open>The whole wait\<close>

lemma wait_context_dtor_pending:
  assumes "event_contract api waitset attached pending"
  shows "pending (wait_context_dtor api atts at i) = pending i"
proof -
  have "pending (fold (\<lambda>a. guard_drop api (att_guard a)) atts i) = pending i" for i
    by (induction atts arbitrary: i) (simp_all add: event_contractD(5) [OF assms])
  then show ?thesis
    by (simp add: wait_context_dtor_def drop_opt_def event_contractD(5) [OF assms] split: option.split)
qed

lemma attach_timeout_step:
  assumes "event_contract api waitset attached pending" and "ws_waitset ws = Some waitset"
  shows "\<exists>at w0. (case t of Some d \<Rightarrow> attach_timeout api d ws w | None \<Rightarrow> Some (Inr (), None, w)) =
      Some (Inr (), at, w0) \<and> pending (iox w0) = pending (iox w) \<and> (at = None \<longleftrightarrow> t = None)"
proof (cases t)
  case (Some d)
  obtain g j where "attach_interval api waitset d (iox w) = (Inr g, j)" "pending j = pending (iox w)"
    using event_contractD(2) [OF assms(1)] by metis
  with Some assms(2) show ?thesis by (simp add: attach_timeout_def call_def)
qed simp

text \<open>\<open>P\<close> are the listeners with a notification when the wait is over, \<open>R\<close> the entries that are reported.\<close>

lemma WaitSet_wait_reports:
  fixes w :: "('i, 'z) sys_scheme"
  assumes wf: "waitset_wf ws" and ws: "ws_waitset ws = Some waitset"
    and c: "event_contract api waitset attached pending" and ne: "ws_mapping ws \<noteq> [] \<or> t \<noteq> None"
  shows "\<exists>ts R P w'. WaitSet_wait api t ws w = Some (Inr ts, w') \<and> set ts = triggered_of ` R \<and>
    R \<subseteq> {m \<in> set (ws_mapping ws). listener_of ws m \<in> P} \<and>
    (t = None \<longrightarrow> R = {m \<in> set (ws_mapping ws). listener_of ws m \<in> P}) \<and>
    pending (iox w) \<subseteq> P \<and> (t = Some 0 \<or> no_arrivals api waitset pending \<longrightarrow> P = pending (iox w)) \<and>
    pending (iox w') = P - listener_of ws ` R"
proof (cases "ws_mapping ws = [] \<and> zero_timeout t")
  case True
  then show ?thesis
    by (intro exI [of _ "[]"] exI [of _ "{}"] exI [of _ "pending (iox w)"] exI [of _ w])
      (auto simp: WaitSet_wait_def zero_timeout_def split: option.splits)
next
  case False
  have range: "mapping_in_range ws (ws_mapping ws)" using wf by (auto simp: waitset_wf_def mapping_in_range_def)
  obtain at w0 where w0: "(case t of Some d \<Rightarrow> attach_timeout api d ws w | None \<Rightarrow> Some (Inr (), None, w)) =
      Some (Inr (), at, w0)" "pending (iox w0) = pending (iox w)" "at = None \<longleftrightarrow> t = None"
    using attach_timeout_step [OF c ws] by metis
  obtain atts w1 where w1: "attach_mapped_listeners api ws (ws_mapping ws) [] w0 = Some (Inr (), atts, w1)"
    "attachments_of api ws (ws_mapping ws) attached (iox w0) atts (iox w1)" "pending (iox w1) = pending (iox w0)"
    using attach_mapped_listeners_all [OF c ws range, of "[]" w0] by auto
  from wait_once_reports [OF c, of t "iox w1"] obtain ids j where j: "wait_once api waitset t (iox w1) = (Inr ids, j)" "pending (iox w1) \<subseteq> pending j"
    "t = Some 0 \<or> no_arrivals api waitset pending \<longrightarrow> pending j = pending (iox w1)"
    "\<forall>g l. (g, Some l) \<in> attached (iox w1) \<longrightarrow> l \<in> pending j \<longrightarrow> attachment_from_guard api g \<in> set ids"
    "\<forall>x \<in> set ids. \<exists>g a. x = attachment_from_guard api g \<and> (g, a) \<in> attached (iox w1) \<and> set_option a \<subseteq> pending j"
    by (elim exE conjE) (rule that; assumption)
  let ?t = "map_option (attachment_from_guard api) at" and ?done = "handled (map_option (attachment_from_guard api) at) atts ids"
  have ms: "map att_mapping atts = ws_mapping ws" using w1(2) by (simp add: attachments_of_def)
  with range have "mapping_in_range ws (map att_mapping atts)" by simp
  then obtain w2 where w2: "process_events api ws ?t atts ids [] (w1\<lparr>iox := j\<rparr>) =
      (map (triggered_of \<circ> att_mapping) ?done, w2)"
    "pending (iox w2) = pending j - (listener_of ws \<circ> att_mapping) ` set ?done"
    using process_events_handles [OF c, of ws atts ?t ids "[]" "w1\<lparr>iox := j\<rparr>"] by auto
  note reported = attachments_of_reported [OF c w1(2) _ j(4,5)] and dist = attachments_of_distinct [OF c w1(2)]
  let ?R = "att_mapping ` set ?done" and ?P = "{m \<in> set (ws_mapping ws). listener_of ws m \<in> pending j}"
  have sub: "a \<in> set atts \<and> att_mapping a \<in> ?P" if "a \<in> set ?done" for a
  proof -
    have "a \<in> set atts" "att_id a \<in> set ids" using handled_sound [OF that] by blast+
    moreover have "att_mapping a \<in> set (ws_mapping ws)" using calculation(1) ms by (metis image_eqI set_map)
    ultimately show ?thesis using reported by simp
  qed
  then have "?R \<subseteq> ?P" by blast
  moreover have "?P \<subseteq> ?R" if "t = None"
  proof
    fix m assume "m \<in> ?P"
    then obtain a where a: "a \<in> set atts" "att_mapping a = m" "listener_of ws m \<in> pending j" by (auto simp flip: ms)
    have "a \<in> set (handled None atts ids)" by (rule handled_complete [OF dist a(1)]) (use a reported in simp)
    with a(2) w0(3) that show "m \<in> ?R" by auto
  qed
  moreover have "WaitSet_wait api t ws w =
      Some (Inr (map (triggered_of \<circ> att_mapping) ?done), run_iox (wait_context_dtor api atts at) w2)"
    using False ne w0(1) w1(1) j(1) w2(1) ws
    by (auto simp: WaitSet_wait_def no_timeout_def call_def Let_def)
  ultimately show ?thesis
    using w0(2) w1(3) j(2,3) w2(2) wait_context_dtor_pending [OF c]
    by (intro exI [of _ "map (triggered_of \<circ> att_mapping) ?done"] exI [of _ ?R] exI [of _ "pending j"]
        exI [of _ "run_iox (wait_context_dtor api atts at) w2"]) (auto simp: image_image)
qed

end
