(* ===== verification/Rmw_Waitset.thy ===== *)
theory Rmw_Waitset
  imports Rmw_Guard_Condition Waitset_Correct Ordered_Set
begin

text \<open>
  \<open>rmw/waitset.cpp\<close>: creating and destroying wait sets, and \<open>rmw_wait\<close>, which maps the guard
  conditions and subscribers of its argument arrays by their position, waits, and replaces the
  entries that were not triggered by null.
\<close>

section \<open>Creation and destruction\<close>

definition rmw_create_wait_set ::
  "'i iox2 \<Rightarrow> 'm ros_env \<Rightarrow> ptr \<Rightarrow> nat \<Rightarrow> ('i, 'm) world \<Rightarrow> (ptr \<times> ('i, 'm) world) option" where
  "rmw_create_wait_set api env rmw_context max_conditions w =
     ensure_not_null rmw_context ''rmw_context'' nullptr w (do {
       ctx \<leftarrow> load as_context rmw_context w;
       ensure_not_null (rc_impl ctx) ''rmw_context->impl'' nullptr w (
       ensure_implementation (rc_identifier ctx) ''rmw_context->implementation_identifier'' nullptr w (
         case rmw_allocate env (\<lambda>g. WaitSetHandle
                \<lparr>rw_identifier = rmw_get_implementation_identifier, rw_data = g\<rparr>) w of
           (rmw_wait_set, w) \<Rightarrow>
             if rmw_wait_set = nullptr
             then fail nullptr ''failed to allocate memory for waitset handle'' w
             else
               create_impl env WS_INVARIANT_VIOLATION WaitSetObj as_waitset_impl (WaitSet_dtor api)
                 (WaitSet_ctor api (rc_impl ctx)) (rmw_free rmw_wait_set)
                 (\<lambda>waitset_impl w. do {
                    handle \<leftarrow> load as_wait_set rmw_wait_set w;
                    w \<leftarrow> store WaitSetHandle rmw_wait_set (handle\<lparr>rw_data := waitset_impl\<rparr>) w;
                    Some (rmw_wait_set, w) })
                 ''failed to allocate memory for WaitSet'' ''failed to construct WaitSet'' w)) })"

text \<open>The handle itself is not freed.\<close>

definition rmw_destroy_wait_set ::
  "'i iox2 \<Rightarrow> ptr \<Rightarrow> ('i, 'm) world \<Rightarrow> (rmw_ret \<times> ('i, 'm) world) option" where
  "rmw_destroy_wait_set api rmw_wait_set w =
     ensure_not_null rmw_wait_set ''rmw_wait_set'' RMW_RET_INVALID_ARGUMENT w (do {
       handle \<leftarrow> load as_wait_set rmw_wait_set w;
       ensure_implementation (rw_identifier handle) ''rmw_wait_set->implementation_identifier''
         RMW_RET_INCORRECT_RMW_IMPLEMENTATION w (do {
           w \<leftarrow> (if rw_data handle \<noteq> nullptr
                 then do {
                   w \<leftarrow> destruct as_waitset_impl (WaitSet_dtor api) (rw_data handle) w;
                   w \<leftarrow> deallocate (rw_data handle) w;
                   store WaitSetHandle rmw_wait_set (handle\<lparr>rw_data := nullptr\<rparr>) w }
                 else Some w);
           Some (RMW_RET_OK, w) }) })"

section \<open>Waiting\<close>

text \<open>
  The arrays of \<open>rmw_wait\<close>, \<open>None\<close> for a null argument. An element is the address of an
  implementation object.
\<close>

record wait_args =
  wa_subscriptions :: "ptr list option"
  wa_guard_conditions :: "ptr list option"
  wa_services :: "ptr list option"
  wa_clients :: "ptr list option"
  wa_events :: "ptr list option"

definition contains_null :: "ptr list option \<Rightarrow> bool" where
  "contains_null a = (case a of None \<Rightarrow> False | Some ps \<Rightarrow> list_ex (\<lambda>p. p = nullptr) ps)"

text \<open>
  The two mapping loops, from position \<open>index\<close> on. The result is the return code of an early return,
  if there is one. \<open>waitset\<close> is the address of the wait set's object.
\<close>

fun map_guard_conditions ::
  "'i iox2 \<Rightarrow> ptr \<Rightarrow> nat \<Rightarrow> ptr list \<Rightarrow> ('i, 'm) world \<Rightarrow> (rmw_ret option \<times> ('i, 'm) world) option" where
  "map_guard_conditions api waitset index [] w = Some (None, w)"
| "map_guard_conditions api waitset index (p # ps) w =
     (case unsafe_cast p w of
        (Inl _, w) \<Rightarrow> fail (Some RMW_RET_ERROR) ''failed to retrieve GuardCondition'' w
      | (Inr guard_condition, w) \<Rightarrow> do {
          g \<leftarrow> load_guard_condition guard_condition w;
          ws \<leftarrow> load as_waitset_impl waitset w;
          (result, ws, w) \<leftarrow> WaitSet_map_guard_condition api
            (load as_context_impl (ws_context ws) w) index g ws w;
          w \<leftarrow> store WaitSetObj waitset ws w;
          case result of
            Inl _ \<Rightarrow> fail (Some RMW_RET_ERROR) ''failed to attach GuardCondition to WaitSet'' w
          | Inr _ \<Rightarrow> map_guard_conditions api waitset (Suc index) ps w })"

fun map_subscriptions ::
  "'i iox2 \<Rightarrow> ptr \<Rightarrow> nat \<Rightarrow> ptr list \<Rightarrow> ('i, 'm) world \<Rightarrow> (rmw_ret option \<times> ('i, 'm) world) option" where
  "map_subscriptions api waitset index [] w = Some (None, w)"
| "map_subscriptions api waitset index (p # ps) w =
     (case unsafe_cast p w of
        (Inl _, w) \<Rightarrow> fail (Some RMW_RET_ERROR) ''failed to retrieve Subscriber'' w
      | (Inr subscriber, w) \<Rightarrow> do {
          s \<leftarrow> load as_subscriber_impl subscriber w;
          ws \<leftarrow> load as_waitset_impl waitset w;
          (result, ws, w) \<leftarrow> WaitSet_map_subscriber api
            (load as_context_impl (ws_context ws) w) index s ws w;
          w \<leftarrow> store WaitSetObj waitset ws w;
          case result of
            Inl _ \<Rightarrow> fail (Some RMW_RET_ERROR) ''failed to attach Subscriber to WaitSet'' w
          | Inr _ \<Rightarrow> map_subscriptions api waitset (Suc index) ps w })"

text \<open>The sets of triggered indices, and the loops that null the other entries.\<close>

fun triggered_indices :: "waitable_entity \<Rightarrow> triggered_waitable list \<Rightarrow> nat list \<Rightarrow> nat list" where
  "triggered_indices k [] s = s"
| "triggered_indices k (t # ts) s =
     triggered_indices k ts (if trg_type t = k then set_emplace (trg_rmw_index t) s else s)"

fun null_untriggered :: "nat list \<Rightarrow> nat \<Rightarrow> ptr list \<Rightarrow> ptr list" where
  "null_untriggered triggered index [] = []"
| "null_untriggered triggered index (p # ps) =
     (if index \<notin> set triggered then nullptr else p) # null_untriggered triggered (Suc index) ps"

definition null_all :: "ptr list option \<Rightarrow> ptr list option" where
  "null_all a = map_option (map (\<lambda>_. nullptr)) a"

text \<open>The arrays after a wait that reported \<open>triggers\<close>.\<close>

definition process_triggers :: "triggered_waitable list \<Rightarrow> wait_args \<Rightarrow> rmw_ret \<times> wait_args" where
  "process_triggers triggers args =
     (let (code, args) =
        (if triggers \<noteq> []
         then
           let subs = triggered_indices SUBSCRIBER triggers [];
               guards = triggered_indices GUARD_CONDITION triggers []
           in (RMW_RET_OK,
               args\<lparr>wa_subscriptions := map_option (null_untriggered subs 0) (wa_subscriptions args),
                    wa_guard_conditions := map_option (null_untriggered guards 0) (wa_guard_conditions args)\<rparr>)
         else (RMW_RET_TIMEOUT, args)) in
      (code, args\<lparr>wa_events := null_all (wa_events args), wa_services := null_all (wa_services args),
                  wa_clients := null_all (wa_clients args)\<rparr>))"

text \<open>The last argument is \<open>wait_timeout\<close>: seconds and nanoseconds.\<close>

definition rmw_wait ::
  "'i iox2 \<Rightarrow> wait_args \<Rightarrow> ptr \<Rightarrow> (u64 \<times> u64) option \<Rightarrow> ('i, 'm) world \<Rightarrow>
   ((rmw_ret \<times> wait_args) \<times> ('i, 'm) world) option" where
  "rmw_wait api args rmw_wait_set wait_timeout w =
     ensure_not_null rmw_wait_set ''rmw_wait_set'' (RMW_RET_INVALID_ARGUMENT, args) w (do {
       handle \<leftarrow> load as_wait_set rmw_wait_set w;
       ensure_implementation (rw_identifier handle) ''rmw_wait_set->implementation_identifier''
         (RMW_RET_INCORRECT_RMW_IMPLEMENTATION, args) w (
         if contains_null (wa_guard_conditions args)
         then fail (RMW_RET_INVALID_ARGUMENT, args) ''waitset input guard condition contains nullptr'' w
         else if contains_null (wa_subscriptions args)
         then fail (RMW_RET_INVALID_ARGUMENT, args) ''waitset input subscriber contains nullptr'' w
         else
           let timeout = map_option (\<lambda>(sec, nsec). duration_add api (duration_from_seconds api sec)
                           (duration_from_nanoseconds api nsec)) wait_timeout in
           case unsafe_cast (rw_data handle) w of
             (Inl _, w) \<Rightarrow> fail (RMW_RET_ERROR, args) ''failed to retrieve WaitSet'' w
           | (Inr waitset, w) \<Rightarrow> do {
               (early, w) \<leftarrow> (case wa_guard_conditions args of
                  None \<Rightarrow> Some (None, w)
                | Some gs \<Rightarrow> map_guard_conditions api waitset 0 gs w);
               case early of Some code \<Rightarrow> Some ((code, args), w) | None \<Rightarrow> do {
                 (early, w) \<leftarrow> (case wa_subscriptions args of
                    None \<Rightarrow> Some (None, w)
                  | Some ss \<Rightarrow> map_subscriptions api waitset 0 ss w);
                 case early of Some code \<Rightarrow> Some ((code, args), w) | None \<Rightarrow> do {
                   ws \<leftarrow> load as_waitset_impl waitset w;
                   (wait_result, w) \<leftarrow> WaitSet_wait api timeout ws w;
                   case wait_result of
                     Inl _ \<Rightarrow> fail (RMW_RET_ERROR, args) ''waiting on waitset failed'' w
                   | Inr triggers \<Rightarrow> do {
                       w \<leftarrow> store WaitSetObj waitset (unmap_all ws) w;
                       Some (process_triggers triggers args, w) } } } }) })"

section \<open>Creation\<close>

lemma WaitSet_ctor_frame:
  "WaitSet_ctor api c w = Some ((ws, e), w') \<Longrightarrow>
   sys.more w' = sys.more w \<and> ws_context ws = c \<and> mapped ws = []"
  by (auto simp: WaitSet_ctor_def Let_def mapped_def dest!: call_more split: sum.splits prod.splits)

text \<open>
  Creating a wait set: null with the memory as it was and an error message, or a new handle with a
  new, well-formed object that refers to the context and has nothing mapped.
\<close>

lemma rmw_create_wait_set_simp:
  fixes w :: "('i, 'm) world"
  assumes "context_ready rmw_context c ctx w"
  shows "rmw_create_wait_set api env rmw_context n w =
    (case rmw_allocate env (\<lambda>g. WaitSetHandle \<lparr>rw_identifier = Iox2Ident, rw_data = g\<rparr>) w of
       (p, w) \<Rightarrow>
         if p = nullptr then fail nullptr ''failed to allocate memory for waitset handle'' w
         else create_impl env WS_INVARIANT_VIOLATION WaitSetObj as_waitset_impl (WaitSet_dtor api) (WaitSet_ctor api c)
           (rmw_free p) (handle_finish WaitSetHandle as_wait_set (\<lambda>q h. h\<lparr>rw_data := q\<rparr>) p)
           ''failed to allocate memory for WaitSet'' ''failed to construct WaitSet'' w)"
  unfolding handle_finish_fun using assms
  by (auto simp: rmw_create_wait_set_def context_ready_def ensure_ok load_def
      rmw_get_implementation_identifier_def)

lemma create_wait_set_cases:
  fixes w :: "('i, 'm) world"
  assumes "world_wf w" and ctx: "context_ready rmw_context c ctx w"
  obtains w' where "rmw_create_wait_set api env rmw_context n w = Some (nullptr, w')"
      "errmsg w' \<noteq> None" "heap w' = heap w" "world_wf w'"
  | p q ws w' where "rmw_create_wait_set api env rmw_context n w = Some (p, w')"
      "p \<noteq> nullptr" "q \<noteq> nullptr" "heap w p = None" "heap w q = None" "p \<noteq> q"
      "heap w' = (heap w)(q \<mapsto> WaitSetObj ws,
         p \<mapsto> WaitSetHandle \<lparr>rw_identifier = Iox2Ident, rw_data = q\<rparr>)"
      "waitset_wf ws" "ws_context ws = c" "mapped ws = []" "world_wf w'"
proof -
  let ?G = "\<lambda>g. WaitSetHandle \<lparr>rw_identifier = Iox2Ident, rw_data = g\<rparr>"
  note def = rmw_create_wait_set_simp [OF ctx, of api env n]
  show thesis
  proof (rule rmw_allocate_cases [OF assms(1), of env ?G])
    fix w1 assume "rmw_allocate env ?G w = (nullptr, w1)" "heap w1 = heap w" "world_wf w1"
    then show thesis
      by (intro that(1) [of "chain ''failed to allocate memory for waitset handle'' w1"]) (simp_all add: def fail_def)
  next
    fix p g w1
    assume p: "rmw_allocate env ?G w = (p, w1)" "p \<noteq> nullptr" "even p" "heap w p = None"
      "heap w1 = (heap w)(p \<mapsto> ?G g)" "world_wf w1"
    then have hp: "heap w1 p = Some (?G g)" by simp
    show thesis
    proof (rule waitset_obj.create_handle_plain_cases [OF wait_set.object_kind_axioms p(6) hp,
          where good = waitset_wf and ctor = "WaitSet_ctor api c" and env = env and invariant = WS_INVARIANT_VIOLATION
          and dtor = "WaitSet_dtor api" and set_data = "\<lambda>q h. h\<lparr>rw_data := q\<rparr>"
          and ?m1.0 = "''failed to allocate memory for WaitSet''" and ?m2.0 = "''failed to construct WaitSet''"],
        goal_cases)
      case (1 w2)
      show ?case by (rule WaitSet_ctor_ok)
    next
      case (2 w2 r w3)
      then show ?case by (cases r) (auto dest: WaitSet_ctor_frame)
    next
      case (3 w')
      with p show ?case by (intro that(1) [of w']) (simp_all add: def fun_upd_idem)
    next
      case (4 q ws w' w2 w3)
      have "heap w q = None" using 4(4) p(5) by (simp split: if_splits)
      with 4 p WaitSet_ctor_frame [OF 4(8)] show ?case
        by (intro that(2) [of p w' q ws]) (auto simp: def fun_eq_iff)
    qed
  qed
qed

lemma destroy_wait_set:
  fixes w :: "('i, 'm) world"
  assumes p: "heap w p = Some (WaitSetHandle h)" "p \<noteq> nullptr" "rw_identifier h = Iox2Ident"
    and q: "heap w (rw_data h) = Some (WaitSetObj ws)" "rw_data h \<noteq> nullptr"
  shows "\<exists>w'. rmw_destroy_wait_set api p w = Some (RMW_RET_OK, w') \<and>
    heap w' = (heap w)(rw_data h := None, p \<mapsto> WaitSetHandle (h\<lparr>rw_data := nullptr\<rparr>)) \<and>
    iox w' = WaitSet_dtor api ws (iox w) \<and> errmsg w' = errmsg w"
proof -
  have "rw_data h \<noteq> p" using p(1) q(1) by auto
  with assms show ?thesis
    by (simp add: rmw_destroy_wait_set_def ensure_ok load_def destruct_def deallocate_def
        rmw_free_def store_def run_iox_def)
qed

section \<open>The arrays\<close>

lemma set_triggered_indices:
  "set (triggered_indices k ts s) = set s \<union> {trg_rmw_index t |t. t \<in> set ts \<and> trg_type t = k}"
  by (induction ts arbitrary: s) auto

lemma length_null_untriggered [simp]: "length (null_untriggered t i ps) = length ps"
  by (induction ps arbitrary: i) auto

lemma nth_null_untriggered:
  "j < length ps \<Longrightarrow> null_untriggered t i ps ! j = (if i + j \<in> set t then ps ! j else nullptr)"
proof (induction ps arbitrary: i j)
  case Nil
  then show ?case by simp
next
  case (Cons p ps)
  then show ?case by (cases j) auto
qed

section \<open>Properties\<close>

text \<open>C31. \<open>rmw_create_wait_set\<close> on an initialised context returns. Null comes with an error message and
  leaves the memory exactly as it was, whichever step failed; otherwise there is a new handle of this
  implementation with a new, well-formed object that refers to the context and has nothing mapped,
  and nothing else changed.\<close>
theorem wait_set_creation:
  fixes w :: "('i, 'm) world"
  assumes "world_wf w" and "context_ready rmw_context c ctx w"
  shows "\<exists>p w'. rmw_create_wait_set api env rmw_context n w = Some (p, w') \<and> world_wf w' \<and>
    (if p = nullptr then errmsg w' \<noteq> None \<and> heap w' = heap w
     else \<exists>q ws. heap w p = None \<and> heap w q = None \<and> p \<noteq> q \<and> waitset_wf ws \<and> ws_context ws = c \<and>
       mapped ws = [] \<and>
       heap w' = (heap w)(q \<mapsto> WaitSetObj ws, p \<mapsto> WaitSetHandle \<lparr>rw_identifier = Iox2Ident, rw_data = q\<rparr>))"
  by (rule create_wait_set_cases [OF assms, of api env n]) fastforce+

text \<open>In a process with a context.\<close>
theorem wait_set_creation_witness:
  "\<exists>p w'. rmw_create_wait_set sim_api sim_env 2 0 sim_world = Some (p, w') \<and> world_wf w'"
  using wait_set_creation [OF sim_world_wf sim_context_ready, of sim_api sim_env 0] by blast

text \<open>Destroying a wait set runs the destructor of its object and frees the object's memory, but not
  that of the handle: it stays allocated, with its data pointer nulled, so a second call is harmless
  and nothing ever frees the handle.\<close>
lemma wait_set_destruction_keeps_handle:
  fixes w :: "('i, 'm) world"
  assumes "heap w p = Some (WaitSetHandle h)" and "p \<noteq> nullptr" and "rw_identifier h = Iox2Ident"
    and "heap w (rw_data h) = Some (WaitSetObj ws)" and "rw_data h \<noteq> nullptr"
  shows "\<exists>w'. rmw_destroy_wait_set api p w = Some (RMW_RET_OK, w') \<and>
    heap w' = (heap w)(rw_data h := None, p \<mapsto> WaitSetHandle (h\<lparr>rw_data := nullptr\<rparr>)) \<and>
    iox w' = WaitSet_dtor api ws (iox w) \<and>
    rmw_destroy_wait_set api p w' = Some (RMW_RET_OK, w')"
proof -
  from destroy_wait_set [OF assms, of api] obtain w' where
    d: "rmw_destroy_wait_set api p w = Some (RMW_RET_OK, w')"
      "heap w' = (heap w)(rw_data h := None, p \<mapsto> WaitSetHandle (h\<lparr>rw_data := nullptr\<rparr>))"
      "iox w' = WaitSet_dtor api ws (iox w)" by blast
  have "rmw_destroy_wait_set api p w' = Some (RMW_RET_OK, w')"
    using assms(2,3) d(2) by (simp add: rmw_destroy_wait_set_def ensure_ok load_def)
  with d show ?thesis by blast
qed

text \<open>The wait set at 14.\<close>
lemma wait_set_destruction_keeps_handle_witness:
  "\<exists>w'. rmw_destroy_wait_set sim_api 14 sim_world = Some (RMW_RET_OK, w') \<and> heap w' 16 = None \<and> heap w' 14 \<noteq> None"
proof -
  have "heap sim_world 14 = Some (WaitSetHandle \<lparr>rw_identifier = Iox2Ident, rw_data = 16\<rparr>)"
    and "heap sim_world 16 = Some (WaitSetObj (unmap_all sim_waitset))"
    by (simp_all add: sim_world_def)
  from wait_set_destruction_keeps_handle [OF this(1) _ _ _ _, of "unmap_all sim_waitset" sim_api] this(2)
  show ?thesis by auto
qed

end
