(* ===== verification/Rmw_Wait_Correct.thy ===== *)
theory Rmw_Wait_Correct
  imports Rmw_Waitset
begin

text \<open>
  Correctness of \<open>rmw_wait\<close>: with a ready wait set and entities that exist, it returns, gives back a
  well-formed wait set, and changes the arrays only as its protocol says: the entries that survive
  are mapped entries, each the first in its array for its service.
\<close>

section \<open>What a call asks for\<close>

text \<open>Mapping an array of services, from a position on, as an abstract operation.\<close>

fun abs_map_all ::
  "waitable_entity \<Rightarrow> nat \<Rightarrow> string list \<Rightarrow> (waitable_entity \<times> string \<times> nat) list \<Rightarrow>
   (waitable_entity \<times> string \<times> nat) list" where
  "abs_map_all k i [] entries = entries"
| "abs_map_all k i (s # ss) entries = abs_map_all k (Suc i) ss (abs_map k s i entries)"

text \<open>The context of the wait set at \<open>q\<close>, and the entities an array may hold.\<close>

definition wait_context_of :: "waitset_impl \<Rightarrow> ('i, 'm) world \<Rightarrow> rmw_context_impl option" where
  "wait_context_of ws w = load as_context_impl (ws_context ws) w"

definition guard_service :: "('i, 'm) world \<Rightarrow> ptr \<Rightarrow> string option" where
  "guard_service w p = map_option gc_service_name (load_guard_condition p w)"

definition subscriber_service :: "('i, 'm) world \<Rightarrow> ptr \<Rightarrow> string option" where
  "subscriber_service w p = map_option sub_service_name (load as_subscriber_impl p w)"

lemma service_Some:
  "guard_service w p = Some s \<longleftrightarrow> (\<exists>g. load_guard_condition p w = Some g \<and> gc_service_name g = s)"
  "subscriber_service w p = Some s \<longleftrightarrow> (\<exists>b. load as_subscriber_impl p w = Some b \<and> sub_service_name b = s)"
  by (auto simp: guard_service_def subscriber_service_def)

text \<open>All entries of an array exist, and a listener can be made for each.\<close>

definition entities_ready ::
  "'i iox2 \<Rightarrow> rmw_context_impl option \<Rightarrow> (ptr \<Rightarrow> string option) \<Rightarrow> ptr list \<Rightarrow> string list \<Rightarrow> bool" where
  "entities_ready api ctx service ps ss \<longleftrightarrow>
     map service ps = map Some ss \<and> nullptr \<notin> set ps \<and> (\<forall>s \<in> set ss. context_for api ctx s)"

lemma entities_ready_simps [simp]:
  "entities_ready api ctx service [] ss \<longleftrightarrow> ss = []"
  "entities_ready api ctx service (p # ps) ss \<longleftrightarrow>
     (\<exists>s ss'. ss = s # ss' \<and> service p = Some s \<and> p \<noteq> nullptr \<and> context_for api ctx s \<and>
        entities_ready api ctx service ps ss')"
  by (auto simp: entities_ready_def Cons_eq_map_conv map_eq_Cons_conv)

section \<open>The wait set's object changes, nothing else does\<close>

lemma load_other:
  fixes w w' :: "('i, 'm) world"
  assumes "heap w' = (heap w)(q \<mapsto> WaitSetObj ws')" and "heap w q = Some (WaitSetObj ws)"
  shows "load_guard_condition p w' = load_guard_condition p w"
    and "load as_subscriber_impl p w' = load as_subscriber_impl p w"
    and "load as_context_impl p w' = load as_context_impl p w"
  using assms by (auto simp: load_guard_condition_def load_def)

lemma services_other:
  fixes w w' :: "('i, 'm) world"
  assumes "heap w' = (heap w)(q \<mapsto> WaitSetObj ws')" and "heap w q = Some (WaitSetObj ws)"
  shows "guard_service w' = guard_service w" and "subscriber_service w' = subscriber_service w"
  by (simp_all add: fun_eq_iff guard_service_def subscriber_service_def load_other [OF assms])

text \<open>One mapping, in memory.\<close>

definition mapped_in :: "ptr \<Rightarrow> waitset_impl \<Rightarrow> ('i, 'm) world \<Rightarrow> bool" where
  "mapped_in q ws w \<longleftrightarrow> heap w q = Some (WaitSetObj ws) \<and> waitset_wf ws"

lemma WaitSet_map_in_memory:
  fixes w :: "('i, 'm) world"
  assumes q: "mapped_in q ws w" and s: "context_for api (wait_context_of ws w) s"
  obtains e ws' w1 w' where "WaitSet_map api (load as_context_impl (ws_context ws) w) k i s ws w
        = Some (Inl e, ws', w1)" "store WaitSetObj q ws' w1 = Some w'" "mapped_in q ws' w'"
      "heap w' = (heap w)(q \<mapsto> WaitSetObj ws')" "mapped ws' = mapped ws" "ws_context ws' = ws_context ws"
  | ws' w1 w' where "WaitSet_map api (load as_context_impl (ws_context ws) w) k i s ws w
        = Some (Inr (), ws', w1)" "store WaitSetObj q ws' w1 = Some w'" "mapped_in q ws' w'"
      "heap w' = (heap w)(q \<mapsto> WaitSetObj ws')" "mapped ws' = abs_map k s i (mapped ws)"
      "ws_context ws' = ws_context ws"
proof -
  from q have h: "heap w q = Some (WaitSetObj ws)" and wf: "waitset_wf ws" by (simp_all add: mapped_in_def)
  obtain r ws' w1 where m: "WaitSet_map api (load as_context_impl (ws_context ws) w) k i s ws w = Some (r, ws', w1)"
    using WaitSet_map_returns [of api _ s k ws i w] s by (fastforce simp: wait_context_of_def)
  have "heap w1 = heap w" using world_more [OF WaitSet_map_frame(1) [OF m]] by simp
  then have st: "store WaitSetObj q ws' w1 = Some (w1\<lparr>heap := (heap w)(q \<mapsto> WaitSetObj ws')\<rparr>)"
    using h by (simp add: store_def)
  have wf': "waitset_wf ws'" by (rule WaitSet_map_wf [OF wf m])
  note frame = WaitSet_map_frame(3) [OF m] and ref = WaitSet_map_refines [OF wf m]
  show thesis
  proof (cases r)
    case (Inl e)
    with m st wf' frame ref show thesis
      by (intro that(1) [of e ws' w1 "w1\<lparr>heap := (heap w)(q \<mapsto> WaitSetObj ws')\<rparr>"]) (auto simp: mapped_in_def)
  next
    case (Inr u)
    with m st wf' frame ref show thesis
      by (intro that(2) [of ws' w1 "w1\<lparr>heap := (heap w)(q \<mapsto> WaitSetObj ws')\<rparr>"]) (auto simp: mapped_in_def)
  qed
qed

section \<open>The loops\<close>

text \<open>What a mapping loop comes to: it goes on with everything mapped, or returns an error.\<close>

definition mapping_done ::
  "ptr \<Rightarrow> waitset_impl \<Rightarrow> ('i, 'm) world \<Rightarrow> (waitable_entity \<times> string \<times> nat) list \<Rightarrow>
   rmw_ret option \<Rightarrow> ('i, 'm) world \<Rightarrow> bool" where
  "mapping_done q ws w entries early w' \<longleftrightarrow>
     (\<exists>ws'. heap w' = (heap w)(q \<mapsto> WaitSetObj ws') \<and> waitset_wf ws' \<and> ws_context ws' = ws_context ws \<and>
        (early = None \<and> mapped ws' = entries \<or> early = Some RMW_RET_ERROR \<and> errmsg w' \<noteq> None))"

lemma map_guard_conditions_done:
  fixes w :: "('i, 'm) world"
  assumes "mapped_in q ws w"
    and "entities_ready api (wait_context_of ws w) (guard_service w) ps ss"
  shows "\<exists>early w'. map_guard_conditions api q i ps w = Some (early, w') \<and>
    mapping_done q ws w (abs_map_all GUARD_CONDITION i ss (mapped ws)) early w'"
  using assms
proof (induction ps arbitrary: ss i ws w)
  case Nil
  then show ?case by (auto simp: mapping_done_def mapped_in_def fun_upd_idem intro!: exI [of _ ws])
next
  case (Cons p ps)
  from Cons.prems obtain s ss' g where p: "ss = s # ss'" "p \<noteq> nullptr" "load_guard_condition p w = Some g"
    "gc_service_name g = s" "context_for api (wait_context_of ws w) s"
    and rest: "entities_ready api (wait_context_of ws w) (guard_service w) ps ss'"
    by (auto simp: service_Some)
  have ld: "load as_waitset_impl q w = Some ws"
    using Cons.prems(1) by (simp add: mapped_in_def waitset_obj.load_iff)
  show ?case
  proof (rule WaitSet_map_in_memory [OF Cons.prems(1) p(5), of GUARD_CONDITION i])
    fix e ws' w1 w'
    assume "WaitSet_map api (load as_context_impl (ws_context ws) w) GUARD_CONDITION i s ws w = Some (Inl e, ws', w1)"
      "store WaitSetObj q ws' w1 = Some w'" "mapped_in q ws' w'" "heap w' = (heap w)(q \<mapsto> WaitSetObj ws')"
      "mapped ws' = mapped ws" "ws_context ws' = ws_context ws"
    then show ?thesis
      using p ld
      by (auto simp: unsafe_cast_def WaitSet_map_guard_condition_def fail_def mapping_done_def mapped_in_def)
  next
    fix ws' w1 w'
    assume m: "WaitSet_map api (load as_context_impl (ws_context ws) w) GUARD_CONDITION i s ws w = Some (Inr (), ws', w1)"
      "store WaitSetObj q ws' w1 = Some w'" "mapped_in q ws' w'" "heap w' = (heap w)(q \<mapsto> WaitSetObj ws')"
      "mapped ws' = abs_map GUARD_CONDITION s i (mapped ws)" "ws_context ws' = ws_context ws"
    have q: "heap w q = Some (WaitSetObj ws)" using Cons.prems(1) by (simp add: mapped_in_def)
    have "entities_ready api (wait_context_of ws' w') (guard_service w') ps ss'"
      using rest m(6) load_other(3) [OF m(4) q] services_other(1) [OF m(4) q] by (simp add: wait_context_of_def)
    from Cons.IH [OF m(3) this, of "Suc i"] m p ld show ?thesis
      by (auto simp: unsafe_cast_def WaitSet_map_guard_condition_def mapping_done_def)
  qed
qed

lemma map_subscriptions_done:
  fixes w :: "('i, 'm) world"
  assumes "mapped_in q ws w"
    and "entities_ready api (wait_context_of ws w) (subscriber_service w) ps ss"
  shows "\<exists>early w'. map_subscriptions api q i ps w = Some (early, w') \<and>
    mapping_done q ws w (abs_map_all SUBSCRIBER i ss (mapped ws)) early w'"
  using assms
proof (induction ps arbitrary: ss i ws w)
  case Nil
  then show ?case by (auto simp: mapping_done_def mapped_in_def fun_upd_idem intro!: exI [of _ ws])
next
  case (Cons p ps)
  from Cons.prems obtain s ss' sub where p: "ss = s # ss'" "p \<noteq> nullptr" "load as_subscriber_impl p w = Some sub"
    "sub_service_name sub = s" "context_for api (wait_context_of ws w) s"
    and rest: "entities_ready api (wait_context_of ws w) (subscriber_service w) ps ss'"
    by (auto simp: service_Some)
  have ld: "load as_waitset_impl q w = Some ws"
    using Cons.prems(1) by (simp add: mapped_in_def waitset_obj.load_iff)
  show ?case
  proof (rule WaitSet_map_in_memory [OF Cons.prems(1) p(5), of SUBSCRIBER i])
    fix e ws' w1 w'
    assume "WaitSet_map api (load as_context_impl (ws_context ws) w) SUBSCRIBER i s ws w = Some (Inl e, ws', w1)"
      "store WaitSetObj q ws' w1 = Some w'" "mapped_in q ws' w'" "heap w' = (heap w)(q \<mapsto> WaitSetObj ws')"
      "mapped ws' = mapped ws" "ws_context ws' = ws_context ws"
    then show ?thesis
      using p ld
      by (auto simp: unsafe_cast_def WaitSet_map_subscriber_def fail_def mapping_done_def mapped_in_def)
  next
    fix ws' w1 w'
    assume m: "WaitSet_map api (load as_context_impl (ws_context ws) w) SUBSCRIBER i s ws w = Some (Inr (), ws', w1)"
      "store WaitSetObj q ws' w1 = Some w'" "mapped_in q ws' w'" "heap w' = (heap w)(q \<mapsto> WaitSetObj ws')"
      "mapped ws' = abs_map SUBSCRIBER s i (mapped ws)" "ws_context ws' = ws_context ws"
    have q: "heap w q = Some (WaitSetObj ws)" using Cons.prems(1) by (simp add: mapped_in_def)
    have "entities_ready api (wait_context_of ws' w') (subscriber_service w') ps ss'"
      using rest m(6) load_other(3) [OF m(4) q] services_other(2) [OF m(4) q] by (simp add: wait_context_of_def)
    from Cons.IH [OF m(3) this, of "Suc i"] m p ld show ?thesis
      by (auto simp: unsafe_cast_def WaitSet_map_subscriber_def mapping_done_def)
  qed
qed

section \<open>The call\<close>

definition the_array :: "ptr list option \<Rightarrow> ptr list" where
  "the_array a = (case a of None \<Rightarrow> [] | Some ps \<Rightarrow> ps)"

text \<open>
  A wait set handle \<open>p\<close> whose object, at \<open>q\<close>, is \<open>ws\<close>, and arrays of entities that exist, with the
  services \<open>gs\<close> and \<open>ss\<close>.
\<close>

definition wait_set_ready :: "ptr \<Rightarrow> ptr \<Rightarrow> waitset_impl \<Rightarrow> ('i, 'm) world \<Rightarrow> bool" where
  "wait_set_ready p q ws w \<longleftrightarrow>
     p \<noteq> nullptr \<and> q \<noteq> nullptr \<and>
     heap w p = Some (WaitSetHandle \<lparr>rw_identifier = Iox2Ident, rw_data = q\<rparr>) \<and>
     heap w q = Some (WaitSetObj ws) \<and> waitset_wf ws"

definition args_ready ::
  "'i iox2 \<Rightarrow> waitset_impl \<Rightarrow> ('i, 'm) world \<Rightarrow> wait_args \<Rightarrow> string list \<Rightarrow> string list \<Rightarrow> bool" where
  "args_ready api ws w args gs ss \<longleftrightarrow>
     entities_ready api (wait_context_of ws w) (guard_service w) (the_array (wa_guard_conditions args)) gs \<and>
     entities_ready api (wait_context_of ws w) (subscriber_service w) (the_array (wa_subscriptions args)) ss"

text \<open>The entries a call with these services stages, in an empty mapping.\<close>

definition staged :: "string list \<Rightarrow> string list \<Rightarrow> (waitable_entity \<times> string \<times> nat) list" where
  "staged gs ss = abs_map_all SUBSCRIBER 0 ss (abs_map_all GUARD_CONDITION 0 gs [])"

text \<open>What a call may come to.\<close>

definition wait_result ::
  "wait_args \<Rightarrow> string list \<Rightarrow> string list \<Rightarrow> rmw_ret \<Rightarrow> wait_args \<Rightarrow> waitset_impl \<Rightarrow> bool \<Rightarrow> bool" where
  "wait_result args gs ss code args' ws' message \<longleftrightarrow>
     code = RMW_RET_ERROR \<and> args' = args \<and> message \<or>
     ws_mapping ws' = [] \<and>
       (\<exists>ts. (code, args') = process_triggers ts args \<and>
         (\<forall>t \<in> set ts. \<exists>s. (trg_type t, s, trg_rmw_index t) \<in> set (staged gs ss)))"

lemma contains_null_iff: "contains_null a \<longleftrightarrow> nullptr \<in> set (the_array a)"
  by (auto simp: contains_null_def the_array_def list_ex_iff split: option.split)

lemma mapping_step_guards:
  fixes w :: "('i, 'm) world"
  assumes "mapped_in q ws w"
    and "entities_ready api (wait_context_of ws w) (guard_service w) (the_array a) gs"
  shows "\<exists>early w'. (case a of None \<Rightarrow> Some (None, w) | Some ps \<Rightarrow> map_guard_conditions api q 0 ps w)
      = Some (early, w') \<and>
    mapping_done q ws w (abs_map_all GUARD_CONDITION 0 gs (mapped ws)) early w'"
  using map_guard_conditions_done [OF assms, of 0] by (cases a) (auto simp: the_array_def)

lemma mapping_step_subscriptions:
  fixes w :: "('i, 'm) world"
  assumes "mapped_in q ws w"
    and "entities_ready api (wait_context_of ws w) (subscriber_service w) (the_array a) ss"
  shows "\<exists>early w'. (case a of None \<Rightarrow> Some (None, w) | Some ps \<Rightarrow> map_subscriptions api q 0 ps w)
      = Some (early, w') \<and>
    mapping_done q ws w (abs_map_all SUBSCRIBER 0 ss (mapped ws)) early w'"
  using map_subscriptions_done [OF assms, of 0] by (cases a) (auto simp: the_array_def)

lemma mapped_Nil: "mapped ws = [] \<longleftrightarrow> ws_mapping ws = []"
  by (simp add: mapped_def)

text \<open>The two phases of the call: everything is mapped, then the wait is made and its result processed.\<close>

definition timeout_of :: "'i iox2 \<Rightarrow> (u64 \<times> u64) option \<Rightarrow> nat option" where
  "timeout_of api t = map_option (\<lambda>(sec, nsec). duration_add api (duration_from_seconds api sec)
     (duration_from_nanoseconds api nsec)) t"

definition mapping_phase ::
  "'i iox2 \<Rightarrow> wait_args \<Rightarrow> ptr \<Rightarrow> ('i, 'm) world \<Rightarrow> (rmw_ret option \<times> ('i, 'm) world) option" where
  "mapping_phase api args q w = do {
     (early, w) \<leftarrow> (case wa_guard_conditions args of
        None \<Rightarrow> Some (None, w) | Some gs \<Rightarrow> map_guard_conditions api q 0 gs w);
     case early of Some code \<Rightarrow> Some (Some code, w)
     | None \<Rightarrow> (case wa_subscriptions args of
         None \<Rightarrow> Some (None, w) | Some ss \<Rightarrow> map_subscriptions api q 0 ss w) }"

definition wait_phase ::
  "'i iox2 \<Rightarrow> wait_args \<Rightarrow> ptr \<Rightarrow> nat option \<Rightarrow> ('i, 'm) world \<Rightarrow> ((rmw_ret \<times> wait_args) \<times> ('i, 'm) world) option" where
  "wait_phase api args q timeout w = do {
     ws \<leftarrow> load as_waitset_impl q w;
     (wait_result, w) \<leftarrow> WaitSet_wait api timeout ws w;
     case wait_result of
       Inl _ \<Rightarrow> fail (RMW_RET_ERROR, args) ''waiting on waitset failed'' w
     | Inr triggers \<Rightarrow> do {
         w \<leftarrow> store WaitSetObj q (unmap_all ws) w;
         Some (process_triggers triggers args, w) } }"

lemma rmw_wait_phases:
  fixes w :: "('i, 'm) world"
  assumes p: "wait_set_ready p q ws w" and a: "args_ready api ws w args gs ss"
    and m: "mapping_phase api args q w = Some (early, w')"
  shows "rmw_wait api args p t w =
    (case early of Some code \<Rightarrow> Some ((code, args), w') | None \<Rightarrow> wait_phase api args q (timeout_of api t) w')"
proof -
  from p have h: "load as_wait_set p w = Some \<lparr>rw_identifier = Iox2Ident, rw_data = q\<rparr>" and nn: "p \<noteq> nullptr" "q \<noteq> nullptr"
    by (simp_all add: wait_set_ready_def load_def)
  have no_null: "\<not> contains_null (wa_guard_conditions args)" "\<not> contains_null (wa_subscriptions args)"
    using a by (simp_all add: args_ready_def entities_ready_def contains_null_iff)
  note def = rmw_wait_def [of api args p t w, unfolded ensure_ok(1) [OF nn(1)] h Option.bind.bind_lunit
      rmw_wait_set.simps ensure_ok(2) [OF refl] if_not_P [OF no_null(1)] if_not_P [OF no_null(2)]
      unsafe_cast_def if_not_P [OF nn(2)] prod.case sum.case Let_def]
  from m show ?thesis
    by (auto simp: def mapping_phase_def wait_phase_def timeout_of_def split: Option.bind_splits option.splits prod.splits)
qed

lemma mapping_phase_done:
  fixes w :: "('i, 'm) world"
  assumes p: "wait_set_ready p q ws w" and empty: "ws_mapping ws = []" and a: "args_ready api ws w args gs ss"
  shows "\<exists>early w'. mapping_phase api args q w = Some (early, w') \<and> mapping_done q ws w (staged gs ss) early w'"
proof -
  have q: "mapped_in q ws w" and q0: "heap w q = Some (WaitSetObj ws)"
    using p by (simp_all add: wait_set_ready_def mapped_in_def)
  obtain early1 w1 where m1: "(case wa_guard_conditions args of None \<Rightarrow> Some (None, w)
      | Some ps \<Rightarrow> map_guard_conditions api q 0 ps w) = Some (early1, w1)"
    "mapping_done q ws w (abs_map_all GUARD_CONDITION 0 gs (mapped ws)) early1 w1"
    using mapping_step_guards [OF q, of api "wa_guard_conditions args" gs] a by (auto simp: args_ready_def)
  then obtain ws1 where ws1: "heap w1 = (heap w)(q \<mapsto> WaitSetObj ws1)" "waitset_wf ws1"
    "ws_context ws1 = ws_context ws" "early1 = None \<and> mapped ws1 = abs_map_all GUARD_CONDITION 0 gs [] \<or>
      early1 = Some RMW_RET_ERROR \<and> errmsg w1 \<noteq> None"
    using empty by (auto simp: mapping_done_def mapped_Nil [THEN iffD2])
  show ?thesis
  proof (cases early1)
    case (Some code)
    with ws1 m1(1) show ?thesis by (auto simp: mapping_phase_def mapping_done_def)
  next
    case None
    have q1: "mapped_in q ws1 w1" using ws1 by (simp add: mapped_in_def)
    have "entities_ready api (wait_context_of ws1 w1) (subscriber_service w1) (the_array (wa_subscriptions args)) ss"
      using a ws1(3) load_other(3) [OF ws1(1) q0] services_other(2) [OF ws1(1) q0]
      by (simp add: args_ready_def wait_context_of_def)
    from mapping_step_subscriptions [OF q1 this] None ws1 m1(1) show ?thesis
      by (auto simp: mapping_phase_def mapping_done_def staged_def)
  qed
qed

lemma wait_phase_outcome:
  fixes w :: "('i, 'm) world"
  assumes q: "mapped_in q ws w" and staged: "mapped ws = staged gs ss"
  shows "\<exists>code args' ws' w'. wait_phase api args q timeout w = Some ((code, args'), w') \<and>
    heap w' = (heap w)(q \<mapsto> WaitSetObj ws') \<and> waitset_wf ws' \<and>
    wait_result args gs ss code args' ws' (errmsg w' \<noteq> None)"
proof -
  have ld: "load as_waitset_impl q w = Some ws" and wf: "waitset_wf ws" and h: "heap w q = Some (WaitSetObj ws)"
    using q by (simp_all add: mapped_in_def load_def)
  from wf obtain waitset where "ws_waitset ws = Some waitset" by (auto simp: waitset_wf_def)
  from WaitSet_wait_correct [OF wf this] obtain r w3 waitset where
    wt: "WaitSet_wait api timeout ws w = Some (r, w3)" "wait_outcome api waitset timeout ws (iox w) = r" by blast
  have h3: "heap w3 = heap w" using world_more [OF WaitSet_wait_more [OF wt(1)]] by simp
  show ?thesis
  proof (cases r)
    case (Inl e)
    with ld wt(1) h3 h wf show ?thesis
      by (auto simp: wait_phase_def wait_result_def fail_def fun_upd_idem intro!: exI [of _ ws])
  next
    case (Inr ts)
    have reported: "\<forall>t \<in> set ts. \<exists>s. (trg_type t, s, trg_rmw_index t) \<in> set (staged gs ss)"
      using wait_outcome_mapped [OF wt(2) [unfolded Inr]] staged by simp
    obtain code args' where pt: "process_triggers ts args = (code, args')" by fastforce
    have "wait_phase api args q timeout w = Some ((code, args'), w3\<lparr>heap := (heap w)(q \<mapsto> WaitSetObj (unmap_all ws))\<rparr>)"
      using ld wt(1) Inr pt h3 h by (simp add: wait_phase_def store_def)
    moreover have "wait_result args gs ss code args' (unmap_all ws) b" for b
      unfolding wait_result_def by (intro disjI2 conjI exI [of _ ts])
        (use pt reported in \<open>simp_all add: unmap_all_def\<close>)
    ultimately show ?thesis
      using unmap_all_wf [OF wf] by (intro exI [of _ code] exI [of _ args'] exI [of _ "unmap_all ws"]
          exI [of _ "w3\<lparr>heap := (heap w)(q \<mapsto> WaitSetObj (unmap_all ws))\<rparr>"] conjI) auto
  qed
qed

lemma rmw_wait_outcome:
  fixes w :: "('i, 'm) world"
  assumes p: "wait_set_ready p q ws w" and empty: "ws_mapping ws = []" and a: "args_ready api ws w args gs ss"
  shows "\<exists>code args' ws' w'. rmw_wait api args p t w = Some ((code, args'), w') \<and>
    heap w' = (heap w)(q \<mapsto> WaitSetObj ws') \<and> waitset_wf ws' \<and>
    wait_result args gs ss code args' ws' (errmsg w' \<noteq> None)"
proof -
  obtain early w1 ws1 where m: "mapping_phase api args q w = Some (early, w1)"
    and w1: "heap w1 = (heap w)(q \<mapsto> WaitSetObj ws1)" "waitset_wf ws1"
      "early = None \<and> mapped ws1 = staged gs ss \<or> early = Some RMW_RET_ERROR \<and> errmsg w1 \<noteq> None"
    using mapping_phase_done [OF assms] by (auto simp: mapping_done_def)
  note def = rmw_wait_phases [OF p a m, of t]
  show ?thesis
  proof (cases early)
    case (Some code)
    with w1 show ?thesis by (auto simp: def wait_result_def)
  next
    case None
    with w1 have "mapped_in q ws1 w1" "mapped ws1 = staged gs ss" by (simp_all add: mapped_in_def)
    from wait_phase_outcome [OF this, of api args "timeout_of api t"] w1(1) None show ?thesis by (auto simp: def)
  qed
qed

section \<open>The arrays after the call\<close>

definition is_first :: "string list \<Rightarrow> nat \<Rightarrow> string \<Rightarrow> bool" where
  "is_first ss i s \<longleftrightarrow> i < length ss \<and> ss ! i = s \<and> (\<forall>j < i. ss ! j \<noteq> s)"

lemma is_first_Cons:
  "is_first (s0 # ss) i s \<longleftrightarrow> (i = 0 \<and> s0 = s) \<or> (\<exists>j. i = Suc j \<and> s0 \<noteq> s \<and> is_first ss j s)"
  by (cases i) (auto simp: is_first_def less_Suc_eq_0_disj)

lemma abs_map_all_entry:
  "(k', s, i) \<in> set (abs_map_all k n ss es) \<Longrightarrow>
   (k', s, i) \<in> set es \<or>
   k' = k \<and> n \<le> i \<and> is_first ss (i - n) s \<and> (\<forall>e \<in> set es. \<not> (fst e = k \<and> fst (snd e) = s))"
proof (induction ss arbitrary: n es)
  case Nil
  then show ?case by simp
next
  case (Cons s0 ss)
  from Cons.IH [of "Suc n" "abs_map k s0 n es"] Cons.prems
  consider "(k', s, i) \<in> set (abs_map k s0 n es)"
    | "k' = k" "Suc n \<le> i" "is_first ss (i - Suc n) s"
      "\<forall>e \<in> set (abs_map k s0 n es). \<not> (fst e = k \<and> fst (snd e) = s)" by auto
  then show ?case
  proof cases
    case 1
    then show ?thesis by (fastforce simp: abs_map_def is_first_Cons split: if_splits)
  next
    case 2
    have "s0 \<noteq> s" using 2(4) by (auto simp: abs_map_def split: if_splits)
    moreover have "\<forall>e \<in> set es. \<not> (fst e = k \<and> fst (snd e) = s)"
      using 2(4) by (auto simp: abs_map_def split: if_splits)
    moreover have "i - n = Suc (i - Suc n)" using 2(2) by simp
    ultimately show ?thesis using 2 by (simp add: is_first_Cons)
  qed
qed

lemma staged_first:
  "(GUARD_CONDITION, s, i) \<in> set (staged gs ss) \<Longrightarrow> is_first gs i s"
  "(SUBSCRIBER, s, i) \<in> set (staged gs ss) \<Longrightarrow> is_first ss i s"
  unfolding staged_def by (auto dest!: abs_map_all_entry)

text \<open>
  One array before and after a call that found something: an entry stays or is nulled, and those
  that stay are the first of their service.
\<close>

definition filtered :: "string list \<Rightarrow> ptr list option \<Rightarrow> ptr list option \<Rightarrow> bool" where
  "filtered ss a a' \<longleftrightarrow>
     (a' = None \<longleftrightarrow> a = None) \<and> length (the_array a') = length (the_array a) \<and>
     (\<forall>j < length (the_array a). the_array a' ! j = nullptr \<or>
        the_array a' ! j = the_array a ! j \<and> is_first ss j (ss ! j))"

lemma filtered_null_untriggered:
  assumes "\<forall>i \<in> set t. \<exists>s. is_first ss i s"
  shows "filtered ss a (map_option (null_untriggered t 0) a)"
  using assms
  by (cases a) (auto simp: filtered_def the_array_def nth_null_untriggered is_first_def)

definition arrays_after :: "rmw_ret \<Rightarrow> wait_args \<Rightarrow> string list \<Rightarrow> string list \<Rightarrow> wait_args \<Rightarrow> bool" where
  "arrays_after code args gs ss args' \<longleftrightarrow>
     (case code of
        RMW_RET_ERROR \<Rightarrow> args' = args
      | RMW_RET_TIMEOUT \<Rightarrow>
          wa_subscriptions args' = wa_subscriptions args \<and>
          wa_guard_conditions args' = wa_guard_conditions args
      | RMW_RET_OK \<Rightarrow>
          filtered ss (wa_subscriptions args) (wa_subscriptions args') \<and>
          filtered gs (wa_guard_conditions args) (wa_guard_conditions args')
      | _ \<Rightarrow> False) \<and>
     (code \<noteq> RMW_RET_ERROR \<longrightarrow>
        wa_events args' = null_all (wa_events args) \<and> wa_services args' = null_all (wa_services args) \<and>
        wa_clients args' = null_all (wa_clients args))"

lemma wait_result_arrays:
  assumes "wait_result args gs ss code args' ws' m"
  shows "arrays_after code args gs ss args'"
proof (cases "code = RMW_RET_ERROR \<and> args' = args \<and> m")
  case True
  then show ?thesis by (simp add: arrays_after_def)
next
  case False
  with assms obtain ts where pt: "(code, args') = process_triggers ts args"
    and t: "\<forall>t \<in> set ts. \<exists>s. (trg_type t, s, trg_rmw_index t) \<in> set (staged gs ss)"
    by (auto simp: wait_result_def)
  have subs: "\<forall>i \<in> set (triggered_indices SUBSCRIBER ts []). \<exists>s. is_first ss i s"
    using t staged_first(2) by (fastforce simp: set_triggered_indices)
  have guards: "\<forall>i \<in> set (triggered_indices GUARD_CONDITION ts []). \<exists>s. is_first gs i s"
    using t staged_first(1) by (fastforce simp: set_triggered_indices)
  show ?thesis
    using pt filtered_null_untriggered [OF subs] filtered_null_untriggered [OF guards]
    by (cases "ts = []") (simp_all add: process_triggers_def arrays_after_def)
qed

section \<open>Properties\<close>

text \<open>C1. \<open>rmw_wait\<close> on a wait set with nothing staged and arrays of existing guard conditions and
  subscribers returns, whatever the timeout and the runtime do. Only the wait set's object changes,
  and it stays well-formed. An error has a message and leaves the arrays alone. On a timeout the two
  arrays are unchanged; on success every entry is kept or nulled, and a kept one is the first in its
  array for its service, so of two subscriptions to one topic only the first is ever reported. Unless
  there is an error the events, services and clients are nulled and nothing stays staged.\<close>
theorem wait_protocol:
  fixes w :: "('i, 'm) world"
  assumes "wait_set_ready p q ws w" and "ws_mapping ws = []" and "args_ready api ws w args gs ss"
  shows "\<exists>code args' ws' w'. rmw_wait api args p t w = Some ((code, args'), w') \<and>
    heap w' = (heap w)(q \<mapsto> WaitSetObj ws') \<and> waitset_wf ws' \<and> arrays_after code args gs ss args' \<and>
    (if code = RMW_RET_ERROR then errmsg w' \<noteq> None else ws_mapping ws' = [])"
proof -
  from rmw_wait_outcome [OF assms, of t] obtain code args' ws' w' where
    r: "rmw_wait api args p t w = Some ((code, args'), w')" "heap w' = (heap w)(q \<mapsto> WaitSetObj ws')"
      "waitset_wf ws'" and res: "wait_result args gs ss code args' ws' (errmsg w' \<noteq> None)"
    by blast
  have "code = RMW_RET_ERROR \<longrightarrow> errmsg w' \<noteq> None" "code \<noteq> RMW_RET_ERROR \<longrightarrow> ws_mapping ws' = []"
    using res by (auto simp: wait_result_def process_triggers_def Let_def split: if_splits)
  with r wait_result_arrays [OF res] show ?thesis by auto
qed

definition sim_args :: wait_args where
  "sim_args = \<lparr>wa_subscriptions = Some [28], wa_guard_conditions = Some [20], wa_services = Some [],
               wa_clients = None, wa_events = Some [1]\<rparr>"

lemma sim_wait_ready:
  "wait_set_ready 14 16 (unmap_all sim_waitset) sim_world"
  "ws_mapping (unmap_all sim_waitset) = []"
  "args_ready sim_api (unmap_all sim_waitset) sim_world sim_args [names_guard_condition 0 0] [names_topic ''/chatter'']"
proof -
  show "wait_set_ready 14 16 (unmap_all sim_waitset) sim_world"
    by (simp add: wait_set_ready_def) (simp add: sim_world_def)
  show "ws_mapping (unmap_all sim_waitset) = []" by (simp add: unmap_all_def)
  have "wait_context_of (unmap_all sim_waitset) sim_world = Some sim_context"
    by (simp add: wait_context_of_def load_def unmap_all_def) (simp add: sim_waitset_def sim_world_def)
  moreover have "guard_service sim_world 20 = Some (names_guard_condition 0 0)"
    by (simp add: service_Some load_guard_condition_def load_def) (simp add: sim_world_def sim_guard_def)
  moreover have "subscriber_service sim_world 28 = Some (names_topic ''/chatter'')"
    by (simp add: service_Some load_def) (simp add: sim_world_def sim_subscriber_def)
  ultimately show "args_ready sim_api (unmap_all sim_waitset) sim_world sim_args [names_guard_condition 0 0]
      [names_topic ''/chatter'']"
    by (simp add: args_ready_def sim_args_def the_array_def context_for_def sim_api_def)
qed

text \<open>A guard condition and a subscription, without a timeout.\<close>
theorem wait_protocol_witness:
  "\<exists>code args' ws' w'. rmw_wait sim_api sim_args 14 None sim_world = Some ((code, args'), w') \<and> waitset_wf ws' \<and>
    heap w' = (heap sim_world)(16 \<mapsto> WaitSetObj ws') \<and>
    arrays_after code sim_args [names_guard_condition 0 0] [names_topic ''/chatter''] args'"
  using wait_protocol [OF sim_wait_ready, of None] by blast

end
