(* ===== verification/Rmw_Wait_Delivery.thy ===== *)
theory Rmw_Wait_Delivery
  imports Wait_Delivery Rmw_Wait_Correct
begin

text \<open>
  \<open>rmw_wait\<close> on a middleware that does not fail: which entries of its arrays survive, and which
  notifications it consumes.
\<close>

section \<open>The listeners of a wait set\<close>

definition stored_listener :: "waitable_entity \<Rightarrow> string \<Rightarrow> waitset_impl \<Rightarrow> nat option" where
  "stored_listener k s ws = map_option ld_listener (find (\<lambda>l. ld_service_name l = s) (listener_storage k ws))"

text \<open>Listeners stay; one that is added has no notification; and no notification is lost or made.\<close>

definition quiet :: "('i \<Rightarrow> nat set) \<Rightarrow> waitset_impl \<Rightarrow> 'i \<Rightarrow> waitset_impl \<Rightarrow> 'i \<Rightarrow> bool" where
  "quiet pending ws i ws' j \<longleftrightarrow>
     pending j = pending i \<and> ws_waitset ws' = ws_waitset ws \<and>
     (\<forall>k s. stored_listener k s ws' = stored_listener k s ws \<or>
        stored_listener k s ws = None \<and> (\<exists>l. stored_listener k s ws' = Some l \<and> l \<notin> pending i))"

lemma quiet_refl: "quiet pending ws i ws i"
  by (simp add: quiet_def)

lemma quiet_trans:
  assumes "quiet pending ws i ws1 j" and "quiet pending ws1 j ws2 k"
  shows "quiet pending ws i ws2 k"
proof -
  have "stored_listener e s ws2 = stored_listener e s ws \<or>
      stored_listener e s ws = None \<and> (\<exists>l. stored_listener e s ws2 = Some l \<and> l \<notin> pending i)" for e s
    using assms unfolding quiet_def by (metis option.distinct(1))
  with assms show ?thesis by (simp add: quiet_def)
qed

lemma stored_listener_map_stored [simp]: "stored_listener k (s :: string) (map_stored_listener k' i idx ws) = stored_listener k s ws"
  by (cases k) (simp_all add: stored_listener_def listener_storage_def map_stored_listener_def split: option.split)

lemma find_append: "find P (xs @ ys) = (case find P xs of None \<Rightarrow> find P ys | Some x \<Rightarrow> Some x)"
  by (induction xs) simp_all

lemma stored_listener_add:
  assumes "s \<notin> set (listener_names k ws)"
  shows "stored_listener k' s' (set_listener_storage k (listener_storage k ws @ [\<lparr>ld_service_name = s, ld_listener = l\<rparr>]) ws) =
    (if k' = k \<and> s' = s then Some l else stored_listener k' s' ws)"
  using assms
  by (cases "k' = k") (auto simp: stored_listener_def find_append find_None_iff listener_names_def dest: find_SomeD split: option.split)

lemma stored_listener_None: "stored_listener k s ws = None \<longleftrightarrow> s \<notin> set (listener_names k ws)"
  by (auto simp: stored_listener_def listener_names_def find_None_iff)

lemma get_storage_index_quiet:
  fixes w :: "('i, 'z) sys_scheme"
  assumes c: "event_contract api waitset attached pending"
    and get: "get_storage_index api ctx k s ws w = Some (r, ws', w')"
  shows "\<not> isl r \<and> quiet pending ws (iox w) ws' (iox w')"
proof (cases "s \<in> set (listener_names k ws)")
  case True
  with ls.get_stored [OF True get] show ?thesis by (auto simp: quiet_refl)
next
  case False
  then have none: "find_index (\<lambda>l. ld_service_name l = s) (listener_storage k ws) = None"
    unfolding listener_names_iff by blast
  from get none obtain ctx' handle inst name where
    "ctx = Some ctx'" "Context_iox2 ctx' = Some handle"
    "Iceoryx2_service_builder api (listener_service_type k) handle s = Some (inst, name)"
    by (auto simp: get_storage_index_def Let_def split: Option.bind_splits)
  moreover obtain x j where "event_open_or_create api inst name (iox w) = (Inr x, j)" "pending j = pending (iox w)"
    using event_contractD(6) [OF c] by metis
  moreover obtain l j' where "listener_create api x j = (Inr l, j')" "pending j' = pending j" "l \<notin> pending j"
    using event_contractD(7) [OF c] by metis
  ultimately show ?thesis
    using get none by (auto simp: get_storage_index_def Let_def call_def quiet_def stored_listener_add [OF False]
        stored_listener_None [THEN iffD2, OF False] split: if_splits)
qed

lemma WaitSet_map_quiet:
  fixes w :: "('i, 'z) sys_scheme"
  assumes c: "event_contract api waitset attached pending" and m: "WaitSet_map api ctx k idx s ws w = Some (r, ws', w')"
  shows "r = Inr () \<and> quiet pending ws (iox w) ws' (iox w')"
  using m
proof (cases rule: WaitSet_map_cases)
  case (1 e)
  with get_storage_index_quiet [OF c 1(2)] show ?thesis by simp
next
  case (2 i ws1)
  with get_storage_index_quiet [OF c 2(2)] show ?thesis by (simp add: quiet_def)
qed

lemma stored_listener_unmap_all [simp]: "stored_listener k (s :: string) (unmap_all ws) = stored_listener k s ws"
  by (cases k) (simp_all add: stored_listener_def listener_storage_def unmap_all_def)

section \<open>Mapping\<close>

definition mapped_quietly ::
  "('i \<Rightarrow> nat set) \<Rightarrow> ptr \<Rightarrow> waitset_impl \<Rightarrow> ('i, 'm) world \<Rightarrow> rmw_ret option \<Rightarrow> ('i, 'm) world \<Rightarrow> bool" where
  "mapped_quietly pending q ws w early w' \<longleftrightarrow>
     early = None \<and> (\<exists>ws'. heap w' q = Some (WaitSetObj ws') \<and> quiet pending ws (iox w) ws' (iox w'))"

lemma map_guard_conditions_quiet:
  fixes w :: "('i, 'm) world"
  assumes c: "event_contract api waitset attached pending"
    and "map_guard_conditions api q i ps w = Some (early, w')" and "heap w q = Some (WaitSetObj ws)" and "nullptr \<notin> set ps"
  shows "mapped_quietly pending q ws w early w'"
  using assms(2-4)
proof (induction ps arbitrary: i ws w)
  case Nil
  then show ?case by (auto simp: mapped_quietly_def quiet_refl)
next
  case (Cons p ps)
  from Cons.prems obtain g :: guard_condition and r ws1 w1 w2 where m:
    "WaitSet_map api (load as_context_impl (ws_context ws) w) GUARD_CONDITION i (gc_service_name g) ws w = Some (r, ws1, w1)"
    "store WaitSetObj q ws1 w1 = Some w2"
    "(case r of Inl _ \<Rightarrow> fail (Some RMW_RET_ERROR) ''failed to attach GuardCondition to WaitSet'' w2
      | Inr _ \<Rightarrow> map_guard_conditions api q (Suc i) ps w2) = Some (early, w')"
    by (auto simp: unsafe_cast_ok WaitSet_map_guard_condition_def waitset_obj.load_iff split: Option.bind_splits)
  note quiet = WaitSet_map_quiet [OF c m(1)]
  have "heap w2 q = Some (WaitSetObj ws1)" "iox w2 = iox w1" using m(2) by (auto simp: store_def split: option.splits)
  with m(3) quiet Cons.IH [of "Suc i" w2 ws1] Cons.prems(3) show ?case
    by (auto simp: mapped_quietly_def intro: quiet_trans)
qed

lemma map_subscriptions_quiet:
  fixes w :: "('i, 'm) world"
  assumes c: "event_contract api waitset attached pending"
    and "map_subscriptions api q i ps w = Some (early, w')" and "heap w q = Some (WaitSetObj ws)" and "nullptr \<notin> set ps"
  shows "mapped_quietly pending q ws w early w'"
  using assms(2-4)
proof (induction ps arbitrary: i ws w)
  case Nil
  then show ?case by (auto simp: mapped_quietly_def quiet_refl)
next
  case (Cons p ps)
  from Cons.prems obtain sub :: subscriber_impl and r ws1 w1 w2 where m:
    "WaitSet_map api (load as_context_impl (ws_context ws) w) SUBSCRIBER i (sub_service_name sub) ws w = Some (r, ws1, w1)"
    "store WaitSetObj q ws1 w1 = Some w2"
    "(case r of Inl _ \<Rightarrow> fail (Some RMW_RET_ERROR) ''failed to attach Subscriber to WaitSet'' w2
      | Inr _ \<Rightarrow> map_subscriptions api q (Suc i) ps w2) = Some (early, w')"
    by (auto simp: unsafe_cast_ok WaitSet_map_subscriber_def waitset_obj.load_iff split: Option.bind_splits)
  note quiet = WaitSet_map_quiet [OF c m(1)]
  have "heap w2 q = Some (WaitSetObj ws1)" "iox w2 = iox w1" using m(2) by (auto simp: store_def split: option.splits)
  with m(3) quiet Cons.IH [of "Suc i" w2 ws1] Cons.prems(3) show ?case
    by (auto simp: mapped_quietly_def intro: quiet_trans)
qed

lemma mapping_phase_quiet:
  fixes w :: "('i, 'm) world"
  assumes c: "event_contract api waitset attached pending" and a: "args_ready api ws w args gs ss"
    and h: "heap w q = Some (WaitSetObj ws)" and m: "mapping_phase api args q w = Some (early, w')"
  shows "mapped_quietly pending q ws w early w'"
proof -
  have nn: "nullptr \<notin> set (the_array (wa_guard_conditions args))" "nullptr \<notin> set (the_array (wa_subscriptions args))"
    using a by (simp_all add: args_ready_def entities_ready_def)
  from m obtain e1 w1 where m1: "(case wa_guard_conditions args of None \<Rightarrow> Some (None, w)
      | Some gs \<Rightarrow> map_guard_conditions api q 0 gs w) = Some (e1, w1)"
    "(case e1 of Some code \<Rightarrow> Some (Some code, w1) | None \<Rightarrow> (case wa_subscriptions args of
         None \<Rightarrow> Some (None, w1) | Some ss \<Rightarrow> map_subscriptions api q 0 ss w1)) = Some (early, w')"
    by (auto simp: mapping_phase_def split: Option.bind_splits)
  have "mapped_quietly pending q ws w e1 w1"
  proof (cases "wa_guard_conditions args")
    case None
    with m1(1) h show ?thesis by (simp add: mapped_quietly_def quiet_refl)
  next
    case (Some ps)
    with m1(1) nn(1) map_guard_conditions_quiet [OF c _ h, of 0 ps e1 w1] show ?thesis by (simp add: the_array_def)
  qed
  then obtain ws1 where ws1: "e1 = None" "heap w1 q = Some (WaitSetObj ws1)" "quiet pending ws (iox w) ws1 (iox w1)"
    by (auto simp: mapped_quietly_def)
  have "mapped_quietly pending q ws1 w1 early w'"
  proof (cases "wa_subscriptions args")
    case None
    with m1(2) ws1(1,2) show ?thesis by (simp add: mapped_quietly_def quiet_refl)
  next
    case (Some ps)
    with m1(2) ws1(1) nn(2) map_subscriptions_quiet [OF c _ ws1(2), of 0 ps early w'] show ?thesis
      by (simp add: the_array_def)
  qed
  with ws1(3) show ?thesis by (auto simp: mapped_quietly_def intro: quiet_trans)
qed

section \<open>The arrays\<close>

text \<open>The services an array holds, by kind, and those a listener with a notification in \<open>P\<close> is stored for.\<close>

definition services_of :: "string list \<Rightarrow> string list \<Rightarrow> waitable_entity \<Rightarrow> string list" where
  "services_of gs ss k = (case k of GUARD_CONDITION \<Rightarrow> gs | SUBSCRIBER \<Rightarrow> ss)"

definition notified :: "string list \<Rightarrow> string list \<Rightarrow> waitset_impl \<Rightarrow> nat set \<Rightarrow> (waitable_entity \<times> string) set" where
  "notified gs ss ws P = {(k, s). s \<in> set (services_of gs ss k) \<and> (\<exists>l \<in> P. stored_listener k s ws = Some l)}"

definition listeners_for :: "waitset_impl \<Rightarrow> (waitable_entity \<times> string) set \<Rightarrow> nat set" where
  "listeners_for ws R = {l. \<exists>(k, s) \<in> R. stored_listener k s ws = Some l}"

text \<open>An array of which only the entries of some services are kept, each the first of its service.\<close>

definition keep_only :: "(string \<Rightarrow> bool) \<Rightarrow> string list \<Rightarrow> ptr list option \<Rightarrow> ptr list option" where
  "keep_only good names a =
     map_option (\<lambda>ps. map (\<lambda>j. if is_first names j (names ! j) \<and> good (names ! j) then ps ! j else nullptr) [0..<length ps]) a"

lemma abs_map_all_first:
  "(k', s, i) \<in> set (abs_map_all k n names es) \<longleftrightarrow>
   (k', s, i) \<in> set es \<or>
   k' = k \<and> n \<le> i \<and> is_first names (i - n) s \<and> (\<forall>e \<in> set es. \<not> (fst e = k \<and> fst (snd e) = s))"
proof (induction names arbitrary: n es)
  case Nil
  then show ?case by (simp add: is_first_def)
next
  case (Cons s0 names)
  have "n \<le> i \<and> is_first (s0 # names) (i - n) s \<longleftrightarrow>
      i = n \<and> s0 = s \<or> Suc n \<le> i \<and> s0 \<noteq> s \<and> is_first names (i - Suc n) s"
  proof (cases "n < i")
    case True
    then have "i - n = Suc (i - Suc n)" by simp
    with True show ?thesis by (simp add: is_first_Cons)
  qed (auto simp: is_first_Cons)
  then show ?case
    unfolding abs_map_all.simps Cons.IH by (auto simp: abs_map_def)
qed

lemma staged_iff:
  "(k, s, i) \<in> set (staged gs ss) \<longleftrightarrow> is_first (services_of gs ss k) i s"
  by (cases k) (auto simp: staged_def abs_map_all_first services_of_def)

text \<open>The listener of an entry is the one stored for its service.\<close>

lemma find_distinct:
  "distinct (map f xs) \<Longrightarrow> i < length xs \<Longrightarrow> find (\<lambda>x. f x = f (xs ! i)) xs = Some (xs ! i)"
  by (induction xs arbitrary: i) (auto simp: nth_Cons split: nat.split)

lemma stored_listener_of:
  assumes "waitset_wf ws" and "m \<in> set (ws_mapping ws)" and "mapped_entry ws m = (k, s, i)"
  shows "stored_listener k s ws = Some (listener_of ws m)"
proof -
  have d: "distinct (map ld_service_name (listener_storage k ws))" and i: "map_storage_index m < length (listener_storage k ws)"
    using assms by (auto simp: waitset_wf_def listener_names_def mapped_entry_def)
  have s: "s = ld_service_name (listener_storage k ws ! map_storage_index m)" "k = map_type m"
    using assms(3) i by (auto simp: mapped_entry_def listener_names_def)
  with find_distinct [OF d i] show ?thesis by (simp add: stored_listener_def listener_of_def)
qed

section \<open>The wait\<close>

lemma first_exists: "s \<in> set names \<Longrightarrow> \<exists>i. is_first names i s"
proof (induction names)
  case (Cons s0 names)
  then show ?case by (cases "s0 = s") (auto simp: is_first_Cons)
qed simp

lemma first_unique: "is_first names i s \<Longrightarrow> is_first names j s \<Longrightarrow> i = j"
  unfolding is_first_def by (metis linorder_neqE_nat)

lemma first_in: "is_first names i s \<Longrightarrow> s \<in> set names \<and> i < length names \<and> names ! i = s"
  by (auto simp: is_first_def)

lemma staged_stored:
  assumes "waitset_wf ws" and "mapped ws = staged gs ss" and "s \<in> set (services_of gs ss k)"
  shows "stored_listener k s ws \<noteq> None"
proof -
  obtain i where "(k, s, i) \<in> set (mapped ws)" using first_exists [OF assms(3)] assms(2) staged_iff by metis
  then obtain m where "m \<in> set (ws_mapping ws)" "mapped_entry ws m = (k, s, i)" by (auto simp: mapped_def)
  from stored_listener_of [OF assms(1) this] show ?thesis by simp
qed

text \<open>The services of the entries that a wait reported.\<close>

definition reported_services :: "waitset_impl \<Rightarrow> rmw_mapping set \<Rightarrow> (waitable_entity \<times> string) set" where
  "reported_services ws R = {(k, s). \<exists>m \<in> R. \<exists>i. mapped_entry ws m = (k, s, i)}"

lemma reported_notified:
  assumes wf: "waitset_wf ws" and st: "mapped ws = staged gs ss"
  shows "reported_services ws {m \<in> set (ws_mapping ws). listener_of ws m \<in> P} = notified gs ss ws P"
    and "R \<subseteq> set (ws_mapping ws) \<Longrightarrow> listeners_for ws (reported_services ws R) = listener_of ws ` R"
proof -
  have l: "stored_listener k s ws = Some (listener_of ws m)" if "m \<in> set (ws_mapping ws)" "mapped_entry ws m = (k, s, i)" for m k s i
    by (rule stored_listener_of [OF wf that])
  have e: "is_first (services_of gs ss k) i s" if "m \<in> set (ws_mapping ws)" "mapped_entry ws m = (k, s, i)" for m k s i
  proof -
    have "(k, s, i) \<in> set (mapped ws)" using that unfolding mapped_def by (metis imageI set_map)
    then show ?thesis by (simp add: st staged_iff)
  qed
  have ex: "\<exists>m \<in> set (ws_mapping ws). \<exists>i. mapped_entry ws m = (k, s, i)" if "s \<in> set (services_of gs ss k)" for k s
  proof -
    from first_exists [OF that] obtain i where "is_first (services_of gs ss k) i s" by blast
    then have "(k, s, i) \<in> set (mapped ws)" using st staged_iff by simp
    then show ?thesis unfolding mapped_def by (metis imageE set_map)
  qed
  show "reported_services ws {m \<in> set (ws_mapping ws). listener_of ws m \<in> P} = notified gs ss ws P"
  proof (rule set_eqI, rule iffI)
    fix x assume "x \<in> reported_services ws {m \<in> set (ws_mapping ws). listener_of ws m \<in> P}"
    then obtain k s m i where m: "x = (k, s)" "m \<in> set (ws_mapping ws)" "listener_of ws m \<in> P" "mapped_entry ws m = (k, s, i)"
      by (auto simp: reported_services_def)
    with l first_in [OF e [OF m(2,4)]] show "x \<in> notified gs ss ws P" by (simp add: notified_def)
  next
    fix x assume "x \<in> notified gs ss ws P"
    then obtain k s j where x: "x = (k, s)" "s \<in> set (services_of gs ss k)" "j \<in> P" "stored_listener k s ws = Some j"
      by (auto simp: notified_def)
    with ex obtain m i where "m \<in> set (ws_mapping ws)" "mapped_entry ws m = (k, s, i)" by blast
    with x l show "x \<in> reported_services ws {m \<in> set (ws_mapping ws). listener_of ws m \<in> P}"
      by (fastforce simp: reported_services_def)
  qed
  show "listeners_for ws (reported_services ws R) = listener_of ws ` R" if "R \<subseteq> set (ws_mapping ws)"
  proof (rule set_eqI, rule iffI)
    fix x assume "x \<in> listeners_for ws (reported_services ws R)"
    then obtain k s m i where "stored_listener k s ws = Some x" "m \<in> R" "mapped_entry ws m = (k, s, i)"
      by (auto simp: listeners_for_def reported_services_def)
    with l [of m k s i] that show "x \<in> listener_of ws ` R" by auto
  next
    fix x assume "x \<in> listener_of ws ` R"
    then obtain m where m: "m \<in> R" "x = listener_of ws m" by blast
    obtain k s i where e: "mapped_entry ws m = (k, s, i)" by (cases "mapped_entry ws m")
    with l [of m k s i] m that show "x \<in> listeners_for ws (reported_services ws R)"
      by (fastforce simp: listeners_for_def reported_services_def)
  qed
qed

lemma null_untriggered_keep:
  assumes "\<And>j. j < length ps \<Longrightarrow> j \<in> set t \<longleftrightarrow> is_first names j (names ! j) \<and> good (names ! j)"
  shows "null_untriggered t 0 ps = the (keep_only good names (Some ps))"
  by (rule nth_equalityI) (simp_all add: keep_only_def nth_null_untriggered assms)

text \<open>The indices of the reported entries, and the arrays.\<close>

lemma reported_index:
  assumes st: "mapped ws = staged gs ss" and R: "R \<subseteq> set (ws_mapping ws)" and ts: "set ts = triggered_of ` R"
    and j: "j < length (services_of gs ss k)"
  defines "s \<equiv> services_of gs ss k ! j"
  shows "j \<in> set (triggered_indices k ts []) \<longleftrightarrow>
    is_first (services_of gs ss k) j s \<and> (k, s) \<in> reported_services ws R"
proof -
  have e: "is_first (services_of gs ss k') i s'" if "m \<in> R" "mapped_entry ws m = (k', s', i)" for m k' s' i
  proof -
    have "(k', s', i) \<in> set (mapped ws)" using that R unfolding mapped_def by (metis imageI set_map subsetD)
    then show ?thesis by (simp add: st staged_iff)
  qed
  have "j \<in> set (triggered_indices k ts []) \<longleftrightarrow> (\<exists>m \<in> R. map_type m = k \<and> map_rmw_index m = j)"
    using ts by (simp add: set_triggered_indices) (force simp: triggered_of_def)
  also have "\<dots> \<longleftrightarrow> (\<exists>m \<in> R. \<exists>s'. mapped_entry ws m = (k, s', j))" by (auto simp: mapped_entry_def)
  also have "\<dots> \<longleftrightarrow> (\<exists>m \<in> R. mapped_entry ws m = (k, s, j))"
    using e first_in unfolding s_def by metis
  also have "\<dots> \<longleftrightarrow> is_first (services_of gs ss k) j s \<and> (k, s) \<in> reported_services ws R"
    using e first_unique by (auto simp: reported_services_def) metis+
  finally show ?thesis .
qed

definition arrays_kept ::
  "wait_args \<Rightarrow> string list \<Rightarrow> string list \<Rightarrow> (waitable_entity \<times> string) set \<Rightarrow> wait_args \<Rightarrow> bool" where
  "arrays_kept args gs ss R args' \<longleftrightarrow>
     (if R = {}
      then wa_subscriptions args' = wa_subscriptions args \<and> wa_guard_conditions args' = wa_guard_conditions args
      else wa_subscriptions args' = keep_only (\<lambda>s. (SUBSCRIBER, s) \<in> R) ss (wa_subscriptions args) \<and>
           wa_guard_conditions args' = keep_only (\<lambda>s. (GUARD_CONDITION, s) \<in> R) gs (wa_guard_conditions args)) \<and>
     wa_events args' = null_all (wa_events args) \<and> wa_services args' = null_all (wa_services args) \<and>
     wa_clients args' = null_all (wa_clients args)"

lemma process_triggers_kept:
  assumes st: "mapped ws = staged gs ss" and R: "R \<subseteq> set (ws_mapping ws)" and ts: "set ts = triggered_of ` R"
    and len: "length (the_array (wa_guard_conditions args)) = length gs" "length (the_array (wa_subscriptions args)) = length ss"
  shows "fst (process_triggers ts args) = (if reported_services ws R = {} then RMW_RET_TIMEOUT else RMW_RET_OK) \<and>
    arrays_kept args gs ss (reported_services ws R) (snd (process_triggers ts args))"
proof -
  have ne: "ts = [] \<longleftrightarrow> reported_services ws R = {}"
    using ts by (cases "R = {}") (auto simp: reported_services_def mapped_entry_def)
  have keep: "map_option (null_untriggered (triggered_indices k ts []) 0) a =
      keep_only (\<lambda>s. (k, s) \<in> reported_services ws R) (services_of gs ss k) a"
    if "length (the_array a) = length (services_of gs ss k)" for k a
  proof (cases a)
    case (Some ps)
    have "null_untriggered (triggered_indices k ts []) 0 ps =
        the (keep_only (\<lambda>s. (k, s) \<in> reported_services ws R) (services_of gs ss k) (Some ps))"
      by (rule null_untriggered_keep) (use reported_index [OF st R ts] that Some in \<open>simp add: the_array_def\<close>)
    with Some show ?thesis by (simp add: keep_only_def)
  qed (simp add: keep_only_def)
  from keep [of "wa_subscriptions args" SUBSCRIBER] keep [of "wa_guard_conditions args" GUARD_CONDITION] len ne
  show ?thesis by (simp add: process_triggers_def arrays_kept_def services_of_def)
qed

lemma wait_phase_reports:
  fixes w :: "('i, 'm) world"
  assumes c: "event_contract api waitset attached pending" and q: "mapped_in q ws w" and st: "mapped ws = staged gs ss"
    and ws: "ws_waitset ws = Some waitset" and ne: "gs @ ss \<noteq> [] \<or> timeout \<noteq> None"
    and len: "length (the_array (wa_guard_conditions args)) = length gs" "length (the_array (wa_subscriptions args)) = length ss"
  shows "\<exists>R P args' w'. wait_phase api args q timeout w =
      Some ((if R = {} then RMW_RET_TIMEOUT else RMW_RET_OK, args'), w') \<and>
    heap w' = (heap w)(q \<mapsto> WaitSetObj (unmap_all ws)) \<and>
    R \<subseteq> notified gs ss ws P \<and> (timeout = None \<longrightarrow> R = notified gs ss ws P) \<and>
    pending (iox w) \<subseteq> P \<and> (timeout = Some 0 \<or> no_arrivals api waitset pending \<longrightarrow> P = pending (iox w)) \<and>
    pending (iox w') = P - listeners_for ws R \<and> arrays_kept args gs ss R args'"
proof -
  have ld: "load as_waitset_impl q w = Some ws" and wf: "waitset_wf ws" and h: "heap w q = Some (WaitSetObj ws)"
    using q by (simp_all add: mapped_in_def load_def)
  have "ws_mapping ws \<noteq> [] \<or> timeout \<noteq> None"
  proof (cases "timeout = None")
    case True
    with ne obtain k s where "s \<in> set (services_of gs ss k)"
      by (cases gs; cases ss) (force simp: services_of_def split: waitable_entity.splits)+
    then have "staged gs ss \<noteq> []" using first_exists staged_iff by (metis empty_iff empty_set)
    with st show ?thesis by (auto simp: mapped_def)
  qed simp
  from WaitSet_wait_reports [OF wf ws c this, of w] obtain ts R P w3 where
    wt: "WaitSet_wait api timeout ws w = Some (Inr ts, w3)" "set ts = triggered_of ` R"
      "R \<subseteq> {m \<in> set (ws_mapping ws). listener_of ws m \<in> P}"
      "timeout = None \<longrightarrow> R = {m \<in> set (ws_mapping ws). listener_of ws m \<in> P}"
      "pending (iox w) \<subseteq> P" "timeout = Some 0 \<or> no_arrivals api waitset pending \<longrightarrow> P = pending (iox w)" "pending (iox w3) = P - listener_of ws ` R"
    by (elim exE conjE) (rule that)
  have R: "R \<subseteq> set (ws_mapping ws)" using wt(3) by blast
  let ?R = "reported_services ws R"
  note kept = process_triggers_kept [OF st R wt(2) len]
  have h3: "heap w3 = heap w" using world_more [OF WaitSet_wait_more [OF wt(1)]] by simp
  have "reported_services ws R \<subseteq> notified gs ss ws P"
    using wt(3) reported_notified(1) [OF wf st, of P] unfolding reported_services_def by blast
  moreover have "timeout = None \<longrightarrow> ?R = notified gs ss ws P" using wt(4) reported_notified(1) [OF wf st, of P] by simp
  moreover have "wait_phase api args q timeout w = Some ((if ?R = {} then RMW_RET_TIMEOUT else RMW_RET_OK,
      snd (process_triggers ts args)), w3\<lparr>heap := (heap w)(q \<mapsto> WaitSetObj (unmap_all ws))\<rparr>)"
    using ld wt(1) h3 h kept by (cases "process_triggers ts args") (simp add: wait_phase_def store_def)
  ultimately show ?thesis
    using wt(5-7) kept reported_notified(2) [OF wf st R]
    by (intro exI [of _ ?R] exI [of _ P] exI [of _ "snd (process_triggers ts args)"]
        exI [of _ "w3\<lparr>heap := (heap w)(q \<mapsto> WaitSetObj (unmap_all ws))\<rparr>"]) simp
qed

lemma rmw_wait_reports:
  fixes w :: "('i, 'm) world"
  assumes p: "wait_set_ready p q ws w" and empty: "ws_mapping ws = []" and a: "args_ready api ws w args gs ss"
    and ws: "ws_waitset ws = Some waitset" and c: "event_contract api waitset attached pending"
    and ne: "gs @ ss \<noteq> [] \<or> t \<noteq> None"
  shows "\<exists>R P args' ws' w'.
    rmw_wait api args p t w = Some ((if R = {} then RMW_RET_TIMEOUT else RMW_RET_OK, args'), w') \<and>
    R \<subseteq> notified gs ss ws' P \<and> (t = None \<longrightarrow> R = notified gs ss ws' P) \<and> arrays_kept args gs ss R args' \<and>
    pending (iox w) \<subseteq> P \<and> (timeout_of api t = Some 0 \<or> no_arrivals api waitset pending \<longrightarrow> P = pending (iox w)) \<and>
    pending (iox w') = P - listeners_for ws' R \<and>
    heap w' = (heap w)(q \<mapsto> WaitSetObj ws') \<and> waitset_wf ws' \<and> ws_mapping ws' = [] \<and>
    ws_waitset ws' = ws_waitset ws \<and> ws_context ws' = ws_context ws \<and>
    (\<forall>k s. stored_listener k s ws' = stored_listener k s ws \<or>
       stored_listener k s ws = None \<and> (\<exists>l. stored_listener k s ws' = Some l \<and> l \<notin> pending (iox w))) \<and>
    (\<forall>k. \<forall>s \<in> set (services_of gs ss k). stored_listener k s ws' \<noteq> None)"
proof -
  have h: "heap w q = Some (WaitSetObj ws)" using p by (simp add: wait_set_ready_def)
  obtain early w1 where m: "mapping_phase api args q w = Some (early, w1)" "mapping_done q ws w (staged gs ss) early w1"
    using mapping_phase_done [OF p empty a] by blast
  from mapping_phase_quiet [OF c a h m(1)] obtain ws1 where early: "early = None"
    and ws1: "heap w1 q = Some (WaitSetObj ws1)" "quiet pending ws (iox w) ws1 (iox w1)"
    by (auto simp: mapped_quietly_def)
  have q1: "heap w1 = (heap w)(q \<mapsto> WaitSetObj ws1)" "mapped_in q ws1 w1" "mapped ws1 = staged gs ss" "waitset_wf ws1"
    "ws_context ws1 = ws_context ws"
    using m(2) early ws1(1) by (auto simp: mapping_done_def mapped_in_def)
  have wsid: "ws_waitset ws1 = Some waitset" and keep: "pending (iox w1) = pending (iox w)"
    using ws1(2) ws by (simp_all add: quiet_def)
  have ne': "gs @ ss \<noteq> [] \<or> timeout_of api t \<noteq> None" using ne by (auto simp: timeout_of_def)
  have len: "length (the_array (wa_guard_conditions args)) = length gs" "length (the_array (wa_subscriptions args)) = length ss"
    using a by (auto simp: args_ready_def entities_ready_def dest!: arg_cong [where f = length])
  from wait_phase_reports [OF c q1(2,3) wsid ne' len] obtain R P args' w' where r:
    "wait_phase api args q (timeout_of api t) w1 = Some ((if R = {} then RMW_RET_TIMEOUT else RMW_RET_OK, args'), w')"
    "heap w' = (heap w1)(q \<mapsto> WaitSetObj (unmap_all ws1))" "R \<subseteq> notified gs ss ws1 P"
    "timeout_of api t = None \<longrightarrow> R = notified gs ss ws1 P" "pending (iox w1) \<subseteq> P"
    "timeout_of api t = Some 0 \<or> no_arrivals api waitset pending \<longrightarrow> P = pending (iox w1)" "pending (iox w') = P - listeners_for ws1 R"
    "arrays_kept args gs ss R args'"
    by (elim exE conjE) (rule that)
  have same: "notified gs ss (unmap_all ws1) = notified gs ss ws1" "listeners_for (unmap_all ws1) = listeners_for ws1"
    "stored_listener k s (unmap_all ws1) = stored_listener k s ws1" for k s
    by (simp_all add: fun_eq_iff notified_def listeners_for_def)
  show ?thesis
    using r rmw_wait_phases [OF p a m(1), of t] early q1(1,5) keep ws1(2) unmap_all_wf [OF q1(4)] staged_stored [OF q1(4,3)]
    by (intro exI [of _ R] exI [of _ P] exI [of _ args'] exI [of _ "unmap_all ws1"] exI [of _ w'])
      (simp add: same timeout_of_def quiet_def, simp add: unmap_all_def)
qed

section \<open>Properties\<close>

text \<open>C3. On a middleware that does not fail, \<open>rmw_wait\<close> reports exactly what has a notification. With \<open>P\<close> the
  listeners that have one when the wait is over, an array entry is kept exactly when it is the first for its
  service in the array and the listener the wait set stores for that service is in \<open>P\<close>; with a timeout, the
  tick may come first and hide some of them. A poll, or a wait during which nothing arrives, ends with the
  notifications it began with. Every other entry is nulled, and if nothing is reported the
  call times out and leaves both arrays as they are; events, services and clients are nulled either way. The notifications of what is reported are consumed, however many
  messages they stand for; all others stay. A listener the call creates has none of the
  notifications sent before it; afterwards the wait set has a listener for every service of the arrays.\<close>
theorem wait_reports_notified:
  fixes w :: "('i, 'm) world"
  assumes p: "wait_set_ready p q ws w" and empty: "ws_mapping ws = []" and a: "args_ready api ws w args gs ss"
    and ws: "ws_waitset ws = Some waitset" and c: "event_contract api waitset attached pending"
    and ne: "gs @ ss \<noteq> [] \<or> t \<noteq> None"
  shows "\<exists>R P args' ws' w'.
    rmw_wait api args p t w = Some ((if R = {} then RMW_RET_TIMEOUT else RMW_RET_OK, args'), w') \<and>
    R \<subseteq> notified gs ss ws' P \<and> (t = None \<longrightarrow> R = notified gs ss ws' P) \<and> arrays_kept args gs ss R args' \<and>
    pending (iox w) \<subseteq> P \<and> (timeout_of api t = Some 0 \<or> no_arrivals api waitset pending \<longrightarrow> P = pending (iox w)) \<and>
    pending (iox w') = P - listeners_for ws' R \<and>
    heap w' = (heap w)(q \<mapsto> WaitSetObj ws') \<and> waitset_wf ws' \<and> ws_mapping ws' = [] \<and>
    ws_waitset ws' = ws_waitset ws \<and> ws_context ws' = ws_context ws \<and>
    (\<forall>k s. stored_listener k s ws' = stored_listener k s ws \<or>
       stored_listener k s ws = None \<and> (\<exists>l. stored_listener k s ws' = Some l \<and> l \<notin> pending (iox w))) \<and>
    (\<forall>k. \<forall>s \<in> set (services_of gs ss k). stored_listener k s ws' \<noteq> None)"
  by (rule rmw_wait_reports [OF assms])

definition live_wait_world :: "(live, u8 list) world" where
  "live_wait_world =
     \<lparr>errmsg = None, iox = live_start\<lparr>lv_pending := [5]\<rparr>, heap = heap sim_world, next_ptr = 34, requests = 0\<rparr>"

text \<open>The guard condition at 20 was triggered, the subscriber at 28 was not: only the first is kept.\<close>
theorem wait_reports_notified_witness:
  "\<exists>args' w'. rmw_wait live_api sim_args 14 None live_wait_world = Some ((RMW_RET_OK, args'), w') \<and>
    wa_guard_conditions args' = Some [20]"
proof -
  let ?ws = "unmap_all sim_waitset"
  have p: "wait_set_ready 14 16 ?ws live_wait_world" and empty: "ws_mapping ?ws = []"
    using sim_wait_ready(1,2) by (simp_all add: wait_set_ready_def live_wait_world_def)
  have a: "args_ready live_api ?ws live_wait_world sim_args [names_guard_condition 0 0] [names_topic ''/chatter'']"
  proof -
    have "guard_service live_wait_world = guard_service sim_world"
      "subscriber_service live_wait_world = subscriber_service sim_world"
      "wait_context_of ?ws live_wait_world = wait_context_of ?ws sim_world"
      by (simp_all add: fun_eq_iff guard_service_def subscriber_service_def wait_context_of_def
          load_guard_condition_def load_def live_wait_world_def)
    with sim_wait_ready(3) show ?thesis
      by (simp add: args_ready_def entities_ready_def context_for_def live_api_def)
  qed
  have ne: "[names_guard_condition 0 0] @ [names_topic ''/chatter''] \<noteq> [] \<or> (None :: (u64 \<times> u64) option) \<noteq> None" by simp
  have ws: "ws_waitset ?ws = Some 9" by (simp add: unmap_all_def sim_waitset_def)
  from wait_reports_notified [OF p empty a ws live_event_contract, of None, OF ne] obtain R P args' ws' w' where
    r: "rmw_wait live_api sim_args 14 None live_wait_world = Some ((if R = {} then RMW_RET_TIMEOUT else RMW_RET_OK, args'), w')"
      "(None :: (u64 \<times> u64) option) = None \<longrightarrow> R = notified [names_guard_condition 0 0] [names_topic ''/chatter''] ws' P"
      "arrays_kept sim_args [names_guard_condition 0 0] [names_topic ''/chatter''] R args'"
      "set (lv_pending (iox live_wait_world)) \<subseteq> P"
      "\<forall>k s. stored_listener k s ws' = stored_listener k s ?ws \<or>
         stored_listener k s ?ws = None \<and> (\<exists>l. stored_listener k s ws' = Some l \<and> l \<notin> set (lv_pending (iox live_wait_world)))"
    by (elim exE conjE) (rule that; assumption)
  have "stored_listener GUARD_CONDITION (names_guard_condition 0 0) ?ws = Some 5"
    by (simp add: stored_listener_def listener_storage_def unmap_all_def sim_waitset_def)
  with r(5) have "stored_listener GUARD_CONDITION (names_guard_condition 0 0) ws' = Some 5" by (metis option.distinct(1))
  with r(2) [rule_format, OF refl] r(4) have "(GUARD_CONDITION, names_guard_condition 0 0) \<in> R"
    by (simp add: notified_def services_of_def live_wait_world_def)
  with r(1,3) show ?thesis
    by (auto simp: arrays_kept_def keep_only_def sim_args_def is_first_def split: if_splits)
qed

end
