(* ===== verification/Wait_Frame.thy ===== *)
theory Wait_Frame
  imports Rmw_Wait_Correct
begin

text \<open>
  What a wait leaves alone: whatever is observed of the iceoryx2 runtime, if the operations a wait uses do not
  change it, \<open>rmw_wait\<close> does not change it.
\<close>

text \<open>Blocking leaves \<open>f\<close> alone: attaching, waiting, draining and detaching; and so does opening a listener.\<close>

definition block_neutral :: "'i iox2 \<Rightarrow> ('i \<Rightarrow> 'x) \<Rightarrow> bool" where
  "block_neutral api f \<longleftrightarrow>
     (\<forall>x l i. f (snd (attach_notification api x l i)) = f i) \<and> (\<forall>x d i. f (snd (attach_interval api x d i)) = f i) \<and>
     (\<forall>x t i. f (snd (wait_once api x t i)) = f i) \<and> (\<forall>l i. f (snd (try_wait_all api l i)) = f i) \<and>
     (\<forall>g i. f (guard_drop api g i) = f i)"

definition wait_neutral :: "'i iox2 \<Rightarrow> ('i \<Rightarrow> 'x) \<Rightarrow> bool" where
  "wait_neutral api f \<longleftrightarrow>
     block_neutral api f \<and> (\<forall>n s i. f (snd (event_open_or_create api n s i)) = f i) \<and>
     (\<forall>s i. f (snd (listener_create api s i)) = f i)"

lemma block_neutralD:
  assumes "block_neutral api f"
  shows "f (snd (attach_notification api x l i)) = f i" and "f (snd (attach_interval api x d i)) = f i"
    and "f (snd (wait_once api x t i)) = f i" and "f (snd (try_wait_all api l i)) = f i"
    and "f (guard_drop api g i) = f i"
  using assms unfolding block_neutral_def by simp_all

lemma wait_neutralD:
  assumes "wait_neutral api f"
  shows "block_neutral api f" and "f (snd (event_open_or_create api n s i)) = f i"
    and "f (snd (listener_create api v i)) = f i"
  using assms unfolding wait_neutral_def by simp_all

lemma call_neutral: "call g w = (r, w') \<Longrightarrow> (\<And>i. f (snd (g i)) = f i) \<Longrightarrow> f (iox w') = f (iox w)"
  by (auto simp: call_def split: prod.splits) (metis snd_conv)

lemma WaitSet_map_neutral:
  assumes "wait_neutral api f" and "WaitSet_map api ctx k idx s ws w = Some (r, ws', w')"
  shows "f (iox w') = f (iox w)"
  using assms(2) wait_neutralD(2,3) [OF assms(1)]
  by (auto simp: WaitSet_map_def get_storage_index_def Let_def
      split: Option.bind_splits option.splits sum.splits prod.splits dest!: call_neutral [where f = f])

lemma attach_mapped_listeners_neutral:
  assumes n: "block_neutral api f" and "attach_mapped_listeners api ws ms old w = Some (r, atts, w')"
  shows "f (iox w') = f (iox w)"
  using assms(2)
proof (induction ms arbitrary: old w)
  case (Cons m ms)
  have step: "f (iox w1) = f (iox w)" if "attach_mapped_listener api ws m w = Some (r, w1)" for r w1
    using that block_neutralD(1) [OF n]
    by (auto simp: attach_mapped_listener_by_kind split: option.splits Option.bind_splits sum.splits prod.splits
        dest!: call_neutral [where f = f])
  from Cons show ?case by (auto split: Option.bind_splits sum.splits dest!: step)
qed simp

lemma process_events_neutral:
  assumes n: "block_neutral api f" and "process_events api ws t atts ids result w = (ts, w')"
  shows "f (iox w') = f (iox w)"
  using assms(2)
proof (induction ids arbitrary: result w)
  case (Cons i ids)
  have step: "f (iox w1) = f (iox w)" if "process_trigger api ws k j w = (r, w1)" for k j r w1
    using that block_neutralD(4) [OF n]
    by (auto simp: process_trigger_def split: option.splits sum.splits prod.splits dest!: call_neutral [where f = f])
  from Cons show ?case by (auto split: if_splits option.splits sum.splits prod.splits dest!: step)
qed simp

lemma wait_context_dtor_neutral: "block_neutral api f \<Longrightarrow> f (wait_context_dtor api atts t i) = f i"
proof -
  assume n: "block_neutral api f"
  have "f (fold (\<lambda>a. guard_drop api (att_guard a)) atts i) = f i" for i
    by (induction atts arbitrary: i) (simp_all add: block_neutralD(5) [OF n])
  with n show ?thesis by (simp add: wait_context_dtor_def drop_opt_def block_neutralD(5) split: option.split)
qed

lemma WaitSet_wait_neutral:
  assumes n: "block_neutral api f" and w: "WaitSet_wait api t ws w = Some (r, w')"
  shows "f (iox w') = f (iox w)"
proof (cases "ws_mapping ws = [] \<and> (zero_timeout t \<or> no_timeout t)")
  case True
  with w show ?thesis by (auto simp: WaitSet_wait_def split: if_splits)
next
  case False
  have timeout: "f (iox w1) = f (iox w)" if "attach_timeout api d ws w = Some (x, at, w1)" for d x at w1
    using that block_neutralD(2) [OF n]
    by (auto simp: attach_timeout_def split: Option.bind_splits sum.splits prod.splits dest!: call_neutral [where f = f])
  from w False obtain x at w1 where t: "(case t of Some d \<Rightarrow> attach_timeout api d ws w | None \<Rightarrow> Some (Inr (), None, w)) = Some (x, at, w1)"
    by (auto simp: WaitSet_wait_def split: Option.bind_splits if_splits)
  then have same: "f (iox w1) = f (iox w)" by (auto split: option.splits dest: timeout)
  show ?thesis
    using w False same block_neutralD(3) [OF n] wait_context_dtor_neutral [OF n]
    by (auto simp: WaitSet_wait_def t Let_def
        split: Option.bind_splits if_splits sum.splits prod.splits
        dest!: call_neutral [where f = f] attach_mapped_listeners_neutral [OF n] process_events_neutral [OF n])
qed

lemma mapping_loops_neutral:
  fixes w :: "('i, 'm) world"
  assumes n: "wait_neutral api f"
  shows "map_guard_conditions api q i ps w = Some (early, w') \<Longrightarrow> f (iox w') = f (iox w)"
    and "map_subscriptions api q i ps w = Some (early, w') \<Longrightarrow> f (iox w') = f (iox w)"
proof -
  have st: "f (iox v') = f (iox v)" if "store WaitSetObj q x v = Some v'" for x and v v' :: "('i, 'm) world"
    using that by (auto simp: store_def split: option.splits)
  have cast: "iox v' = iox v" if "unsafe_cast p v = (x, v')" for p x and v v' :: "('i, 'm) world"
    using that by (auto simp: unsafe_cast_def split: if_splits)
  note steps = st WaitSet_map_neutral [OF n] cast
  show "map_guard_conditions api q i ps w = Some (early, w') \<Longrightarrow> f (iox w') = f (iox w)"
    by (induction ps arbitrary: i w)
      (auto simp: WaitSet_map_guard_condition_def fail_def split: sum.splits prod.splits Option.bind_splits dest!: steps)
  show "map_subscriptions api q i ps w = Some (early, w') \<Longrightarrow> f (iox w') = f (iox w)"
    by (induction ps arbitrary: i w)
      (auto simp: WaitSet_map_subscriber_def fail_def split: sum.splits prod.splits Option.bind_splits dest!: steps)
qed

lemma rmw_wait_neutral:
  fixes w :: "('i, 'm) world"
  assumes n: "wait_neutral api f" and p: "wait_set_ready p q ws w" and a: "args_ready api ws w args gs ss"
    and m: "mapping_phase api args q w = Some (early, w1)" and r: "rmw_wait api args p t w = Some (r, w')"
  shows "f (iox w') = f (iox w)"
proof -
  have same: "f (iox w1) = f (iox w)"
    using m by (auto simp: mapping_phase_def split: Option.bind_splits option.splits dest!: mapping_loops_neutral [OF n])
  have phase: "f (iox v') = f (iox v)" if "wait_phase api args q d v = Some (x, v')" for d x v v'
    using that by (auto simp: wait_phase_def fail_def store_def split: Option.bind_splits option.splits sum.splits
        dest!: WaitSet_wait_neutral [OF wait_neutralD(1) [OF n]])
  with r same show ?thesis
    by (cases r) (auto simp: rmw_wait_phases [OF p a m] split: option.splits dest!: phase)
qed

end
