(* ===== verification/Wait_Listening.thy ===== *)
theory Wait_Listening
  imports Rmw_Wait_Delivery Wait_Frame
begin

text \<open>
  Which listeners a notification reaches. A wait set creates the listener of a service in the first wait that names
  it; from then on it is told what is notified on that service, and not before.
\<close>

section \<open>Listeners and their services\<close>

text \<open>
  \<open>listening i\<close> pairs the listeners that exist with the names of their event services. A listener is new when it is
  created, on the service that was opened for it, and nothing else a wait uses creates or removes one.
\<close>

definition listening_contract :: "'i iox2 \<Rightarrow> ('i \<Rightarrow> (nat \<times> string) set) \<Rightarrow> bool" where
  "listening_contract api listening \<longleftrightarrow>
     block_neutral api listening \<and>
     (\<forall>inst s n x i j. service_name_create api s = Inr n \<longrightarrow> event_open_or_create api inst n i = (Inr x, j) \<longrightarrow>
        listening j = listening i \<and>
        (\<forall>l j'. listener_create api x j = (Inr l, j') \<longrightarrow>
           l \<notin> fst ` listening i \<and> listening j' = insert (l, s) (listening i)))"

lemma listening_contractD:
  assumes "listening_contract api listening"
  shows "block_neutral api listening"
    and "service_name_create api s = Inr n \<Longrightarrow> event_open_or_create api inst n i = (Inr x, j) \<Longrightarrow>
      listener_create api x j = (Inr l, j') \<Longrightarrow>
      l \<notin> fst ` listening i \<and> listening j' = insert (l, s) (listening i)"
  using assms unfolding listening_contract_def by (blast, meson)

lemma live_listening_contract: "listening_contract live_api (\<lambda>i. set (lv_listeners i))"
proof -
  have "fresh (map fst (lv_listeners i) @ lv_pending i) \<notin> fst ` set (lv_listeners i)" for i
    using fresh_notin [of "map fst (lv_listeners i) @ lv_pending i"] by auto
  then show ?thesis
    by (auto simp: listening_contract_def block_neutral_def live_api_def lv_listen_def lv_attach_def Let_def)
qed

text \<open>The listeners a wait set stores are those it created for their services.\<close>

definition listens :: "(nat \<times> string) set \<Rightarrow> waitset_impl \<Rightarrow> bool" where
  "listens L ws \<longleftrightarrow> single_valued L \<and> (\<forall>k s l. stored_listener k s ws = Some l \<longrightarrow> (l, s) \<in> L)"

lemma listens_service:
  "listens L ws \<Longrightarrow> stored_listener k s ws = Some l \<Longrightarrow> (l, s') \<in> L \<longleftrightarrow> s' = s"
  by (auto simp: listens_def dest: single_valuedD)

text \<open>Waiting keeps that, and leaves the listeners of other services than the named ones alone.\<close>

definition listens_still ::
  "('i \<Rightarrow> (nat \<times> string) set) \<Rightarrow> (waitable_entity \<Rightarrow> string set) \<Rightarrow> waitset_impl \<Rightarrow> waitset_impl \<Rightarrow> 'i \<Rightarrow> bool" where
  "listens_still listening named ws ws' i \<longleftrightarrow>
     listens (listening i) ws' \<and> (\<forall>k s. s \<notin> named k \<longrightarrow> stored_listener k s ws' = stored_listener k s ws)"

lemma listens_still_same:
  "(\<And>k s. stored_listener k s ws2 = stored_listener k s ws1) \<Longrightarrow> listening j = listening i \<Longrightarrow>
   listens_still listening named ws ws1 i \<Longrightarrow> listens_still listening named ws ws2 j"
  by (simp add: listens_still_def listens_def)

lemma get_storage_index_listens:
  fixes w :: "('i, 'm) world"
  assumes c: "event_contract api waitset attached pending" and lc: "listening_contract api listening"
    and L: "listens_still listening named ws0 ws (iox w)" and s: "s \<in> named k"
    and get: "get_storage_index api ctx k s ws w = Some (r, ws', w')"
  shows "listens_still listening named ws0 ws' (iox w')"
proof (cases "s \<in> set (listener_names k ws)")
  case True
  with ls.get_stored [OF True get] L show ?thesis by auto
next
  case False
  then have none: "find_index (\<lambda>l. ld_service_name l = s) (listener_storage k ws) = None"
    unfolding listener_names_iff by blast
  from get none obtain ctx' handle inst name where open':
    "ctx = Some ctx'" "Context_iox2 ctx' = Some handle"
    "Iceoryx2_service_builder api (listener_service_type k) handle s = Some (inst, name)"
    by (auto simp: get_storage_index_def Let_def split: Option.bind_splits)
  then have name: "service_name_create api s = Inr name"
    by (auto simp: Iceoryx2_service_builder_def split: Option.bind_splits sum.splits)
  obtain x j where x: "event_open_or_create api inst name (iox w) = (Inr x, j)"
    using event_contractD(6) [OF c] by metis
  obtain l j' where l: "listener_create api x j = (Inr l, j')"
    using event_contractD(7) [OF c] by metis
  note new = listening_contractD(2) [OF lc name x l]
  have "ws' = set_listener_storage k (listener_storage k ws @ [\<lparr>ld_service_name = s, ld_listener = l\<rparr>]) ws" "iox w' = j'"
    using get none open' x l by (auto simp: get_storage_index_def Let_def call_def split: if_splits)
  with L s new stored_listener_add [OF False] show ?thesis
    by (auto simp: listens_still_def listens_def single_valued_def split: if_splits) (force simp: image_iff)+
qed

lemma WaitSet_map_listens:
  fixes w :: "('i, 'm) world"
  assumes c: "event_contract api waitset attached pending" "listening_contract api listening"
    and L: "listens_still listening named ws0 ws (iox w)" and s: "s \<in> named k"
    and m: "WaitSet_map api ctx k idx s ws w = Some (r, ws', w')"
  shows "listens_still listening named ws0 ws' (iox w')"
  using m
proof (cases rule: WaitSet_map_cases)
  case (1 e)
  with get_storage_index_listens [OF c L s] show ?thesis by blast
next
  case (2 i ws1)
  from get_storage_index_listens [OF c L s 2(2)] show ?thesis
    by (rule listens_still_same [rotated 2]) (simp_all add: 2(3))
qed

section \<open>Mapping\<close>

definition listens_at ::
  "('i \<Rightarrow> (nat \<times> string) set) \<Rightarrow> (waitable_entity \<Rightarrow> string set) \<Rightarrow> ptr \<Rightarrow> waitset_impl \<Rightarrow>
   ('i, 'm) world \<Rightarrow> ('i, 'm) world \<Rightarrow> bool" where
  "listens_at listening named q ws0 w0 w \<longleftrightarrow>
     (\<exists>ws. heap w = (heap w0)(q \<mapsto> WaitSetObj ws) \<and> listens_still listening named ws0 ws (iox w))"

lemma map_guard_conditions_listens:
  fixes w w0 :: "('i, 'm) world"
  assumes c: "event_contract api waitset attached pending" "listening_contract api listening"
    and h0: "heap w0 q = Some (WaitSetObj ws0)" and named: "\<And>p s. p \<in> set ps \<Longrightarrow> guard_service w0 p = Some s \<Longrightarrow> s \<in> named GUARD_CONDITION"
    and "map_guard_conditions api q i ps w = Some (early, w')" and "listens_at listening named q ws0 w0 w" and "nullptr \<notin> set ps"
  shows "listens_at listening named q ws0 w0 w'"
  using named assms(5-)
proof (induction ps arbitrary: i w)
  case Nil
  then show ?case by simp
next
  case (Cons p ps)
  from Cons.prems(3) obtain ws where h: "heap w = (heap w0)(q \<mapsto> WaitSetObj ws)" "listens_still listening named ws0 ws (iox w)"
    by (auto simp: listens_at_def)
  then have hq: "heap w q = Some (WaitSetObj ws)" by simp
  from Cons.prems(2,4) hq obtain g :: guard_condition and r ws1 w1 w2 where g: "load_guard_condition p w = Some g" and m:
    "WaitSet_map api (load as_context_impl (ws_context ws) w) GUARD_CONDITION i (gc_service_name g) ws w = Some (r, ws1, w1)"
    "store WaitSetObj q ws1 w1 = Some w2"
    "(case r of Inl _ \<Rightarrow> fail (Some RMW_RET_ERROR) ''failed to attach GuardCondition to WaitSet'' w2
      | Inr _ \<Rightarrow> map_guard_conditions api q (Suc i) ps w2) = Some (early, w')"
    by (auto simp: unsafe_cast_ok WaitSet_map_guard_condition_def waitset_obj.load_iff split: Option.bind_splits)
  have "guard_service w0 p = Some (gc_service_name g)" using g services_other(1) [OF h(1) h0] by (metis service_Some(1))
  then have "gc_service_name g \<in> named GUARD_CONDITION" by (rule Cons.prems(1) [OF list.set_intros(1)])
  from WaitSet_map_listens [OF c h(2) this m(1)] have L: "listens_still listening named ws0 ws1 (iox w1)" .
  have "heap w1 = heap w" using world_more [OF WaitSet_map_frame(1) [OF m(1)]] by simp
  with m(2) h(1) have "heap w2 = (heap w0)(q \<mapsto> WaitSetObj ws1)" "iox w2 = iox w1"
    by (auto simp: store_def split: option.splits)
  with L have at: "listens_at listening named q ws0 w0 w2" by (auto simp: listens_at_def)
  with Cons.IH [OF _ _ at] m(3) Cons.prems(1,4) show ?case
    by (cases r) (auto simp: fail_def listens_at_def)
qed

lemma map_subscriptions_listens:
  fixes w w0 :: "('i, 'm) world"
  assumes c: "event_contract api waitset attached pending" "listening_contract api listening"
    and h0: "heap w0 q = Some (WaitSetObj ws0)" and named: "\<And>p s. p \<in> set ps \<Longrightarrow> subscriber_service w0 p = Some s \<Longrightarrow> s \<in> named SUBSCRIBER"
    and "map_subscriptions api q i ps w = Some (early, w')" and "listens_at listening named q ws0 w0 w" and "nullptr \<notin> set ps"
  shows "listens_at listening named q ws0 w0 w'"
  using named assms(5-)
proof (induction ps arbitrary: i w)
  case Nil
  then show ?case by simp
next
  case (Cons p ps)
  from Cons.prems(3) obtain ws where h: "heap w = (heap w0)(q \<mapsto> WaitSetObj ws)" "listens_still listening named ws0 ws (iox w)"
    by (auto simp: listens_at_def)
  then have hq: "heap w q = Some (WaitSetObj ws)" by simp
  from Cons.prems(2,4) hq obtain g :: subscriber_impl and r ws1 w1 w2 where g: "load as_subscriber_impl p w = Some g" and m:
    "WaitSet_map api (load as_context_impl (ws_context ws) w) SUBSCRIBER i (sub_service_name g) ws w = Some (r, ws1, w1)"
    "store WaitSetObj q ws1 w1 = Some w2"
    "(case r of Inl _ \<Rightarrow> fail (Some RMW_RET_ERROR) ''failed to attach Subscriber to WaitSet'' w2
      | Inr _ \<Rightarrow> map_subscriptions api q (Suc i) ps w2) = Some (early, w')"
    by (auto simp: unsafe_cast_ok WaitSet_map_subscriber_def waitset_obj.load_iff split: Option.bind_splits)
  have "subscriber_service w0 p = Some (sub_service_name g)" using g services_other(2) [OF h(1) h0] by (metis service_Some(2))
  then have "sub_service_name g \<in> named SUBSCRIBER" by (rule Cons.prems(1) [OF list.set_intros(1)])
  from WaitSet_map_listens [OF c h(2) this m(1)] have L: "listens_still listening named ws0 ws1 (iox w1)" .
  have "heap w1 = heap w" using world_more [OF WaitSet_map_frame(1) [OF m(1)]] by simp
  with m(2) h(1) have "heap w2 = (heap w0)(q \<mapsto> WaitSetObj ws1)" "iox w2 = iox w1"
    by (auto simp: store_def split: option.splits)
  with L have at: "listens_at listening named q ws0 w0 w2" by (auto simp: listens_at_def)
  with Cons.IH [OF _ _ at] m(3) Cons.prems(1,4) show ?case
    by (cases r) (auto simp: fail_def listens_at_def)
qed

lemma mapping_phase_listens:
  fixes w :: "('i, 'm) world"
  assumes c: "event_contract api waitset attached pending" "listening_contract api listening"
    and a: "args_ready api ws w args gs ss" and h: "heap w q = Some (WaitSetObj ws)" and L: "listens (listening (iox w)) ws"
    and m: "mapping_phase api args q w = Some (early, w')"
  shows "listens_at listening (\<lambda>k. set (services_of gs ss k)) q ws w w'"
proof -
  let ?N = "\<lambda>k. set (services_of gs ss k)"
  have nn: "nullptr \<notin> set (the_array (wa_guard_conditions args))" "nullptr \<notin> set (the_array (wa_subscriptions args))"
    using a by (simp_all add: args_ready_def entities_ready_def)
  have named: "s \<in> set ns" if "map f ps = map Some ns" "p \<in> set ps" "f p = Some s" for f :: "ptr \<Rightarrow> string option" and ps ns p s
    using that by (metis image_eqI image_iff list.set_map option.inject)
  have gs: "s \<in> ?N GUARD_CONDITION" if "p \<in> set (the_array (wa_guard_conditions args))" "guard_service w p = Some s" for p s
    using a named [of "guard_service w" _ gs p s] that by (auto simp: args_ready_def entities_ready_def services_of_def)
  have ss: "s \<in> ?N SUBSCRIBER" if "p \<in> set (the_array (wa_subscriptions args))" "subscriber_service w p = Some s" for p s
    using a named [of "subscriber_service w" _ ss p s] that by (auto simp: args_ready_def entities_ready_def services_of_def)
  have start: "listens_at listening ?N q ws w w"
    using L h unfolding listens_at_def by (intro exI [of _ ws]) (simp add: listens_still_def fun_upd_idem)
  from m obtain e1 w1 where m1: "(case wa_guard_conditions args of None \<Rightarrow> Some (None, w)
      | Some gs \<Rightarrow> map_guard_conditions api q 0 gs w) = Some (e1, w1)"
    "(case e1 of Some code \<Rightarrow> Some (Some code, w1) | None \<Rightarrow> (case wa_subscriptions args of
         None \<Rightarrow> Some (None, w1) | Some ss \<Rightarrow> map_subscriptions api q 0 ss w1)) = Some (early, w')"
    by (auto simp: mapping_phase_def split: Option.bind_splits)
  have at1: "listens_at listening ?N q ws w w1"
  proof (cases "wa_guard_conditions args")
    case None
    with m1(1) start show ?thesis by simp
  next
    case (Some ps)
    with m1(1) nn(1) gs map_guard_conditions_listens [OF c h _ _ start, of ps 0 e1 w1] show ?thesis by (simp add: the_array_def)
  qed
  show ?thesis
  proof (cases "wa_subscriptions args")
    case None
    with m1(2) at1 show ?thesis by (auto split: option.splits)
  next
    case (Some ps)
    with m1(2) nn(2) ss at1 map_subscriptions_listens [OF c h _ _ at1, of ps 0 early w'] show ?thesis
      by (auto simp: the_array_def split: option.splits)
  qed
qed

text \<open>So a wait that returns leaves a wait set whose listeners are known.\<close>

lemma rmw_wait_listens:
  fixes w :: "('i, 'm) world"
  assumes c: "event_contract api waitset attached pending" "listening_contract api listening"
    and p: "wait_set_ready p q ws w" "ws_mapping ws = []" and a: "args_ready api ws w args gs ss"
    and L: "listens (listening (iox w)) ws"
    and r: "rmw_wait api args p t w = Some (x, w')" and h': "heap w' q = Some (WaitSetObj ws')"
  shows "listens_still listening (\<lambda>k. set (services_of gs ss k)) ws ws' (iox w')"
proof -
  let ?S = "listens_still listening (\<lambda>k. set (services_of gs ss k)) ws"
  have h: "heap w q = Some (WaitSetObj ws)" using p by (simp add: wait_set_ready_def)
  obtain early w1 where m: "mapping_phase api args q w = Some (early, w1)"
    using mapping_phase_done [OF p a] by blast
  from mapping_phase_listens [OF c a h L m] obtain ws1 where
    ws1: "heap w1 q = Some (WaitSetObj ws1)" "?S ws1 (iox w1)"
    by (auto simp: listens_at_def)
  show ?thesis
  proof (cases early)
    case (Some code)
    with r h' ws1 show ?thesis by (simp add: rmw_wait_phases [OF p(1) a m])
  next
    case None
    with r have "wait_phase api args q (timeout_of api t) w1 = Some (x, w')" by (simp add: rmw_wait_phases [OF p(1) a m])
    then obtain y w2 where y: "WaitSet_wait api (timeout_of api t) ws1 w1 = Some (y, w2)"
      and end': "(case y of Inl _ \<Rightarrow> fail (RMW_RET_ERROR, args) ''waiting on waitset failed'' w2
        | Inr triggers \<Rightarrow> do { w \<leftarrow> store WaitSetObj q (unmap_all ws1) w2; Some (process_triggers triggers args, w) }) = Some (x, w')"
      using ws1(1) by (auto simp: wait_phase_def load_def split: Option.bind_splits)
    have w2: "listening (iox w2) = listening (iox w1)" "heap w2 = heap w1"
      using WaitSet_wait_neutral [OF listening_contractD(1) [OF c(2)] y] world_more [OF WaitSet_wait_more [OF y]] by simp_all
    have same: "listening (iox w') = listening (iox w1) \<and> (ws' = ws1 \<or> ws' = unmap_all ws1)"
    proof (cases y)
      case (Inl e)
      with end' have "w' = chain ''waiting on waitset failed'' w2" by (simp add: fail_def)
      with w2 h' ws1(1) show ?thesis by simp
    next
      case (Inr ts)
      with end' w2(2) ws1(1) have "w' = w2\<lparr>heap := (heap w2)(q \<mapsto> WaitSetObj (unmap_all ws1))\<rparr>"
        by (simp add: store_def)
      with w2 h' show ?thesis by simp
    qed
    have "stored_listener k s ws' = stored_listener k s ws1" for k s using same by (elim conjE disjE) simp_all
    from listens_still_same [OF this conjunct1 [OF same] ws1(2)] show ?thesis .
  qed
qed

section \<open>On the middleware that transports\<close>

text \<open>A wait set that was just created.\<close>

definition live_fresh_waitset :: waitset_impl where
  "live_fresh_waitset =
     \<lparr>ws_context = 4, ws_waitset = Some 9, ws_guard_condition_listeners = [], ws_subscriber_listeners = [], ws_mapping = []\<rparr>"

lemma live_fresh_waitset_simps [simp]:
  "waitset_wf live_fresh_waitset" "stored_listener k s live_fresh_waitset = None"
  "ws_mapping live_fresh_waitset = []" "ws_waitset live_fresh_waitset = Some 9" "ws_context live_fresh_waitset = 4"
  by (cases k; simp add: waitset_wf_def stored_listener_def live_fresh_waitset_def listener_names_def listener_storage_def
      split: waitable_entity.split)+

end
