(* ===== verification/Rmw_Topic.thy ===== *)
theory Rmw_Topic
  imports Rmw_Channel Wait_Listening
begin

text \<open>
  A topic with a publisher, a subscription and a wait set: publishing, taking, waiting and polling implement a
  queue of messages with a flag. There is no flag before the first wait, which creates the listener. From then
  on publishing raises the flag, a wait that reports the subscription lowers it, and taking does not look at it.
\<close>

section \<open>The topic\<close>

text \<open>Besides the channel: the wait set's handle and object, the address of the subscriber, and its service.\<close>

record 'm topic = "'m channel" +
  tp_wait_set :: ptr
  tp_wait_set_data :: ptr
  tp_waitset :: nat
  tp_subscriber :: ptr
  tp_service :: string

definition channel_of :: "'m topic \<Rightarrow> 'm channel" where
  "channel_of c = channel.truncate c"

text \<open>The arrays of a wait for this one subscription.\<close>

definition subscription_only :: "ptr \<Rightarrow> wait_args" where
  "subscription_only a = \<lparr>wa_subscriptions = Some [a], wa_guard_conditions = None, wa_services = None,
     wa_clients = None, wa_events = None\<rparr>"

text \<open>
  The contracts of the channel, of events and of listeners together: publishing notifies the listeners that exist
  then on the service of the topic, and what a wait uses leaves the channel alone.
\<close>

definition topic_contract ::
  "'i iox2 \<Rightarrow> 'm topic \<Rightarrow> ('i \<Rightarrow> ptr set) \<Rightarrow> ('i \<Rightarrow> ptr set) \<Rightarrow> ('i \<Rightarrow> u8 list list) \<Rightarrow>
   ('i \<Rightarrow> (nat \<times> nat option) set) \<Rightarrow> ('i \<Rightarrow> nat set) \<Rightarrow> ('i \<Rightarrow> (nat \<times> string) set) \<Rightarrow> nat \<Rightarrow> bool" where
  "topic_contract api c loaned held queue attached pending listening capacity \<longleftrightarrow>
     channel_contract api (channel_of c) loaned held queue
       (\<lambda>(P, L). (P \<union> {l. (l, tp_service c) \<in> L}, L)) (\<lambda>i. (pending i, listening i)) capacity \<and>
     event_contract api (tp_waitset c) attached pending \<and> listening_contract api listening \<and>
     wait_neutral api loaned \<and> wait_neutral api held \<and> wait_neutral api queue \<and>
     timeout_of api (Some (0, 0)) = Some 0"

definition topic_up ::
  "'i iox2 \<Rightarrow> 'm ros_env \<Rightarrow> 'm topic \<Rightarrow> ('i \<Rightarrow> ptr set) \<Rightarrow> ('i \<Rightarrow> ptr set) \<Rightarrow> ('i \<Rightarrow> u8 list list) \<Rightarrow>
   ('i \<Rightarrow> (nat \<times> string) set) \<Rightarrow> 'm list \<Rightarrow> ('i, 'm) world \<Rightarrow> bool" where
  "topic_up api env c loaned held queue listening msgs w \<longleftrightarrow>
     channel_up env (channel_of c) loaned held queue msgs w \<and>
     (\<exists>ws. wait_set_ready (tp_wait_set c) (tp_wait_set_data c) ws w \<and> ws_mapping ws = [] \<and>
        ws_waitset ws = Some (tp_waitset c) \<and> listens (listening (iox w)) ws \<and>
        args_ready api ws w (subscription_only (tp_subscriber c)) [] [tp_service c])"

text \<open>Whether the listener the wait set stores for the topic has a notification; \<open>None\<close> when it stores none.\<close>

definition topic_flag :: "'m topic \<Rightarrow> ('i \<Rightarrow> nat set) \<Rightarrow> ('i, 'm) world \<Rightarrow> bool option" where
  "topic_flag c pending w =
     (case load as_waitset_impl (tp_wait_set_data c) w of
        None \<Rightarrow> None
      | Some ws \<Rightarrow> map_option (\<lambda>l. l \<in> pending (iox w)) (stored_listener SUBSCRIBER (tp_service c) ws))"

section \<open>The abstract topic\<close>

text \<open>An untimed wait and a poll, which is a wait with a timeout of zero.\<close>

datatype topic_op = Channel channel_op | Wait | Poll

fun topic_call ::
  "'i iox2 \<Rightarrow> 'm ros_env \<Rightarrow> 'm topic \<Rightarrow> topic_op \<Rightarrow> ('i, 'm) world \<Rightarrow>
   (((rmw_ret \<times> bool option) + (rmw_ret \<times> wait_args)) \<times> ('i, 'm) world) option" where
  "topic_call api env c (Channel x) w = do { (r, w) \<leftarrow> channel_call api env (channel_of c) x w; Some (Inl r, w) }"
| "topic_call api env c Wait w =
     do { (r, w) \<leftarrow> rmw_wait api (subscription_only (tp_subscriber c)) (tp_wait_set c) None w; Some (Inr r, w) }"
| "topic_call api env c Poll w =
     do { (r, w) \<leftarrow> rmw_wait api (subscription_only (tp_subscriber c)) (tp_wait_set c) (Some (0, 0)) w; Some (Inr r, w) }"

text \<open>
  The state: the messages that wait, the messages in memory, and the flag. Publishing raises a flag that is there;
  waiting leaves it down, and makes it where there was none.
\<close>

fun topic_step ::
  "ptr \<Rightarrow> topic_op \<Rightarrow> ('m list \<times> (ptr \<rightharpoonup> 'm)) \<times> bool option \<Rightarrow>
   ((rmw_ret \<times> bool option) + (rmw_ret \<times> wait_args)) \<times> ('m list \<times> (ptr \<rightharpoonup> 'm)) \<times> bool option" where
  "topic_step a (Channel x) (q, flag) =
     (Inl (fst (queue_step x q)), snd (queue_step x q),
      (case x of Publish _ \<Rightarrow> map_option (\<lambda>_. True) flag | Take _ \<Rightarrow> flag))"
| "topic_step a Wait (q, flag) = (Inr (RMW_RET_OK, subscription_only a), q, Some False)"
| "topic_step a Poll (q, flag) = (Inr (RMW_RET_TIMEOUT, subscription_only a), q, Some False)"

text \<open>Without a raised flag a wait would block; with one, a poll may report it or not.\<close>

fun topic_may :: "'m ros_env \<Rightarrow> 'm topic \<Rightarrow> nat \<Rightarrow> topic_op \<Rightarrow> ('m list \<times> (ptr \<rightharpoonup> 'm)) \<times> bool option \<Rightarrow> bool" where
  "topic_may env c capacity (Channel x) (q, flag) \<longleftrightarrow> channel_may env (channel_of c) capacity x q"
| "topic_may env c capacity Wait (q, flag) \<longleftrightarrow> flag = Some True"
| "topic_may env c capacity Poll (q, flag) \<longleftrightarrow> flag \<noteq> Some True"

definition topic_related ::
  "'i iox2 \<Rightarrow> 'm ros_env \<Rightarrow> 'm topic \<Rightarrow> ('i \<Rightarrow> ptr set) \<Rightarrow> ('i \<Rightarrow> ptr set) \<Rightarrow> ('i \<Rightarrow> u8 list list) \<Rightarrow>
   ('i \<Rightarrow> (nat \<times> nat option) set) \<Rightarrow> ('i \<Rightarrow> nat set) \<Rightarrow> ('i \<Rightarrow> (nat \<times> string) set) \<Rightarrow> nat \<Rightarrow>
   ('m list \<times> (ptr \<rightharpoonup> 'm)) \<times> bool option \<Rightarrow> ('i, 'm) world \<Rightarrow> bool" where
  "topic_related api env c loaned held queue attached pending listening capacity a w \<longleftrightarrow>
     topic_contract api c loaned held queue attached pending listening capacity \<and>
     topic_up api env c loaned held queue listening (fst (fst a)) w \<and> messages w = snd (fst a) \<and>
     topic_flag c pending w = snd a"

section \<open>Publishing and taking leave the wait set alone\<close>

lemma topic_up_objects:
  fixes w w' :: "('i, 'm) world"
  assumes up: "topic_up api env c loaned held queue listening msgs w" and k: "objects_kept w w'"
    and ch: "channel_up env (channel_of c) loaned held queue msgs' w'"
    and same: "listening (iox w') = listening (iox w)"
  shows "topic_up api env c loaned held queue listening msgs' w'"
    and "heap w' (tp_wait_set_data c) = heap w (tp_wait_set_data c)"
proof -
  from up obtain ws where ws: "wait_set_ready (tp_wait_set c) (tp_wait_set_data c) ws w" "ws_mapping ws = []"
    "ws_waitset ws = Some (tp_waitset c)" "listens (listening (iox w)) ws"
    and a: "args_ready api ws w (subscription_only (tp_subscriber c)) [] [tp_service c]"
    by (auto simp: topic_up_def)
  have kept: "heap w' (tp_wait_set c) = heap w (tp_wait_set c)" "heap w' (tp_wait_set_data c) = heap w (tp_wait_set_data c)"
    using k ws(1) unfolding objects_kept_def wait_set_ready_def by (metis like_object.simps(4-))+
  then have "wait_set_ready (tp_wait_set c) (tp_wait_set_data c) ws w'"
    using ws(1) by (simp add: wait_set_ready_def)
  moreover have "args_ready api ws w' (subscription_only (tp_subscriber c)) [] [tp_service c]"
  proof -
    from a obtain s x where s: "heap w (tp_subscriber c) = Some (SubscriberObj s)" "sub_service_name s = tp_service c"
      and x: "heap w (ws_context ws) = Some (ContextObj x)" and nn: "tp_subscriber c \<noteq> nullptr"
      and cf: "context_for api (Some x) (tp_service c)"
      by (auto simp: args_ready_def subscription_only_def the_array_def service_Some context_for_def wait_context_of_def
          subscriber_obj.load_iff context_obj.load_iff)
    from k s(1) obtain ob where "heap w' (tp_subscriber c) = Some ob" "like_object (SubscriberObj s) ob"
      unfolding objects_kept_def by blast
    then obtain s' where "heap w' (tp_subscriber c) = Some (SubscriberObj s')" "sub_service_name s' = tp_service c"
      using s(2) by (cases ob) auto
    moreover have "heap w' (ws_context ws) = Some (ContextObj x)"
      using k x unfolding objects_kept_def by (metis like_object.simps(4-))
    ultimately show ?thesis
      using nn cf by (simp add: args_ready_def subscription_only_def the_array_def service_Some wait_context_of_def
          subscriber_obj.load_iff context_obj.load_iff [THEN iffD2])
  qed
  ultimately show "topic_up api env c loaned held queue listening msgs' w'"
    using ws(2-4) ch same by (auto simp: topic_up_def)
  show "heap w' (tp_wait_set_data c) = heap w (tp_wait_set_data c)" by (rule kept(2))
qed

section \<open>Waiting leaves the channel alone\<close>

lemma channel_up_wait:
  fixes w w' :: "('i, 'm) world"
  assumes "channel_up env c loaned held queue msgs w" and h: "heap w q = Some (WaitSetObj ws)"
    "heap w' = (heap w)(q \<mapsto> WaitSetObj ws')"
    and same: "loaned (iox w') = loaned (iox w)" "held (iox w') = held (iox w)" "queue (iox w') = queue (iox w)"
  shows "channel_up env c loaned held queue msgs w' \<and> messages w' = messages w"
proof (rule channel_upE [OF assms(1)], goal_cases)
  case (1 ph i sh s)
  have "publisher_ready loaned (ch_publisher_port c) (ch_publisher c) ph i w'"
    using 1(1) h same by (auto simp: publisher_ready_def publisher_balanced_def)
  moreover have "subscription_ready held (ch_subscriber_port c) (ch_subscription c) sh s w'"
    using 1(6) h same by (auto simp: subscription_ready_def subscriber_balanced_def)
  moreover have "\<forall>a. odd a \<or> a = nullptr \<longrightarrow> heap w' a = None" using assms(1) h by (auto simp: channel_up_def)
  ultimately have "channel_up env c loaned held queue msgs w'"
    unfolding channel_up_def using 1(2-5,7-14) same
    by (intro conjI exI [of _ ph] exI [of _ i] exI [of _ sh] exI [of _ s]) simp_all
  moreover have "messages w' = messages w" by (rule messages_other [OF h(2,1)]) simp_all
  ultimately show ?thesis by simp
qed

text \<open>
  Either way of waiting gives back a topic that is up, with a listener: the one that was there, or a new one
  without a notification. What it reports is left to the caller.
\<close>

lemma topic_up_wait:
  fixes w :: "('i, 'm) world"
  assumes ct: "topic_contract api c loaned held queue attached pending listening capacity"
    and up: "topic_up api env c loaned held queue listening msgs w"
  shows "\<exists>R P args' ws' l w'.
    rmw_wait api (subscription_only (tp_subscriber c)) (tp_wait_set c) t w =
      Some ((if R = {} then RMW_RET_TIMEOUT else RMW_RET_OK, args'), w') \<and>
    R \<subseteq> notified [] [tp_service c] ws' P \<and> (t = None \<longrightarrow> R = notified [] [tp_service c] ws' P) \<and>
    arrays_kept (subscription_only (tp_subscriber c)) [] [tp_service c] R args' \<and>
    pending (iox w) \<subseteq> P \<and> (timeout_of api t = Some 0 \<or> no_arrivals api (tp_waitset c) pending \<longrightarrow> P = pending (iox w)) \<and>
    pending (iox w') = P - listeners_for ws' R \<and>
    stored_listener SUBSCRIBER (tp_service c) ws' = Some l \<and>
    (topic_flag c pending w = Some (l \<in> pending (iox w)) \<or> topic_flag c pending w = None \<and> l \<notin> pending (iox w)) \<and>
    topic_flag c pending w' = Some (l \<in> pending (iox w')) \<and>
    topic_up api env c loaned held queue listening msgs w' \<and> messages w' = messages w"
proof -
  let ?args = "subscription_only (tp_subscriber c)" and ?s = "tp_service c" and ?q = "tp_wait_set_data c"
  from up obtain ws where p: "wait_set_ready (tp_wait_set c) ?q ws w" "ws_mapping ws = []"
    and a: "args_ready api ws w ?args [] [?s]" and wsid: "ws_waitset ws = Some (tp_waitset c)"
    and L: "listens (listening (iox w)) ws"
    and ch: "channel_up env (channel_of c) loaned held queue msgs w"
    by (auto simp: topic_up_def)
  have c: "event_contract api (tp_waitset c) attached pending" "listening_contract api listening"
    and n: "wait_neutral api loaned" "wait_neutral api held" "wait_neutral api queue"
    using ct by (simp_all add: topic_contract_def)
  have ne: "[] @ [?s] \<noteq> [] \<or> t \<noteq> None" by simp
  from rmw_wait_reports [OF p a wsid c(1) ne] obtain R P args' ws' w' where
    r: "rmw_wait api ?args (tp_wait_set c) t w = Some ((if R = {} then RMW_RET_TIMEOUT else RMW_RET_OK, args'), w')"
    "R \<subseteq> notified [] [?s] ws' P" "t = None \<longrightarrow> R = notified [] [?s] ws' P" "arrays_kept ?args [] [?s] R args'"
    "pending (iox w) \<subseteq> P" "timeout_of api t = Some 0 \<or> no_arrivals api (tp_waitset c) pending \<longrightarrow> P = pending (iox w)"
    "pending (iox w') = P - listeners_for ws' R"
    and w': "heap w' = (heap w)(?q \<mapsto> WaitSetObj ws')" "waitset_wf ws'" "ws_mapping ws' = []"
      "ws_waitset ws' = ws_waitset ws" "ws_context ws' = ws_context ws"
    and st: "\<forall>k s. stored_listener k s ws' = stored_listener k s ws \<or>
       stored_listener k s ws = None \<and> (\<exists>l. stored_listener k s ws' = Some l \<and> l \<notin> pending (iox w))"
      "\<forall>k. \<forall>s \<in> set (services_of [] [?s] k). stored_listener k s ws' \<noteq> None"
    by (elim exE conjE) (rule that; assumption)
  from mapping_phase_done [OF p a] obtain early w1 where m: "mapping_phase api ?args ?q w = Some (early, w1)" by blast
  have h: "heap w ?q = Some (WaitSetObj ws)" using p(1) by (simp add: wait_set_ready_def)
  have "loaned (iox w') = loaned (iox w)" "held (iox w') = held (iox w)" "queue (iox w') = queue (iox w)"
    using rmw_wait_neutral [OF n(1) p(1) a m r(1)] rmw_wait_neutral [OF n(2) p(1) a m r(1)]
      rmw_wait_neutral [OF n(3) p(1) a m r(1)] by simp_all
  from channel_up_wait [OF ch h w'(1) this]
  have ch': "channel_up env (channel_of c) loaned held queue msgs w'" "messages w' = messages w" by simp_all
  have h': "heap w' ?q = Some (WaitSetObj ws')" using w'(1) by simp
  have L': "listens (listening (iox w')) ws'"
    using rmw_wait_listens [OF c p a L r(1) h'] by (simp add: listens_still_def)
  obtain l where l: "stored_listener SUBSCRIBER ?s ws' = Some l" using st(2) by (fastforce simp: services_of_def)
  have flag: "topic_flag c pending w = map_option (\<lambda>l. l \<in> pending (iox w)) (stored_listener SUBSCRIBER ?s ws)"
    "topic_flag c pending w' = Some (l \<in> pending (iox w'))"
    using h h' l by (simp_all add: topic_flag_def load_def)
  have old: "topic_flag c pending w = Some (l \<in> pending (iox w)) \<or> topic_flag c pending w = None \<and> l \<notin> pending (iox w)"
    using spec [OF spec [OF st(1)], of SUBSCRIBER ?s] l by (auto simp: flag(1))
  have "wait_set_ready (tp_wait_set c) ?q ws' w'" using p(1) w'(1,2) by (auto simp: wait_set_ready_def)
  moreover have "args_ready api ws' w' ?args [] [?s]"
    using a w'(5) load_other(3) [OF w'(1) h] services_other [OF w'(1) h] by (simp add: args_ready_def wait_context_of_def)
  ultimately have "topic_up api env c loaned held queue listening msgs w'"
    using ch'(1) w'(3,4) wsid L' unfolding topic_up_def by auto
  with r l flag(2) old ch'(2) show ?thesis
    by (intro exI [of _ R] exI [of _ P] exI [of _ args'] exI [of _ ws'] exI [of _ l] exI [of _ w'] conjI)
qed

text \<open>What an array of one subscription comes to.\<close>

lemma one_notified:
  "stored_listener SUBSCRIBER s ws = Some l \<Longrightarrow>
   notified [] [s] ws P = (if l \<in> P then {(SUBSCRIBER, s)} else {})"
  by (auto simp: notified_def services_of_def split: waitable_entity.splits)

lemma one_kept:
  assumes "arrays_kept (subscription_only a) [] [s] R args'" and "R = {} \<or> R = {(SUBSCRIBER, s)}"
  shows "args' = subscription_only a"
  using assms
  by (cases args') (auto simp: arrays_kept_def subscription_only_def keep_only_def is_first_def null_all_def)

lemma wait_one:
  fixes w :: "('i, 'm) world"
  assumes ct: "topic_contract api c loaned held queue attached pending listening capacity"
    and up: "topic_up api env c loaned held queue listening msgs w"
  shows "topic_flag c pending w = Some True \<Longrightarrow>
      \<exists>w'. topic_call api env c Wait w = Some (Inr (RMW_RET_OK, subscription_only (tp_subscriber c)), w') \<and>
        topic_up api env c loaned held queue listening msgs w' \<and> messages w' = messages w \<and> topic_flag c pending w' = Some False"
    and "topic_flag c pending w \<noteq> Some True \<Longrightarrow>
      \<exists>w'. topic_call api env c Poll w = Some (Inr (RMW_RET_TIMEOUT, subscription_only (tp_subscriber c)), w') \<and>
        topic_up api env c loaned held queue listening msgs w' \<and> messages w' = messages w \<and> topic_flag c pending w' = Some False"
proof -
  note wait = topic_up_wait [OF ct up]
  assume "topic_flag c pending w = Some True"
  with wait [of None] show "\<exists>w'. topic_call api env c Wait w = Some (Inr (RMW_RET_OK, subscription_only (tp_subscriber c)), w') \<and>
      topic_up api env c loaned held queue listening msgs w' \<and> messages w' = messages w \<and> topic_flag c pending w' = Some False"
    by (auto simp: one_notified listeners_for_def dest!: one_kept)
next
  note wait = topic_up_wait [OF ct up]
  have zero: "timeout_of api (Some (0, 0)) = Some 0" using ct by (simp add: topic_contract_def)
  assume "topic_flag c pending w \<noteq> Some True"
  with wait [of "Some (0, 0)"] zero show "\<exists>w'. topic_call api env c Poll w = Some (Inr (RMW_RET_TIMEOUT, subscription_only (tp_subscriber c)), w') \<and>
      topic_up api env c loaned held queue listening msgs w' \<and> messages w' = messages w \<and> topic_flag c pending w' = Some False"
    by (auto simp: one_notified listeners_for_def dest!: one_kept)
qed

text \<open>Publishing reaches the listener that is stored, taking nothing.\<close>

lemma channel_call_flag:
  fixes w :: "('i, 'm) world"
  assumes ct: "topic_contract api c loaned held queue attached pending listening capacity"
    and up: "topic_up api env c loaned held queue listening msgs w"
    and may: "channel_may env (channel_of c) capacity y (msgs, messages w)"
  shows "\<exists>w'. topic_call api env c (Channel y) w = Some (Inl (fst (queue_step y (msgs, messages w))), w') \<and>
    topic_up api env c loaned held queue listening (fst (snd (queue_step y (msgs, messages w)))) w' \<and>
    messages w' = snd (snd (queue_step y (msgs, messages w))) \<and>
    topic_flag c pending w' = (case y of Publish _ \<Rightarrow> map_option (\<lambda>_. True) (topic_flag c pending w) | Take _ \<Rightarrow> topic_flag c pending w)"
proof -
  have cc: "channel_contract api (channel_of c) loaned held queue
      (\<lambda>(P, L). (P \<union> {l. (l, tp_service c) \<in> L}, L)) (\<lambda>i. (pending i, listening i)) capacity"
    and cu: "channel_up env (channel_of c) loaned held queue msgs w"
    using ct up by (simp_all add: topic_contract_def topic_up_def)
  from channel_call_simulates [OF cc cu may] obtain w' where
    w': "channel_call api env (channel_of c) y w = Some (fst (queue_step y (msgs, messages w)), w')"
    "channel_up env (channel_of c) loaned held queue (fst (snd (queue_step y (msgs, messages w)))) w'"
    "messages w' = snd (snd (queue_step y (msgs, messages w)))" "objects_kept w w'"
    "(pending (iox w'), listening (iox w')) = (case y of
        Publish _ \<Rightarrow> (pending (iox w) \<union> {l. (l, tp_service c) \<in> listening (iox w)}, listening (iox w))
      | Take _ \<Rightarrow> (pending (iox w), listening (iox w)))"
    by auto
  have L: "listening (iox w') = listening (iox w)" using w'(5) by (simp split: channel_op.splits)
  note kept = topic_up_objects [OF up w'(4,2) L]
  from up obtain ws where ws: "heap w (tp_wait_set_data c) = Some (WaitSetObj ws)" "listens (listening (iox w)) ws"
    by (auto simp: topic_up_def wait_set_ready_def)
  have "topic_flag c pending w' = (case y of Publish _ \<Rightarrow> map_option (\<lambda>_. True) (topic_flag c pending w) | Take _ \<Rightarrow> topic_flag c pending w)"
    using w'(5) ws kept(2)
    by (cases "stored_listener SUBSCRIBER (tp_service c) ws")
      (auto simp: topic_flag_def load_def listens_def split: channel_op.splits)
  with w'(1,3) kept(1) show ?thesis by (intro exI [of _ w']) simp
qed

interpretation topic: simulation "topic_call api env c" "topic_step (tp_subscriber c)" "topic_may env c capacity"
    "topic_related api env c loaned held queue attached pending listening capacity"
  for api :: "'i iox2" and env :: "'m ros_env" and c loaned held queue attached pending listening capacity
proof
  fix a :: "('m list \<times> (ptr \<rightharpoonup> 'm)) \<times> bool option" and w :: "('i, 'm) world" and x
  assume rel: "topic_related api env c loaned held queue attached pending listening capacity a w" and may: "topic_may env c capacity x a"
  obtain msgs memory flag where [simp]: "a = ((msgs, memory), flag)" by (metis prod.exhaust)
  from rel have ct: "topic_contract api c loaned held queue attached pending listening capacity"
    and up: "topic_up api env c loaned held queue listening msgs w" and mem: "messages w = memory"
    and flag: "topic_flag c pending w = flag" by (simp_all add: topic_related_def)
  show "\<exists>w'. topic_call api env c x w = Some (fst (topic_step (tp_subscriber c) x a), w') \<and>
      topic_related api env c loaned held queue attached pending listening capacity (snd (topic_step (tp_subscriber c) x a)) w'"
  proof (cases x)
    case (Channel y)
    with channel_call_flag [OF ct up, of y] may flag ct mem show ?thesis by (auto simp: topic_related_def)
  next
    case Wait
    with wait_one(1) [OF ct up] may flag ct mem show ?thesis by (auto simp: topic_related_def)
  next
    case Poll
    with wait_one(2) [OF ct up] may flag ct mem show ?thesis by (auto simp: topic_related_def)
  qed
qed

section \<open>On the middleware that transports\<close>

definition live_topic :: "bool \<Rightarrow> u8 list topic" where
  "live_topic pod = channel.extend (live_channel pod)
     \<lparr>tp_wait_set = 14, tp_wait_set_data = 16, tp_waitset = 9, tp_subscriber = 28, tp_service = names_topic ''/chatter''\<rparr>"

definition live_topic_world :: "bool \<Rightarrow> (live, u8 list) world" where
  "live_topic_world pod = (live_world pod)\<lparr>heap := (heap (live_world pod))(16 \<mapsto> WaitSetObj live_fresh_waitset)\<rparr>"

lemma live_topic_contract:
  "topic_contract live_api (live_topic pod) (\<lambda>i. set (lv_loans i)) (\<lambda>i. set (lv_held i)) lv_queue
     (\<lambda>i. set (lv_attached i)) (\<lambda>i. set (lv_pending i)) (\<lambda>i. set (lv_listeners i)) capacity"
proof -
  have "wait_neutral live_api (\<lambda>i. set (lv_loans i))" "wait_neutral live_api (\<lambda>i. set (lv_held i))"
    "wait_neutral live_api lv_queue"
    by (simp_all add: wait_neutral_def block_neutral_def live_api_def lv_attach_def lv_listen_def Let_def)
  moreover have "channel_of (live_topic pod) = live_channel pod" "tp_service (live_topic pod) = names_topic ''/chatter''"
    "tp_waitset (live_topic pod) = 9"
    by (simp_all add: channel_of_def live_topic_def channel.defs live_channel_def)
  ultimately show ?thesis
    using live_channel_contract [of pod capacity] live_event_contract live_listening_contract
    by (simp add: topic_contract_def timeout_of_def) (simp add: live_api_def)
qed

lemma live_topic_up:
  "topic_up live_api live_env (live_topic pod) (\<lambda>i. set (lv_loans i)) (\<lambda>i. set (lv_held i)) lv_queue
     (\<lambda>i. set (lv_listeners i)) [] (live_topic_world pod)"
  and live_topic_flag: "topic_flag (live_topic pod) (\<lambda>i. set (lv_pending i)) (live_topic_world pod) = None"
proof -
  let ?ws = live_fresh_waitset and ?w = "live_topic_world pod"
  have c: "channel_of (live_topic pod) = live_channel pod" "tp_wait_set (live_topic pod) = 14"
    "tp_wait_set_data (live_topic pod) = 16" "tp_waitset (live_topic pod) = 9" "tp_subscriber (live_topic pod) = 28"
    "tp_service (live_topic pod) = names_topic ''/chatter''"
    by (simp_all add: channel_of_def live_topic_def channel.defs live_channel_def)
  have h: "heap (live_world pod) 16 = Some (WaitSetObj (unmap_all sim_waitset))" "heap ?w = (heap (live_world pod))(16 \<mapsto> WaitSetObj ?ws)"
    "iox ?w = iox (live_world pod)"
    by (simp_all add: live_topic_world_def) (simp add: live_world_def sim_world_def)
  have "channel_up live_env (live_channel pod) (\<lambda>i. set (lv_loans i)) (\<lambda>i. set (lv_held i)) lv_queue [] ?w"
    using channel_up_wait [OF live_channel_up h(1,2)] h(3) by simp
  moreover have "wait_set_ready 14 16 ?ws ?w"
    by (simp add: wait_set_ready_def live_topic_world_def live_world_def sim_world_def)
  moreover have "args_ready live_api ?ws ?w (subscription_only 28) [] [names_topic ''/chatter'']"
  proof -
    have "heap ?w 4 = Some (ContextObj sim_context)" "heap ?w 28 = Some (SubscriberObj sim_subscriber)"
      by (simp_all add: live_topic_world_def live_world_def sim_world_def)
    then show ?thesis
      by (simp add: args_ready_def subscription_only_def the_array_def wait_context_of_def subscriber_service_def load_def
          context_for_def live_api_def sim_subscriber_def)
  qed
  moreover have "listens (set (lv_listeners (iox ?w))) ?ws"
    by (simp add: listens_def h(3) live_world_def live_start_def)
  ultimately show "topic_up live_api live_env (live_topic pod) (\<lambda>i. set (lv_loans i)) (\<lambda>i. set (lv_held i)) lv_queue
     (\<lambda>i. set (lv_listeners i)) [] ?w"
    unfolding topic_up_def c by (intro conjI exI [of _ ?ws]) simp_all
  show "topic_flag (live_topic pod) (\<lambda>i. set (lv_pending i)) ?w = None"
    by (simp add: topic_flag_def c(3) load_def h(2))
qed

section \<open>Properties\<close>

text \<open>C2. A topic with a publisher, a subscription and a wait set is a queue of messages with a flag. Given a
  channel that is up and a wait set that is not in use, on a middleware that keeps the contracts of the channel, of
  events and of listeners, take any sequence of publishing, taking, waiting when the flag is up and polling when it
  is not. The flag exists from the first poll on, which creates the listener (or from an earlier wait): before, what
  is published waits in the queue but raises no flag, and the first poll times out all the same. Every call returns
  what the machine says: publishing appends the message and raises the flag if there is one, a wait reports the
  subscription and lowers the flag, a poll times out, and taking yields the oldest message and does not
  touch the flag. So after a wait that was caused by two messages and one take, the second message waits in
  the queue but is not reported until something else is published.\<close>
theorem topic_refines_flagged_queue:
  fixes w :: "('i, 'm) world"
  assumes "topic_contract api c loaned held queue attached pending listening capacity"
    and "topic_up api env c loaned held queue listening msgs w" and "topic_flag c pending w = flag"
    and "permitted (topic_may env c capacity) (topic_step (tp_subscriber c)) ops ((msgs, messages w), flag)"
  shows "\<exists>results msgs' memory flag' w'.
    run_machine (topic_step (tp_subscriber c)) ops ((msgs, messages w), flag) = (results, (msgs', memory), flag') \<and>
    run_calls (topic_call api env c) ops w = Some (results, w') \<and>
    topic_up api env c loaned held queue listening msgs' w' \<and> messages w' = memory \<and>
    topic_flag c pending w' = flag'"
proof -
  have "topic_related api env c loaned held queue attached pending listening capacity ((msgs, messages w), flag) w"
    using assms by (simp add: topic_related_def)
  from topic.runs [OF this assms(4)] show ?thesis
    by (cases "run_machine (topic_step (tp_subscriber c)) ops ((msgs, messages w), flag)") (auto simp: topic_related_def)
qed

text \<open>
  On a wait set that was just created: the first message is not reported, the second is, and what is taken are both
  in their order. The poll after the first take times out although the second message is still there.
\<close>
theorem topic_refines_flagged_queue_witness:
  "\<forall>pod. \<exists>w'. run_calls (topic_call live_api live_env (live_topic pod))
        [Channel (Publish 34), Poll, Channel (Publish 34), Wait, Channel (Take 36), Poll, Channel (Take 38)]
        (live_topic_world pod) =
      Some ([Inl (RMW_RET_OK, None), Inr (RMW_RET_TIMEOUT, subscription_only 28), Inl (RMW_RET_OK, None),
             Inr (RMW_RET_OK, subscription_only 28), Inl (RMW_RET_OK, Some True),
             Inr (RMW_RET_TIMEOUT, subscription_only 28), Inl (RMW_RET_OK, Some True)], w') \<and>
    messages w' 38 = Some [1, 2]"
proof
  fix pod
  let ?ops = "[Channel (Publish 34), Poll, Channel (Publish 34), Wait, Channel (Take 36), Poll, Channel (Take 38)]"
  have c: "channel_of (live_topic pod) = live_channel pod" "tp_subscriber (live_topic pod) = 28"
    by (simp_all add: channel_of_def live_topic_def channel.defs live_channel_def)
  have m: "messages (live_topic_world pod) 34 = Some [1, 2]" "messages (live_topic_world pod) 36 = Some []"
    "messages (live_topic_world pod) 38 = Some []"
    by (simp_all add: messages_def load_def live_topic_world_def live_world_def)
  have r: "representable live_env (live_channel pod) [1, 2]"
    by (auto simp: representable_def carries_def live_env_def live_channel_def sim_env_def)
  have "permitted (topic_may live_env (live_topic pod) 2) (topic_step (tp_subscriber (live_topic pod))) ?ops
      (([], messages (live_topic_world pod)), None)"
    by (simp add: c m r)
  from topic_refines_flagged_queue [OF live_topic_contract live_topic_up live_topic_flag this] m
  show "\<exists>w'. run_calls (topic_call live_api live_env (live_topic pod)) ?ops (live_topic_world pod) =
      Some ([Inl (RMW_RET_OK, None), Inr (RMW_RET_TIMEOUT, subscription_only 28), Inl (RMW_RET_OK, None),
             Inr (RMW_RET_OK, subscription_only 28), Inl (RMW_RET_OK, Some True),
             Inr (RMW_RET_TIMEOUT, subscription_only 28), Inl (RMW_RET_OK, Some True)], w') \<and>
    messages w' 38 = Some [1, 2]"
    by (auto simp: Let_def c)
qed

end
