(* ===== verification/Rmw_Signals.thy ===== *)
theory Rmw_Signals
  imports Simulation Rmw_Guard_Condition Wait_Listening
begin

text \<open>
  Guard conditions and a wait set: triggering, waiting for some of them and polling some of them implement
  a row of flags. There is no flag before the first wait or poll that asks for it, which creates the listener: what
  is triggered before is lost. From then on triggering raises the flag, a wait reports the raised flags it asks for
  and lowers them, and the flags it does not ask for stay.
\<close>

section \<open>The guard conditions\<close>

text \<open>A guard condition: its handle and the object behind it.\<close>

record signal =
  si_handle :: ptr
  si_object :: ptr
  si_condition :: guard_condition

record signals =
  sg_wait_set :: ptr
  sg_wait_set_data :: ptr
  sg_waitset :: nat
  sg_all :: "signal list"

abbreviation signal_name :: "signal \<Rightarrow> string" where
  "signal_name s \<equiv> gc_service_name (si_condition s)"

text \<open>The arrays of a wait for some of them, given by their positions; the same one may be asked for twice.\<close>

definition guards_only :: "ptr list \<Rightarrow> wait_args" where
  "guards_only ps = \<lparr>wa_subscriptions = None, wa_guard_conditions = Some ps, wa_services = None,
     wa_clients = None, wa_events = None\<rparr>"

definition objects_at :: "signals \<Rightarrow> nat list \<Rightarrow> ptr list" where
  "objects_at c ks = map (\<lambda>k. si_object (sg_all c ! k)) ks"

text \<open>
  Nothing fails, nothing else notifies, and a guard condition notifies the listeners that exist then on the service
  of its name.
\<close>

definition signals_contract ::
  "'i iox2 \<Rightarrow> signals \<Rightarrow> ('i \<Rightarrow> (nat \<times> nat option) set) \<Rightarrow> ('i \<Rightarrow> nat set) \<Rightarrow> ('i \<Rightarrow> (nat \<times> string) set) \<Rightarrow> bool" where
  "signals_contract api c attached pending listening \<longleftrightarrow>
     event_contract api (sg_waitset c) attached pending \<and> no_arrivals api (sg_waitset c) pending \<and>
     listening_contract api listening \<and> distinct (map signal_name (sg_all c)) \<and> timeout_of api (Some (0, 0)) = Some 0 \<and>
     (\<forall>s \<in> set (sg_all c). \<exists>p. gc_notifier (si_condition s) = Some p \<and>
        (\<forall>e i. \<exists>n j. notify api p e i = (Inr n, j) \<and> listening j = listening i \<and>
           pending j = pending i \<union> {l. (l, signal_name s) \<in> listening i}))"

definition signal_up :: "'i iox2 \<Rightarrow> waitset_impl \<Rightarrow> ('i, 'm) world \<Rightarrow> signal \<Rightarrow> bool" where
  "signal_up api ws w s \<longleftrightarrow>
     (\<exists>h. heap w (si_handle s) = Some (GuardConditionHandle h) \<and> rg_identifier h = Iox2Ident \<and> rg_data h = si_object s) \<and>
     si_handle s \<noteq> nullptr \<and> si_object s \<noteq> nullptr \<and> load_guard_condition (si_object s) w = Some (si_condition s) \<and>
     context_for api (wait_context_of ws w) (signal_name s)"

definition signals_up :: "'i iox2 \<Rightarrow> signals \<Rightarrow> ('i \<Rightarrow> (nat \<times> string) set) \<Rightarrow> ('i, 'm) world \<Rightarrow> bool" where
  "signals_up api c listening w \<longleftrightarrow>
     (\<exists>ws. wait_set_ready (sg_wait_set c) (sg_wait_set_data c) ws w \<and> ws_mapping ws = [] \<and>
        ws_waitset ws = Some (sg_waitset c) \<and> listens (listening (iox w)) ws \<and>
        (\<forall>s \<in> set (sg_all c). signal_up api ws w s))"

section \<open>The row of flags\<close>

datatype signal_op = Trigger nat | Wait "nat list" | Poll "nat list"

fun signal_call ::
  "'i iox2 \<Rightarrow> signals \<Rightarrow> signal_op \<Rightarrow> ('i, 'm) world \<Rightarrow> ((rmw_ret + (rmw_ret \<times> wait_args)) \<times> ('i, 'm) world) option" where
  "signal_call api c (Trigger k) w =
     do { (r, w) \<leftarrow> rmw_trigger_guard_condition api (si_handle (sg_all c ! k)) w; Some (Inl r, w) }"
| "signal_call api c (Wait ks) w =
     do { (r, w) \<leftarrow> rmw_wait api (guards_only (objects_at c ks)) (sg_wait_set c) None w; Some (Inr r, w) }"
| "signal_call api c (Poll ks) w =
     do { (r, w) \<leftarrow> rmw_wait api (guards_only (objects_at c ks)) (sg_wait_set c) (Some (0, 0)) w; Some (Inr r, w) }"

text \<open>
  A flag is \<open>None\<close> until a call asks for it. An entry of the array is reported when its flag is up and no earlier
  entry is for the same flag; the flags a call asks for are down afterwards.
\<close>

definition raised_first :: "bool option list \<Rightarrow> nat list \<Rightarrow> nat \<Rightarrow> bool" where
  "raised_first flags ks j \<longleftrightarrow> flags ! (ks ! j) = Some True \<and> ks ! j \<notin> set (take j ks)"

definition report :: "bool option list \<Rightarrow> nat list \<Rightarrow> ptr list \<Rightarrow> ptr list" where
  "report flags ks ps = map (\<lambda>j. if raised_first flags ks j then ps ! j else nullptr) [0..<length ks]"

definition lower :: "nat list \<Rightarrow> bool option list \<Rightarrow> bool option list" where
  "lower ks flags = map (\<lambda>k. if k \<in> set ks then Some False else flags ! k) [0..<length flags]"

fun signal_step :: "signals \<Rightarrow> signal_op \<Rightarrow> bool option list \<Rightarrow> (rmw_ret + (rmw_ret \<times> wait_args)) \<times> bool option list" where
  "signal_step c (Trigger k) flags = (Inl RMW_RET_OK, flags[k := map_option (\<lambda>_. True) (flags ! k)])"
| "signal_step c (Wait ks) flags =
     (Inr (RMW_RET_OK, guards_only (report flags ks (objects_at c ks))), lower ks flags)"
| "signal_step c (Poll ks) flags = (Inr (RMW_RET_TIMEOUT, guards_only (objects_at c ks)), lower ks flags)"

text \<open>Without a raised flag a wait would block; with one, a poll may report it or not.\<close>

fun signal_may :: "signal_op \<Rightarrow> bool option list \<Rightarrow> bool" where
  "signal_may (Trigger k) flags \<longleftrightarrow> k < length flags"
| "signal_may (Wait ks) flags \<longleftrightarrow> (\<forall>k \<in> set ks. k < length flags) \<and> (\<exists>k \<in> set ks. flags ! k = Some True)"
| "signal_may (Poll ks) flags \<longleftrightarrow> (\<forall>k \<in> set ks. k < length flags \<and> flags ! k \<noteq> Some True)"

text \<open>Whether the listener the wait set stores for a guard condition has a notification; \<open>None\<close> when it stores none.\<close>

definition flag_in :: "waitset_impl \<Rightarrow> nat set \<Rightarrow> signal \<Rightarrow> bool option" where
  "flag_in ws P s = map_option (\<lambda>l. l \<in> P) (stored_listener GUARD_CONDITION (signal_name s) ws)"

definition flags_of :: "signals \<Rightarrow> ('i \<Rightarrow> nat set) \<Rightarrow> ('i, 'm) world \<Rightarrow> bool option list" where
  "flags_of c pending w =
     map (\<lambda>s. case load as_waitset_impl (sg_wait_set_data c) w of
            None \<Rightarrow> None
          | Some ws \<Rightarrow> flag_in ws (pending (iox w)) s) (sg_all c)"

lemma flags_of_loaded:
  "heap w (sg_wait_set_data c) = Some (WaitSetObj ws) \<Longrightarrow> flags_of c pending w = map (flag_in ws (pending (iox w))) (sg_all c)"
  by (simp add: flags_of_def load_def)

definition signals_related ::
  "'i iox2 \<Rightarrow> signals \<Rightarrow> ('i \<Rightarrow> (nat \<times> nat option) set) \<Rightarrow> ('i \<Rightarrow> nat set) \<Rightarrow> ('i \<Rightarrow> (nat \<times> string) set) \<Rightarrow>
   bool option list \<Rightarrow> ('i, 'm) world \<Rightarrow> bool" where
  "signals_related api c attached pending listening flags w \<longleftrightarrow>
     signals_contract api c attached pending listening \<and> signals_up api c listening w \<and> flags_of c pending w = flags"

lemma signal_name_inj:
  "signals_contract api c attached pending listening \<Longrightarrow> i < length (sg_all c) \<Longrightarrow> j < length (sg_all c) \<Longrightarrow>
   signal_name (sg_all c ! i) = signal_name (sg_all c ! j) \<longleftrightarrow> i = j"
  by (auto simp: signals_contract_def distinct_conv_nth)

section \<open>Triggering\<close>

lemma signal_up_frame:
  fixes w w' :: "('i, 'm) world"
  assumes "signal_up api ws w s" and "load_guard_condition (si_object s) w' = load_guard_condition (si_object s) w"
    and "heap w' (si_handle s) = heap w (si_handle s)" and "wait_context_of ws' w' = wait_context_of ws w"
  shows "signal_up api ws' w' s"
  using assms by (simp add: signal_up_def)

lemma signal_up_same:
  fixes w w' :: "('i, 'm) world"
  assumes "signal_up api ws w s" and "heap w' = heap w"
  shows "signal_up api ws w' s"
proof -
  have "load f p w' = load f p w" for f :: "'m obj \<Rightarrow> 'b option" and p by (simp add: load_def assms(2))
  then show ?thesis
    by (intro signal_up_frame [OF assms(1)]) (simp_all add: load_guard_condition_def wait_context_of_def load_def assms(2))
qed

text \<open>A notification reaches the flag of the guard condition it is for, and no other.\<close>

lemma raise_flag:
  assumes ct: "signals_contract api c attached pending listening" and k: "k < length (sg_all c)" and L: "listens L ws"
  shows "map (flag_in ws (P \<union> {l. (l, signal_name (sg_all c ! k)) \<in> L})) (sg_all c) =
    (map (flag_in ws P) (sg_all c))[k := map_option (\<lambda>_. True) (map (flag_in ws P) (sg_all c) ! k)]"
proof (rule nth_equalityI, simp, goal_cases)
  case (1 i)
  then have i: "i < length (sg_all c)" by simp
  show ?case
    using listens_service [OF L, of GUARD_CONDITION "signal_name (sg_all c ! i)"] signal_name_inj [OF ct k i] i k
    by (cases "stored_listener GUARD_CONDITION (signal_name (sg_all c ! i)) ws") (auto simp: flag_in_def nth_list_update)
qed

lemma trigger_signal:
  fixes w :: "('i, 'm) world"
  assumes ct: "signals_contract api c attached pending listening" and up: "signals_up api c listening w" and k: "k < length (sg_all c)"
  shows "\<exists>w'. signal_call api c (Trigger k) w = Some (Inl RMW_RET_OK, w') \<and> signals_up api c listening w' \<and>
    flags_of c pending w' = (flags_of c pending w)[k := map_option (\<lambda>_. True) (flags_of c pending w ! k)]"
proof -
  let ?s = "sg_all c ! k"
  from k have s: "?s \<in> set (sg_all c)" by simp
  from up s obtain ws where ws: "wait_set_ready (sg_wait_set c) (sg_wait_set_data c) ws w" "ws_mapping ws = []"
    "ws_waitset ws = Some (sg_waitset c)" "listens (listening (iox w)) ws" "\<forall>s \<in> set (sg_all c). signal_up api ws w s"
    by (auto simp: signals_up_def)
  from ws(5) s obtain h where h: "heap w (si_handle ?s) = Some (GuardConditionHandle h)" "si_handle ?s \<noteq> nullptr"
    "rg_identifier h = Iox2Ident" "load_guard_condition (rg_data h) w = Some (si_condition ?s)" "rg_data h \<noteq> nullptr"
    by (auto simp: signal_up_def)
  from ct s obtain p where p: "gc_notifier (si_condition ?s) = Some p"
    and sent: "\<forall>e i. \<exists>n j. notify api p e i = (Inr n, j) \<and> listening j = listening i \<and>
      pending j = pending i \<union> {l. (l, signal_name ?s) \<in> listening i}"
    unfolding signals_contract_def by blast
  from sent obtain n j where j: "notify api p (Some (unat (gc_trigger_id (si_condition ?s)))) (iox w) = (Inr n, j)" "listening j = listening (iox w)"
      "pending j = pending (iox w) \<union> {l. (l, signal_name ?s) \<in> listening (iox w)}"
    by blast
  from trigger_guard_condition [OF h p j(1)] obtain w' where
    w': "rmw_trigger_guard_condition api (si_handle ?s) w = Some (RMW_RET_OK, w')" "heap w' = heap w" "iox w' = j"
    by auto
  have "\<forall>s \<in> set (sg_all c). signal_up api ws w' s" using ws(5) signal_up_same [OF _ w'(2)] by blast
  then have "signals_up api c listening w'"
    unfolding signals_up_def using ws(1-4) w'(2,3) j(2) by (intro exI [of _ ws]) (simp add: wait_set_ready_def)
  moreover have "heap w (sg_wait_set_data c) = Some (WaitSetObj ws)" using ws(1) by (simp add: wait_set_ready_def)
  ultimately show ?thesis
    using w' j(3) raise_flag [OF ct k ws(4)] by (simp add: flags_of_loaded)
qed

section \<open>Waiting\<close>

lemma is_first_signal:
  assumes inj: "\<And>i k. i \<in> set ks \<Longrightarrow> k \<in> set ks \<Longrightarrow> f i = f k \<Longrightarrow> i = k" and j: "j < length ks"
  shows "is_first (map f ks) j (f (ks ! j)) \<longleftrightarrow> ks ! j \<notin> set (take j ks)"
proof -
  have "is_first (map f ks) j (f (ks ! j)) \<longleftrightarrow> (\<forall>i < j. ks ! i \<noteq> ks ! j)"
    using j inj [OF nth_mem nth_mem [OF j]] by (auto simp: is_first_def)
  also have "\<dots> \<longleftrightarrow> ks ! j \<notin> set (take j ks)" using j by (auto simp: in_set_conv_nth)
  finally show ?thesis .
qed

definition names_at :: "signals \<Rightarrow> nat list \<Rightarrow> string list" where
  "names_at c ks = map (\<lambda>k. signal_name (sg_all c ! k)) ks"

text \<open>The services of a wait's array whose flag is up.\<close>

definition raised :: "signals \<Rightarrow> nat list \<Rightarrow> bool option list \<Rightarrow> (waitable_entity \<times> string) set" where
  "raised c ks flags =
     (\<lambda>k. (GUARD_CONDITION, signal_name (sg_all c ! k))) ` {k \<in> set ks. flags ! k = Some True}"

lemma signals_args_ready:
  fixes w :: "('i, 'm) world"
  assumes "\<forall>s \<in> set (sg_all c). signal_up api ws w s" and "\<forall>k \<in> set ks. k < length (sg_all c)"
  shows "args_ready api ws w (guards_only (objects_at c ks)) (names_at c ks) []"
proof -
  have up: "signal_up api ws w (sg_all c ! k)" if "k \<in> set ks" for k using assms that by simp
  have "map (guard_service w) (objects_at c ks) = map Some (names_at c ks)"
    using up by (simp add: objects_at_def names_at_def guard_service_def signal_up_def)
  moreover have "\<forall>k \<in> set ks. si_object (sg_all c ! k) \<noteq> nullptr" using up by (simp add: signal_up_def)
  then have "nullptr \<notin> set (objects_at c ks)" by (simp add: objects_at_def image_iff)
  moreover have "\<forall>n \<in> set (names_at c ks). context_for api (wait_context_of ws w) n"
    using up by (auto simp: names_at_def signal_up_def)
  ultimately show ?thesis by (simp add: args_ready_def guards_only_def the_array_def entities_ready_def)
qed

text \<open>What is notified is what has its flag up, as a listener that is new has no notification.\<close>

lemma notified_raised:
  assumes ks: "\<forall>k \<in> set ks. k < length (sg_all c)"
    and st: "\<forall>k s. stored_listener k s ws' = stored_listener k s ws \<or>
      stored_listener k s ws = None \<and> (\<exists>l. stored_listener k s ws' = Some l \<and> l \<notin> P)"
    and there: "\<forall>n \<in> set (names_at c ks). stored_listener GUARD_CONDITION n ws' \<noteq> None"
  shows "notified (names_at c ks) [] ws' P = raised c ks (map (flag_in ws P) (sg_all c))"
proof -
  have "(\<exists>l \<in> P. stored_listener GUARD_CONDITION n ws' = Some l) \<longleftrightarrow> (\<exists>l \<in> P. stored_listener GUARD_CONDITION n ws = Some l)" for n
    using st [rule_format, of GUARD_CONDITION n] by (elim disjE) (simp, auto)
  then have "notified (names_at c ks) [] ws' P = {(GUARD_CONDITION, n) | n. n \<in> set (names_at c ks) \<and>
      (\<exists>l \<in> P. stored_listener GUARD_CONDITION n ws = Some l)}"
    by (auto simp: notified_def services_of_def split: waitable_entity.splits) blast+
  also have "\<dots> = raised c ks (map (flag_in ws P) (sg_all c))"
    using ks by (fastforce simp: raised_def names_at_def flag_in_def image_iff)
  finally show ?thesis .
qed

text \<open>Consuming what was notified takes down the flags that were asked for, and makes those that were not there.\<close>

lemma lower_flags:
  assumes ct: "signals_contract api c attached pending listening" and ks: "\<forall>k \<in> set ks. k < length (sg_all c)"
    and L: "listens L ws'" and others: "\<forall>k s. s \<notin> set (services_of (names_at c ks) [] k) \<longrightarrow> stored_listener k s ws' = stored_listener k s ws"
    and there: "\<forall>n \<in> set (names_at c ks). stored_listener GUARD_CONDITION n ws' \<noteq> None"
  shows "map (flag_in ws' (P - listeners_for ws' (notified (names_at c ks) [] ws' P))) (sg_all c) =
    lower ks (map (flag_in ws P) (sg_all c))"
proof (rule nth_equalityI, simp add: lower_def, goal_cases)
  case (1 i)
  then have i: "i < length (sg_all c)" by simp
  let ?n = "signal_name (sg_all c ! i)"
  have mem: "?n \<in> set (names_at c ks) \<longleftrightarrow> i \<in> set ks"
    using signal_name_inj [OF ct i] ks by (auto simp: names_at_def)
  have "l \<in> listeners_for ws' (notified (names_at c ks) [] ws' P) \<longleftrightarrow> l \<in> P \<and> i \<in> set ks"
    if "stored_listener GUARD_CONDITION ?n ws' = Some l" for l
    using that L mem by (fastforce simp: listeners_for_def notified_def services_of_def listens_def
        dest: single_valuedD split: waitable_entity.splits)
  moreover have "stored_listener GUARD_CONDITION ?n ws = stored_listener GUARD_CONDITION ?n ws'" if "i \<notin> set ks"
    using that mem others [rule_format, of ?n GUARD_CONDITION] by (simp add: services_of_def)
  ultimately show ?case
    using i mem there
    by (cases "i \<in> set ks"; cases "stored_listener GUARD_CONDITION ?n ws'") (auto simp: flag_in_def lower_def)
qed

lemma signals_wait:
  fixes w :: "('i, 'm) world"
  assumes ct: "signals_contract api c attached pending listening" and up: "signals_up api c listening w"
    and ks: "\<forall>k \<in> set ks. k < length (sg_all c)" and ne: "ks \<noteq> [] \<or> t \<noteq> None"
  shows "\<exists>R args' w'.
    rmw_wait api (guards_only (objects_at c ks)) (sg_wait_set c) t w =
      Some ((if R = {} then RMW_RET_TIMEOUT else RMW_RET_OK, args'), w') \<and>
    R \<subseteq> raised c ks (flags_of c pending w) \<and> (t = None \<longrightarrow> R = raised c ks (flags_of c pending w)) \<and>
    arrays_kept (guards_only (objects_at c ks)) (names_at c ks) [] R args' \<and> signals_up api c listening w' \<and>
    (R = raised c ks (flags_of c pending w) \<longrightarrow> flags_of c pending w' = lower ks (flags_of c pending w))"
proof -
  let ?args = "guards_only (objects_at c ks)" and ?q = "sg_wait_set_data c" and ?P = "pending (iox w)"
  from up obtain ws where p: "wait_set_ready (sg_wait_set c) ?q ws w" "ws_mapping ws = []"
    and wsid: "ws_waitset ws = Some (sg_waitset c)" and L: "listens (listening (iox w)) ws"
    and each: "\<forall>s \<in> set (sg_all c). signal_up api ws w s"
    by (auto simp: signals_up_def)
  have c: "event_contract api (sg_waitset c) attached pending" and quiet: "no_arrivals api (sg_waitset c) pending"
    and lc: "listening_contract api listening"
    using ct by (simp_all add: signals_contract_def)
  note a = signals_args_ready [OF each ks]
  have ne': "names_at c ks @ [] \<noteq> [] \<or> t \<noteq> None" using ne by (simp add: names_at_def)
  from rmw_wait_reports [OF p a wsid c ne'] quiet obtain R args' ws' w' where
    r: "rmw_wait api ?args (sg_wait_set c) t w = Some ((if R = {} then RMW_RET_TIMEOUT else RMW_RET_OK, args'), w')"
    "R \<subseteq> notified (names_at c ks) [] ws' ?P"
    "t = None \<longrightarrow> R = notified (names_at c ks) [] ws' ?P" "arrays_kept ?args (names_at c ks) [] R args'"
    "pending (iox w') = ?P - listeners_for ws' R"
    and w': "heap w' = (heap w)(?q \<mapsto> WaitSetObj ws')" "waitset_wf ws'" "ws_mapping ws' = []"
      "ws_waitset ws' = ws_waitset ws" "ws_context ws' = ws_context ws"
    and st: "\<forall>k s. stored_listener k s ws' = stored_listener k s ws \<or>
       stored_listener k s ws = None \<and> (\<exists>l. stored_listener k s ws' = Some l \<and> l \<notin> ?P)"
      "\<forall>k. \<forall>s \<in> set (services_of (names_at c ks) [] k). stored_listener k s ws' \<noteq> None"
    by (elim exE conjE) (drule (1) mp [OF _ disjI2], hypsubst, rule that; assumption)
  have h: "heap w ?q = Some (WaitSetObj ws)" using p(1) by (simp add: wait_set_ready_def)
  have h': "heap w' ?q = Some (WaitSetObj ws')" using w'(1) by simp
  from rmw_wait_listens [OF c lc p a L r(1) h']
  have L': "listens (listening (iox w')) ws'"
    and others: "\<forall>k s. s \<notin> set (services_of (names_at c ks) [] k) \<longrightarrow> stored_listener k s ws' = stored_listener k s ws"
    by (simp_all add: listens_still_def)
  have there: "\<forall>n \<in> set (names_at c ks). stored_listener GUARD_CONDITION n ws' \<noteq> None"
    using st(2) [rule_format, of _ GUARD_CONDITION] by (simp add: services_of_def)
  have each': "signal_up api ws' w' s" if "s \<in> set (sg_all c)" for s
  proof (rule signal_up_frame [of api ws w])
    show "signal_up api ws w s" using each that by blast
    then show "heap w' (si_handle s) = heap w (si_handle s)" using h w'(1) by (auto simp: signal_up_def)
  qed (simp_all add: load_other [OF w'(1) h] wait_context_of_def w'(5))
  have "signals_up api c listening w'"
    unfolding signals_up_def using p(1) w' wsid each' L' by (intro exI [of _ ws']) (auto simp: wait_set_ready_def)
  then show ?thesis
    using r notified_raised [OF ks st(1) there] lower_flags [OF ct ks L' others there, of ?P]
    by (intro exI [of _ R] exI [of _ args'] exI [of _ w']) (simp add: flags_of_loaded [OF h] flags_of_loaded [OF h'])
qed

text \<open>What is left of the array.\<close>

lemma raised_kept:
  assumes ct: "signals_contract api c attached pending listening"
    and ks: "\<forall>k \<in> set ks. k < length (sg_all c)" and R: "R = {} \<or> R = raised c ks flags"
    and kept: "arrays_kept (guards_only (objects_at c ks)) (names_at c ks) [] R args'"
  shows "args' = guards_only (if R = {} then objects_at c ks else report flags ks (objects_at c ks))"
proof -
  have eq: "i = k" if "i \<in> set ks" "k \<in> set ks" "signal_name (sg_all c ! i) = signal_name (sg_all c ! k)" for i k
    using signal_name_inj [OF ct] ks that by simp
  have first: "is_first (names_at c ks) j (names_at c ks ! j) \<and> (GUARD_CONDITION, names_at c ks ! j) \<in> raised c ks flags \<longleftrightarrow>
      raised_first flags ks j" if j: "j < length ks" for j
  proof -
    have "names_at c ks ! j = signal_name (sg_all c ! (ks ! j))" using j by (simp add: names_at_def)
    moreover have "is_first (names_at c ks) j (signal_name (sg_all c ! (ks ! j))) \<longleftrightarrow> ks ! j \<notin> set (take j ks)"
      unfolding names_at_def by (rule is_first_signal [of ks, OF eq j])
    moreover have "(GUARD_CONDITION, signal_name (sg_all c ! (ks ! j))) \<in> raised c ks flags \<longleftrightarrow> flags ! (ks ! j) = Some True"
      using eq nth_mem [OF j] by (auto simp: raised_def)
    ultimately show ?thesis by (auto simp: raised_first_def)
  qed
  have "keep_only (\<lambda>s. (GUARD_CONDITION, s) \<in> raised c ks flags) (names_at c ks) (Some (objects_at c ks)) =
      Some (report flags ks (objects_at c ks))"
    using first by (simp add: keep_only_def report_def) (simp add: objects_at_def)
  with kept R show ?thesis
    by (cases args'; cases "R = {}") (auto simp: arrays_kept_def guards_only_def null_all_def keep_only_def)
qed

interpretation signals: simulation "signal_call api c" "signal_step c" signal_may
    "signals_related api c attached pending listening"
  for api :: "'i iox2" and c attached pending listening
proof
  fix flags :: "bool option list" and w :: "('i, 'm) world" and x
  assume rel: "signals_related api c attached pending listening flags w" and may: "signal_may x flags"
  from rel have ct: "signals_contract api c attached pending listening" and up: "signals_up api c listening w"
    and flags: "flags_of c pending w = flags" by (simp_all add: signals_related_def)
  have len: "length flags = length (sg_all c)" using flags by (auto simp: flags_of_def)
  show "\<exists>w'. signal_call api c x w = Some (fst (signal_step c x flags), w') \<and>
      signals_related api c attached pending listening (snd (signal_step c x flags)) w'"
  proof (cases x)
    case (Trigger k)
    with may len trigger_signal [OF ct up, of k] ct flags show ?thesis by (auto simp: signals_related_def)
  next
    case (Wait ks)
    with may len have ks: "\<forall>k \<in> set ks. k < length (sg_all c)" and ne: "ks \<noteq> [] \<or> (None :: (u64 \<times> u64) option) \<noteq> None"
      by auto
    have some: "raised c ks flags \<noteq> {}" using may Wait by (auto simp: raised_def)
    with signals_wait [OF ct up ks ne] obtain args' w' where
      w': "rmw_wait api (guards_only (objects_at c ks)) (sg_wait_set c) None w = Some ((RMW_RET_OK, args'), w')"
        "arrays_kept (guards_only (objects_at c ks)) (names_at c ks) [] (raised c ks flags) args'"
        "signals_up api c listening w'" "flags_of c pending w' = lower ks flags"
      unfolding flags by auto
    from raised_kept [OF ct ks disjI2 w'(2)] some
    have "args' = guards_only (report flags ks (objects_at c ks))" by simp
    with Wait w' ct show ?thesis by (simp add: signals_related_def)
  next
    case (Poll ks)
    with may len have ks: "\<forall>k \<in> set ks. k < length (sg_all c)" and ne: "ks \<noteq> [] \<or> Some (0 :: u64, 0 :: u64) \<noteq> None"
      by auto
    have "raised c ks flags = {}" using may Poll by (auto simp: raised_def)
    with signals_wait [OF ct up ks ne] obtain args' w' where
      w': "rmw_wait api (guards_only (objects_at c ks)) (sg_wait_set c) (Some (0, 0)) w = Some ((RMW_RET_TIMEOUT, args'), w')"
        "arrays_kept (guards_only (objects_at c ks)) (names_at c ks) [] {} args'"
        "signals_up api c listening w'" "flags_of c pending w' = lower ks flags"
      unfolding flags by auto
    from raised_kept [OF ct ks disjI1 w'(2)] have "args' = guards_only (objects_at c ks)" by simp
    with Poll w' ct show ?thesis by (simp add: signals_related_def)
  qed
qed

section \<open>On the middleware that transports\<close>

definition live_guard :: "nat \<Rightarrow> nat \<Rightarrow> guard_condition" where
  "live_guard k p =
     \<lparr>gc_trigger_id = of_nat k, gc_service_name = names_guard_condition 0 (of_nat k), gc_unique_id = None, gc_notifier = Some p\<rparr>"

definition live_signals :: signals where
  "live_signals =
     \<lparr>sg_wait_set = 14, sg_wait_set_data = 16, sg_waitset = 9,
      sg_all = [\<lparr>si_handle = 18, si_object = 20, si_condition = live_guard 0 10\<rparr>,
                \<lparr>si_handle = 34, si_object = 36, si_condition = live_guard 1 12\<rparr>]\<rparr>"

definition live_signals_world :: "(live, u8 list) world" where
  "live_signals_world =
     \<lparr>errmsg = None, iox = live_start,
      heap = (heap sim_world)(16 \<mapsto> WaitSetObj live_fresh_waitset, 20 \<mapsto> GuardConditionObj (live_guard 0 10),
        36 \<mapsto> GuardConditionObj (live_guard 1 12),
        34 \<mapsto> GuardConditionHandle \<lparr>rg_identifier = Iox2Ident, rg_data = 36, rg_context = 2\<rparr>),
      next_ptr = 38, requests = 0\<rparr>"

lemma live_signals_contract:
  "signals_contract live_api live_signals (\<lambda>i. set (lv_attached i)) (\<lambda>i. set (lv_pending i)) (\<lambda>i. set (lv_listeners i))"
proof -
  have "sg_waitset live_signals = 9" by (simp add: live_signals_def)
  moreover have "timeout_of live_api (Some (0, 0)) = Some 0" by (simp add: timeout_of_def) (simp add: live_api_def)
  moreover have "distinct (map signal_name (sg_all live_signals))"
    by (simp add: live_signals_def live_guard_def names_guard_condition_inject_lemma)
  moreover have "\<forall>s \<in> set (sg_all live_signals). \<exists>p. gc_notifier (si_condition s) = Some p \<and>
      (\<forall>e i. \<exists>n j. notify live_api p e i = (Inr n, j) \<and> set (lv_listeners j) = set (lv_listeners i) \<and>
         set (lv_pending j) = set (lv_pending i) \<union> {l. (l, signal_name s) \<in> set (lv_listeners i)})"
    by (simp add: live_signals_def live_guard_def live_api_def lv_service_def)
  ultimately show ?thesis
    using live_event_contract live_no_arrivals live_listening_contract by (simp add: signals_contract_def)
qed

lemma live_signals_up: "signals_up live_api live_signals (\<lambda>i. set (lv_listeners i)) live_signals_world"
proof -
  let ?ws = live_fresh_waitset and ?w = live_signals_world
  have "wait_set_ready 14 16 ?ws ?w"
    by (simp add: wait_set_ready_def live_signals_world_def sim_world_def)
  moreover have "listens (set (lv_listeners (iox ?w))) ?ws"
    by (simp add: listens_def live_signals_world_def live_start_def)
  moreover have "wait_context_of ?ws ?w = Some sim_context"
    by (simp add: wait_context_of_def load_def live_signals_world_def sim_world_def)
  then have "signal_up live_api ?ws ?w s" if "s \<in> set (sg_all live_signals)" for s
    using that
    by (auto simp: live_signals_def signal_up_def live_signals_world_def sim_world_def load_guard_condition_def load_def
        live_guard_def context_for_def live_api_def)
  ultimately show ?thesis
    unfolding signals_up_def by (intro exI [of _ ?ws]) (simp add: live_signals_def)
qed

section \<open>Properties\<close>

text \<open>C4. Guard conditions and a wait set are a row of flags. Given guard conditions with different names that are up
  and a wait set not in use, on a middleware that keeps the contracts of events and of listeners and on which
  nothing else notifies, take any triggers, waits for some of the guard conditions, one of them raised,
  and polls of some of which none is. A flag is there from the first poll or wait on that asks for it, which
  creates the listener: a trigger before that is lost. Every call returns what the flags
  say: triggering raises a flag that is there, however often it is done before a wait; a wait returns
  \<open>RMW_RET_OK\<close> with exactly the entries whose flag is up, the first of those for the same guard
  condition, all others nulled, and lowers the flags it asked for, not the others; a poll times out
  and leaves its array as it is. So once its flag is there no trigger is lost to a wait for other guard conditions,
  and none is reported twice.\<close>
theorem signals_refine_flags:
  fixes w :: "('i, 'm) world"
  assumes "signals_contract api c attached pending listening" and "signals_up api c listening w"
    and "permitted signal_may (signal_step c) ops (flags_of c pending w)"
  shows "\<exists>results flags' w'.
    run_machine (signal_step c) ops (flags_of c pending w) = (results, flags') \<and>
    run_calls (signal_call api c) ops w = Some (results, w') \<and>
    signals_up api c listening w' \<and> flags_of c pending w' = flags'"
proof -
  have "signals_related api c attached pending listening (flags_of c pending w) w"
    using assms by (simp add: signals_related_def)
  from signals.runs [OF this assms(3)] show ?thesis
    by (cases "run_machine (signal_step c) ops (flags_of c pending w)") (auto simp: signals_related_def)
qed

text \<open>On a wait set that was just created: the first trigger is lost, and the poll of both makes their flags. Then two
  triggers of the second guard condition: waiting for the first one leaves them, and they are reported once, at
  the first of two entries.\<close>
theorem signals_refine_flags_witness:
  "\<exists>w'. run_calls (signal_call live_api live_signals)
       [Trigger 0, Poll [0, 1], Trigger 1, Trigger 0, Trigger 1, Wait [0], Poll [0, 0], Wait [1, 0, 1], Poll [0, 1]]
       live_signals_world =
     Some ([Inl RMW_RET_OK, Inr (RMW_RET_TIMEOUT, guards_only [20, 36]),
            Inl RMW_RET_OK, Inl RMW_RET_OK, Inl RMW_RET_OK, Inr (RMW_RET_OK, guards_only [20]),
            Inr (RMW_RET_TIMEOUT, guards_only [20, 20]), Inr (RMW_RET_OK, guards_only [36, nullptr, nullptr]),
            Inr (RMW_RET_TIMEOUT, guards_only [20, 36])], w')"
proof -
  let ?ops = "[Trigger 0, Poll [0, 1], Trigger 1, Trigger 0, Trigger 1, Wait [0], Poll [0, 0], Wait [1, 0, 1], Poll [0, 1]]"
  have start: "flags_of live_signals (\<lambda>i. set (lv_pending i)) live_signals_world = [None, None]"
    by (simp add: flags_of_def flag_in_def live_signals_def live_signals_world_def load_def)
  have "permitted signal_may (signal_step live_signals) ?ops (flags_of live_signals (\<lambda>i. set (lv_pending i)) live_signals_world)"
    unfolding start by (simp add: lower_def)
  from signals_refine_flags [OF live_signals_contract live_signals_up this] show ?thesis
    unfolding start
    by (auto simp: Let_def lower_def report_def raised_first_def objects_at_def live_signals_def upt_conv_Cons)
qed

end
