(* ===== verification/Rmw_Zero_Copy.thy ===== *)
theory Rmw_Zero_Copy
  imports Rmw_Channel
begin

text \<open>
  The loans of a topic: a program that borrows messages, writes into them, publishes them or gives them back,
  and takes, reads and returns messages on the other side, in any order and with several of them out at
  once. The calls implement a queue and two collections of buffers that do not interfere.
\<close>

section \<open>The middleware\<close>

text \<open>The payloads at the addresses \<open>A\<close> are the same in two states.\<close>

definition payloads_kept :: "'i iox2 \<Rightarrow> ptr set \<Rightarrow> 'i \<Rightarrow> 'i \<Rightarrow> bool" where
  "payloads_kept api A i j \<longleftrightarrow> (\<forall>a\<in>A. \<forall>n. read_bytes api a n j = read_bytes api a n i)"

text \<open>
  What iceoryx2 documents of samples. \<open>lent i\<close> maps the addresses of the publisher's samples to their sizes,
  \<open>held i\<close> holds the addresses of the subscriber's. There is memory for \<open>max_loans\<close> samples on one side and
  \<open>max_held\<close> on the other; no two samples overlap, so nothing but writing into a sample changes its
  payload, and what is written can be read. Sending puts the payload at the end of the queue while
  there is room, receiving takes the first payload of the queue.
\<close>

definition zero_copy_contract ::
  "'i iox2 \<Rightarrow> 'm channel \<Rightarrow> ('i \<Rightarrow> ptr \<rightharpoonup> nat) \<Rightarrow> ('i \<Rightarrow> ptr set) \<Rightarrow> ('i \<Rightarrow> u8 list list) \<Rightarrow>
   nat \<Rightarrow> nat \<Rightarrow> nat \<Rightarrow> bool" where
  "zero_copy_contract api c lent held queue max_loans max_held capacity \<longleftrightarrow>
     loan_contract api (ch_publisher_port c) (\<lambda>i. dom (lent i)) \<and> receive_contract api (ch_subscriber_port c) held \<and>
     (\<forall>n i. card (dom (lent i)) < max_loans \<longrightarrow>
        (\<exists>s j. loan_slice_uninit api (ch_publisher_port c) n i = (Inr s, j) \<and> smp_len s = n \<and> smp_data s \<notin> held i \<and>
           lent j = (lent i)(smp_data s \<mapsto> n) \<and> held j = held i \<and> queue j = queue i \<and>
           payloads_kept api (dom (lent i) \<union> held i) i j)) \<and>
     (\<forall>a n bs i. lent i a = Some n \<longrightarrow> length bs \<le> n \<longrightarrow>
        (let j = write_bytes api a bs i in
         lent j = lent i \<and> queue j = queue i \<and> read_bytes api a (length bs) j = bs \<and>
         payloads_kept api (dom (lent i) \<union> held i - {a}) i j)) \<and>
     (\<forall>s i. smp_data s \<in> dom (lent i) \<longrightarrow> length (queue i) < capacity \<longrightarrow>
        (\<exists>k j. sample_send api s i = (Inr k, j) \<and> lent j = (lent i)(smp_data s := None) \<and> held j = held i \<and>
           queue j = queue i @ [payload_bytes api s i] \<and> payloads_kept api (dom (lent i) \<union> held i - {smp_data s}) i j)) \<and>
     (\<forall>s i. let j = sample_drop api s i in
        lent j = (lent i)(smp_data s := None) \<and> queue j = queue i \<and>
        payloads_kept api (dom (lent i) \<union> held i - {smp_data s}) i j) \<and>
     (\<forall>i. \<exists>n j. notify api (ch_notifier c) None i = (Inr n, j) \<and> lent j = lent i \<and> held j = held i \<and> queue j = queue i \<and>
        payloads_kept api (dom (lent i) \<union> held i) i j) \<and>
     (\<forall>i. card (held i) < max_held \<longrightarrow>
        (\<exists>x j. receive api (ch_subscriber_port c) i = (Inr x, j) \<and> lent j = lent i \<and> queue j = tl (queue i) \<and>
           payloads_kept api (dom (lent i) \<union> held i) i j \<and> (x = None \<longleftrightarrow> queue i = []) \<and>
           (\<forall>y. x = Some y \<longrightarrow> smp_data y \<notin> dom (lent i) \<and> payload_bytes api y j = hd (queue i) \<and>
              smp_len y = length (hd (queue i)))))"

lemma zero_copy_contractD:
  assumes "zero_copy_contract api c lent held queue max_loans max_held capacity"
  shows "loan_contract api (ch_publisher_port c) (\<lambda>i. dom (lent i))" and "receive_contract api (ch_subscriber_port c) held"
    and "card (dom (lent i)) < max_loans \<Longrightarrow>
      \<exists>s j. loan_slice_uninit api (ch_publisher_port c) n i = (Inr s, j) \<and> smp_len s = n \<and> smp_data s \<notin> held i \<and>
        lent j = (lent i)(smp_data s \<mapsto> n) \<and> held j = held i \<and> queue j = queue i \<and>
        payloads_kept api (dom (lent i) \<union> held i) i j"
    and "lent i a = Some n \<Longrightarrow> length bs \<le> n \<Longrightarrow>
      lent (write_bytes api a bs i) = lent i \<and> queue (write_bytes api a bs i) = queue i \<and>
      read_bytes api a (length bs) (write_bytes api a bs i) = bs \<and>
      payloads_kept api (dom (lent i) \<union> held i - {a}) i (write_bytes api a bs i)"
    and "smp_data s \<in> dom (lent i) \<Longrightarrow> length (queue i) < capacity \<Longrightarrow>
      \<exists>k j. sample_send api s i = (Inr k, j) \<and> lent j = (lent i)(smp_data s := None) \<and> held j = held i \<and>
        queue j = queue i @ [payload_bytes api s i] \<and> payloads_kept api (dom (lent i) \<union> held i - {smp_data s}) i j"
    and "lent (sample_drop api s i) = (lent i)(smp_data s := None) \<and> queue (sample_drop api s i) = queue i \<and>
      payloads_kept api (dom (lent i) \<union> held i - {smp_data s}) i (sample_drop api s i)"
    and "\<exists>n j. notify api (ch_notifier c) None i = (Inr n, j) \<and> lent j = lent i \<and> held j = held i \<and> queue j = queue i \<and>
      payloads_kept api (dom (lent i) \<union> held i) i j"
    and "card (held i) < max_held \<Longrightarrow>
      \<exists>x j. receive api (ch_subscriber_port c) i = (Inr x, j) \<and> lent j = lent i \<and> queue j = tl (queue i) \<and>
        payloads_kept api (dom (lent i) \<union> held i) i j \<and> (x = None \<longleftrightarrow> queue i = []) \<and>
        (\<forall>y. x = Some y \<longrightarrow> smp_data y \<notin> dom (lent i) \<and> payload_bytes api y j = hd (queue i) \<and>
           smp_len y = length (hd (queue i)))"
  using assms unfolding zero_copy_contract_def Let_def by simp_all

section \<open>A program that uses loans\<close>

text \<open>
  What the program does, with the messages it has borrowed and taken numbered in the order it got them.
  \<open>Fill\<close> and \<open>Read\<close> access the memory directly; the others are calls.
\<close>

datatype zero_copy_op = Borrow | Fill nat "u8 list" | Give_Back nat | Publish_Loan nat | Take_Loan | Read nat | Return_Loan nat

datatype zero_copy_result = Done | Status rmw_ret | Taken rmw_ret bool | Bytes "u8 list"

definition drop_nth :: "nat \<Rightarrow> 'a list \<Rightarrow> 'a list" where
  "drop_nth k xs = take k xs @ drop (Suc k) xs"

text \<open>The world, and the addresses of the messages that are borrowed and of those that are taken.\<close>

type_synonym ('i, 'm) loan_user = "('i, 'm) world \<times> ptr list \<times> ptr list"

fun zero_copy_call ::
  "'i iox2 \<Rightarrow> 'm ros_env \<Rightarrow> 'm channel \<Rightarrow> zero_copy_op \<Rightarrow> ('i, 'm) loan_user \<Rightarrow>
   (zero_copy_result \<times> ('i, 'm) loan_user) option" where
  "zero_copy_call api env c Borrow (w, ps, qs) = do {
     ((r, out), w) \<leftarrow> rmw_borrow_loaned_message api env (ch_publisher c) (ch_typesupport c) (Some nullptr) w;
     p \<leftarrow> out;
     Some (Status r, w, if r = RMW_RET_OK then ps @ [p] else ps, qs) }"
| "zero_copy_call api env c (Fill k bs) (w, ps, qs) = Some (Done, run_iox (write_bytes api (ps ! k) bs) w, ps, qs)"
| "zero_copy_call api env c (Give_Back k) (w, ps, qs) = do {
     (r, w) \<leftarrow> rmw_return_loaned_message_from_publisher api (ch_publisher c) (ps ! k) w;
     Some (Status r, w, drop_nth k ps, qs) }"
| "zero_copy_call api env c (Publish_Loan k) (w, ps, qs) = do {
     (r, w) \<leftarrow> rmw_publish_loaned_message api (ch_publisher c) (ps ! k) w;
     Some (Status r, w, drop_nth k ps, qs) }"
| "zero_copy_call api env c Take_Loan (w, ps, qs) = do {
     ((r, out, taken), w) \<leftarrow> rmw_take_loaned_message api (ch_subscription c) (Some nullptr) (Some False) w;
     q \<leftarrow> out;
     Some (Taken r (taken = Some True), w, ps, if taken = Some True then qs @ [q] else qs) }"
| "zero_copy_call api env c (Read k) (w, ps, qs) = Some (Bytes (read_bytes api (qs ! k) (ch_size c) (iox w)), w, ps, qs)"
| "zero_copy_call api env c (Return_Loan k) (w, ps, qs) = do {
     (r, w) \<leftarrow> rmw_return_loaned_message_from_subscription api (ch_subscription c) (qs ! k) w;
     Some (Status r, w, ps, drop_nth k qs) }"

text \<open>
  The machine: the payloads that wait, the buffers that are borrowed (\<open>None\<close>: not written yet), and the
  payloads that are taken.
\<close>

type_synonym zero_copy_state = "u8 list list \<times> u8 list option list \<times> u8 list list"

fun zero_copy_step :: "zero_copy_op \<Rightarrow> zero_copy_state \<Rightarrow> zero_copy_result \<times> zero_copy_state" where
  "zero_copy_step Borrow (msgs, out, got) = (Status RMW_RET_OK, msgs, out @ [None], got)"
| "zero_copy_step (Fill k bs) (msgs, out, got) = (Done, msgs, out[k := Some bs], got)"
| "zero_copy_step (Give_Back k) (msgs, out, got) = (Status RMW_RET_OK, msgs, drop_nth k out, got)"
| "zero_copy_step (Publish_Loan k) (msgs, out, got) =
     (Status RMW_RET_OK, msgs @ [case out ! k of Some bs \<Rightarrow> bs | None \<Rightarrow> []], drop_nth k out, got)"
| "zero_copy_step Take_Loan (msgs, out, got) =
     (case msgs of
        [] \<Rightarrow> (Taken RMW_RET_OK False, msgs, out, got)
      | bs # rest \<Rightarrow> (Taken RMW_RET_OK True, rest, out, got @ [bs]))"
| "zero_copy_step (Read k) (msgs, out, got) = (Bytes (got ! k), msgs, out, got)"
| "zero_copy_step (Return_Loan k) (msgs, out, got) = (Status RMW_RET_OK, msgs, out, drop_nth k got)"

text \<open>
  The program uses the numbers of messages it has, writes whole messages, publishes only what it has
  written, and stays within the limits of the middleware.
\<close>

fun zero_copy_may :: "nat \<Rightarrow> nat \<Rightarrow> nat \<Rightarrow> nat \<Rightarrow> zero_copy_op \<Rightarrow> zero_copy_state \<Rightarrow> bool" where
  "zero_copy_may n max_loans max_held capacity Borrow (msgs, out, got) \<longleftrightarrow> length out < max_loans"
| "zero_copy_may n max_loans max_held capacity (Fill k bs) (msgs, out, got) \<longleftrightarrow> k < length out \<and> length bs = n"
| "zero_copy_may n max_loans max_held capacity (Give_Back k) (msgs, out, got) \<longleftrightarrow> k < length out"
| "zero_copy_may n max_loans max_held capacity (Publish_Loan k) (msgs, out, got) \<longleftrightarrow>
     k < length out \<and> out ! k \<noteq> None \<and> length msgs < capacity"
| "zero_copy_may n max_loans max_held capacity Take_Loan (msgs, out, got) \<longleftrightarrow> length got < max_held"
| "zero_copy_may n max_loans max_held capacity (Read k) (msgs, out, got) \<longleftrightarrow> k < length got"
| "zero_copy_may n max_loans max_held capacity (Return_Loan k) (msgs, out, got) \<longleftrightarrow> k < length got"

section \<open>Buffers that do not interfere\<close>

lemma set_drop_nth:
  assumes "distinct xs" and "k < length xs"
  shows "set (drop_nth k xs) = set xs - {xs ! k}"
proof -
  note e = id_take_nth_drop [OF assms(2)]
  from assms(1) e have "distinct (take k xs @ xs ! k # drop (Suc k) xs)" by metis
  with arg_cong [OF e, of set] show ?thesis by (auto simp: drop_nth_def)
qed

lemma distinct_drop_nth: "distinct xs \<Longrightarrow> distinct (drop_nth k xs)"
  using distinct_append [of "take k xs" "drop k xs"] set_drop_subset_set_drop [of k "Suc k" xs]
  by (auto simp: drop_nth_def)

lemma set_drop_nth_subset: "set (drop_nth k xs) \<subseteq> set xs"
  by (auto simp: drop_nth_def dest: in_set_takeD in_set_dropD)

lemma list_all2_drop_nth: "list_all2 P xs ys \<Longrightarrow> list_all2 P (drop_nth k xs) (drop_nth k ys)"
  by (simp add: drop_nth_def list_all2_appendI list_all2_takeI list_all2_dropI)

text \<open>The borrowed buffer at \<open>p\<close> has the size \<open>n\<close>, and the content if it was written.\<close>

definition buffer_at ::
  "'i iox2 \<Rightarrow> ('i \<Rightarrow> ptr \<rightharpoonup> nat) \<Rightarrow> nat \<Rightarrow> 'i \<Rightarrow> ptr \<Rightarrow> u8 list option \<Rightarrow> bool" where
  "buffer_at api lent n i p content \<longleftrightarrow> lent i p = Some n \<and>
     (\<forall>bs. content = Some bs \<longrightarrow> length bs = n \<and> read_bytes api p n i = bs)"

definition loans_related ::
  "'i iox2 \<Rightarrow> ('i \<Rightarrow> ptr \<rightharpoonup> nat) \<Rightarrow> ('i \<Rightarrow> ptr set) \<Rightarrow> ('i \<Rightarrow> u8 list list) \<Rightarrow> nat \<Rightarrow>
   zero_copy_state \<Rightarrow> ptr list \<Rightarrow> ptr list \<Rightarrow> 'i \<Rightarrow> bool" where
  "loans_related api lent held queue n a ps qs i \<longleftrightarrow>
     (case a of (msgs, out, got) \<Rightarrow>
        distinct ps \<and> distinct qs \<and> nullptr \<notin> set ps \<union> set qs \<and> set ps \<inter> set qs = {} \<and>
        dom (lent i) = set ps \<and> held i = set qs \<and> queue i = msgs \<and> (\<forall>bs\<in>set msgs. length bs = n) \<and>
        list_all2 (buffer_at api lent n i) ps out \<and> list_all2 (\<lambda>q bs. read_bytes api q n i = bs) qs got)"

text \<open>What is not touched is still there.\<close>

lemma buffers_kept:
  assumes "list_all2 (buffer_at api lent n i) ps out" and "payloads_kept api A i j" and "set ps \<subseteq> A"
    and "\<And>p. p \<in> set ps \<Longrightarrow> lent j p = lent i p"
  shows "list_all2 (buffer_at api lent n j) ps out"
  using assms(1) by (rule list.rel_mono_strong) (use assms(2-4) in \<open>auto simp: buffer_at_def payloads_kept_def\<close>)

lemma taken_kept:
  assumes "list_all2 (\<lambda>q bs. read_bytes api q n i = bs) qs got" and "payloads_kept api A i j" and "set qs \<subseteq> A"
  shows "list_all2 (\<lambda>q bs. read_bytes api q n j = bs) qs got"
  using assms(1) by (rule list.rel_mono_strong) (use assms(2,3) in \<open>auto simp: payloads_kept_def\<close>)

lemma loans_related_idle:
  assumes "loans_related api lent held queue n a ps qs i" and "payloads_kept api (dom (lent i) \<union> held i) i j"
    and "lent j = lent i" and "held j = held i" and "queue j = queue i"
  shows "loans_related api lent held queue n a ps qs j"
  using assms(1,3-5) buffers_kept [OF _ assms(2)] taken_kept [OF _ assms(2)]
  by (auto simp: loans_related_def split: prod.splits)

text \<open>A sample that leaves the publisher, and one that leaves the subscriber.\<close>

lemma loans_related_release:
  assumes "loans_related api lent held queue n (msgs, out, got) ps qs i" and "k < length ps"
    and "payloads_kept api (dom (lent i) \<union> held i - {ps ! k}) i j"
    and "lent j = (lent i)(ps ! k := None)" and "held j = held i" and "queue j = msgs'" and "\<forall>bs\<in>set msgs'. length bs = n"
  shows "loans_related api lent held queue n (msgs', drop_nth k out, got) (drop_nth k ps) qs j"
proof -
  from assms(1) have r: "distinct ps" "distinct qs" "nullptr \<notin> set ps \<union> set qs" "set ps \<inter> set qs = {}"
    "dom (lent i) = set ps" "held i = set qs" "list_all2 (buffer_at api lent n i) ps out"
    "list_all2 (\<lambda>q bs. read_bytes api q n i = bs) qs got"
    by (simp_all add: loans_related_def)
  note s = set_drop_nth [OF r(1) assms(2)]
  have "list_all2 (buffer_at api lent n j) (drop_nth k ps) (drop_nth k out)"
    by (rule buffers_kept [OF list_all2_drop_nth [OF r(7)] assms(3)]) (use r(5) s assms(4) in auto)
  moreover have "list_all2 (\<lambda>q bs. read_bytes api q n j = bs) qs got"
    by (rule taken_kept [OF r(8) assms(3)]) (use r(4,6) nth_mem [OF assms(2)] in auto)
  ultimately show ?thesis
    using r assms(4-7) s distinct_drop_nth [OF r(1)] by (auto simp: loans_related_def)
qed

lemma loans_related_return:
  assumes "loans_related api lent held queue n (msgs, out, got) ps qs i" and "k < length qs"
    and "payloads_kept api (dom (lent i) \<union> held i - {qs ! k}) i j"
    and "lent j = (lent i)(qs ! k := None)" and "held j = held i - {qs ! k}" and "queue j = queue i"
  shows "loans_related api lent held queue n (msgs, out, drop_nth k got) ps (drop_nth k qs) j"
proof -
  from assms(1) have r: "distinct ps" "distinct qs" "nullptr \<notin> set ps \<union> set qs" "set ps \<inter> set qs = {}"
    "dom (lent i) = set ps" "held i = set qs" "list_all2 (buffer_at api lent n i) ps out"
    "list_all2 (\<lambda>q bs. read_bytes api q n i = bs) qs got" "queue i = msgs" "\<forall>bs\<in>set msgs. length bs = n"
    by (simp_all add: loans_related_def)
  note s = set_drop_nth [OF r(2) assms(2)]
  have q: "qs ! k \<notin> set ps" using r(4) nth_mem [OF assms(2)] by auto
  then have l: "lent j = lent i" using r(5) assms(4) by (metis domIff fun_upd_idem)
  have "list_all2 (buffer_at api lent n j) ps out"
    by (rule buffers_kept [OF r(7) assms(3)]) (use r(5) l q in auto)
  moreover have "list_all2 (\<lambda>q bs. read_bytes api q n j = bs) (drop_nth k qs) (drop_nth k got)"
    by (rule taken_kept [OF list_all2_drop_nth [OF r(8)] assms(3)]) (use r(6) s in auto)
  ultimately show ?thesis
    using r assms(5,6) s l distinct_drop_nth [OF r(2)] by (auto simp: loans_related_def)
qed

section \<open>One call\<close>

text \<open>
  The handles are those of a publisher and a subscription of a self-contained type with messages of \<open>ch_size\<close>
  bytes, and their registries hold the samples that are out.
\<close>

definition zero_copy_ports ::
  "'m ros_env \<Rightarrow> 'm channel \<Rightarrow> ('i \<Rightarrow> ptr \<rightharpoonup> nat) \<Rightarrow> ('i \<Rightarrow> ptr set) \<Rightarrow> ('i, 'm) world \<Rightarrow>
   rmw_publisher \<Rightarrow> publisher_impl \<Rightarrow> rmw_subscription \<Rightarrow> subscriber_impl \<Rightarrow> bool" where
  "zero_copy_ports env c lent held w ph i sh s \<longleftrightarrow>
     publisher_ready (\<lambda>i. dom (lent i)) (ch_publisher_port c) (ch_publisher c) ph i w \<and> rp_can_loan_messages ph \<and>
     pub_notifier i = Some (ch_notifier c) \<and> pub_typesupport i = ch_typesupport c \<and>
     (\<forall>p x. map_of (pub_registry i) p = Some x \<longrightarrow> smp_len x = ch_size c) \<and>
     subscription_ready held (ch_subscriber_port c) (ch_subscription c) sh s w \<and> rs_can_loan_messages sh \<and>
     ch_typesupport c \<noteq> nullptr \<and> (\<forall>w :: ('i, 'm) world. message_size env (ch_typesupport c) w = Some (ch_size c, w))"

definition zero_copy_up ::
  "'i iox2 \<Rightarrow> 'm ros_env \<Rightarrow> 'm channel \<Rightarrow> ('i \<Rightarrow> ptr \<rightharpoonup> nat) \<Rightarrow> ('i \<Rightarrow> ptr set) \<Rightarrow> ('i \<Rightarrow> u8 list list) \<Rightarrow>
   zero_copy_state \<Rightarrow> ('i, 'm) loan_user \<Rightarrow> bool" where
  "zero_copy_up api env c lent held queue a u \<longleftrightarrow>
     (case u of (w, ps, qs) \<Rightarrow>
        (\<exists>ph i sh s. zero_copy_ports env c lent held w ph i sh s) \<and>
        loans_related api lent held queue (ch_size c) a ps qs (iox w))"

lemma subscription_ready_publisher_changed:
  assumes "subscription_ready held port p h s w" and "heap w' = (heap w)(q \<mapsto> PublisherObj i')"
    and "heap w q = Some (PublisherObj i)" and "held (iox w') = held (iox w)"
  shows "subscription_ready held port p h s w'"
  using assms by (auto simp: subscription_ready_def subscriber_balanced_def)

lemma publisher_ready_subscriber_changed:
  assumes "publisher_ready loaned port p h i w" and "heap w' = (heap w)(q \<mapsto> SubscriberObj s')"
    and "heap w q = Some (SubscriberObj s)" and "loaned (iox w') = loaned (iox w)"
  shows "publisher_ready loaned port p h i w'"
  using assms by (auto simp: publisher_ready_def publisher_balanced_def)

lemma publisher_changed:
  fixes w :: "('i, 'm) world"
  assumes "zero_copy_ports env c lent held w ph i sh s" and "heap w' = (heap w)(rp_data ph \<mapsto> PublisherObj (i\<lparr>pub_registry := reg\<rparr>))"
    and "publisher_ready (\<lambda>i. dom (lent i)) (ch_publisher_port c) (ch_publisher c) ph (i\<lparr>pub_registry := reg\<rparr>) w'"
    and "\<And>p x. map_of reg p = Some x \<Longrightarrow> smp_len x = ch_size c" and "held (iox w') = held (iox w)"
  shows "zero_copy_ports env c lent held w' ph (i\<lparr>pub_registry := reg\<rparr>) sh s"
  using assms subscription_ready_publisher_changed [OF _ assms(2) _ assms(5)]
  by (auto simp: zero_copy_ports_def publisher_ready_def)

lemma subscriber_changed:
  fixes w :: "('i, 'm) world"
  assumes "zero_copy_ports env c lent held w ph i sh s" and "heap w' = (heap w)(rs_data sh \<mapsto> SubscriberObj (s\<lparr>sub_registry := reg\<rparr>))"
    and "subscription_ready held (ch_subscriber_port c) (ch_subscription c) sh (s\<lparr>sub_registry := reg\<rparr>) w'"
    and "dom (lent (iox w')) = dom (lent (iox w))"
  shows "zero_copy_ports env c lent held w' ph i sh (s\<lparr>sub_registry := reg\<rparr>)"
  using assms publisher_ready_subscriber_changed [OF _ assms(2)]
  by (auto simp: zero_copy_ports_def subscription_ready_def)

lemma borrow_simulates:
  fixes w :: "('i, 'm) world"
  assumes ct: "zero_copy_contract api c lent held queue max_loans max_held capacity"
    and ports: "zero_copy_ports env c lent held w ph i sh s"
    and rel: "loans_related api lent held queue (ch_size c) (msgs, out, got) ps qs (iox w)" and room: "length out < max_loans"
  shows "\<exists>u. zero_copy_call api env c Borrow (w, ps, qs) = Some (Status RMW_RET_OK, u) \<and>
    zero_copy_up api env c lent held queue (msgs, out @ [None], got) u"
proof -
  note lc = zero_copy_contractD(1) [OF ct]
  from ports have p: "publisher_ready (\<lambda>i. dom (lent i)) (ch_publisher_port c) (ch_publisher c) ph i w" "rp_can_loan_messages ph"
    "ch_typesupport c \<noteq> nullptr" "message_size env (pub_typesupport i) w = Some (ch_size c, w)"
    "\<And>p x. map_of (pub_registry i) p = Some x \<Longrightarrow> smp_len x = ch_size c"
    by (auto simp: zero_copy_ports_def)
  have "card (dom (lent (iox w))) < max_loans"
    using rel room by (auto simp: loans_related_def distinct_card dest: list_all2_lengthD)
  then obtain x j where x: "loan_slice_uninit api (ch_publisher_port c) (ch_size c) (iox w) = (Inr x, j)" "smp_len x = ch_size c"
    "smp_data x \<notin> held (iox w)" "lent j = (lent (iox w))(smp_data x \<mapsto> ch_size c)" "held j = held (iox w)"
    "queue j = queue (iox w)" "payloads_kept api (dom (lent (iox w)) \<union> held (iox w)) (iox w) j"
    using zero_copy_contractD(3) [OF ct] by metis
  show ?thesis
  proof (rule publisher_loan_call [OF p(1) lc, of "ch_size c"], goal_cases)
    case 1
    with x(1) show ?case by simp
  next
    case (2 y reg w')
    then have [simp]: "y = x" "iox w' = j" using x(1) by simp_all
    have "zero_copy_ports env c lent held w' ph (i\<lparr>pub_registry := reg\<rparr>) sh s"
      by (rule publisher_changed [OF ports 2(3,6)]) (use 2(4) p(5) x(2,5) in \<open>auto split: if_splits\<close>)
    moreover have "loans_related api lent held queue (ch_size c) (msgs, out @ [None], got) (ps @ [smp_data x]) qs j"
    proof -
      from rel have r: "dom (lent (iox w)) = set ps" "held (iox w) = set qs"
        "list_all2 (buffer_at api lent (ch_size c) (iox w)) ps out"
        "list_all2 (\<lambda>q bs. read_bytes api q (ch_size c) (iox w) = bs) qs got"
        by (simp_all add: loans_related_def)
      have "list_all2 (buffer_at api lent (ch_size c) j) ps out"
        by (rule buffers_kept [OF r(3) x(7)]) (use r(1) x(4) 2(8) in auto)
      moreover have "list_all2 (\<lambda>q bs. read_bytes api q (ch_size c) j = bs) qs got"
        by (rule taken_kept [OF r(4) x(7)]) (simp add: r(2))
      ultimately show ?thesis
        using rel x(3-6) 2(7,8) by (auto simp: loans_related_def buffer_at_def intro!: list_all2_appendI)
    qed
    ultimately show ?thesis
      using loan_calls_simps(3) [OF p(1-4)] 2(2) by (auto simp: zero_copy_up_def)
  qed
qed

lemma fill_simulates:
  fixes w :: "('i, 'm) world"
  assumes ct: "zero_copy_contract api c lent held queue max_loans max_held capacity"
    and ports: "zero_copy_ports env c lent held w ph i sh s"
    and rel: "loans_related api lent held queue (ch_size c) (msgs, out, got) ps qs (iox w)"
    and k: "k < length out" and bs: "length bs = ch_size c"
  shows "zero_copy_up api env c lent held queue (msgs, out[k := Some bs], got) (run_iox (write_bytes api (ps ! k) bs) w, ps, qs)"
proof -
  let ?a = "ps ! k" and ?w = "run_iox (write_bytes api (ps ! k) bs) w"
  from rel have r: "distinct ps" "set ps \<inter> set qs = {}" "dom (lent (iox w)) = set ps" "held (iox w) = set qs"
    "list_all2 (buffer_at api lent (ch_size c) (iox w)) ps out"
    by (simp_all add: loans_related_def)
  have kp: "k < length ps" using k r(5) by (simp add: list_all2_lengthD)
  have "lent (iox w) ?a = Some (ch_size c)"
    using list_all2_nthD [OF r(5) kp] by (simp add: buffer_at_def)
  from zero_copy_contractD(4) [OF ct this, of bs] bs have wr: "lent (iox ?w) = lent (iox w)" "queue (iox ?w) = queue (iox w)"
    "read_bytes api ?a (ch_size c) (iox ?w) = bs" "payloads_kept api (set ps \<union> set qs - {?a}) (iox w) (iox ?w)"
    using r(3,4) by simp_all
  have held: "held (iox ?w) = held (iox w)"
    using receive_contractD(8) [OF zero_copy_contractD(2) [OF ct]] by simp
  have "zero_copy_ports env c lent held ?w ph i sh s"
    using ports wr(1) held
    by (simp add: zero_copy_ports_def publisher_ready_def publisher_balanced_def subscription_ready_def subscriber_balanced_def)
  moreover have "list_all2 (buffer_at api lent (ch_size c) (iox ?w)) ps (out[k := Some bs])"
    using r(1,5) wr bs kp
    by (auto simp: list_all2_conv_all_nth nth_list_update buffer_at_def payloads_kept_def nth_eq_iff_index_eq)
  moreover have "?a \<notin> set qs" using r(2) nth_mem [OF kp] by auto
  ultimately show ?thesis
    using rel wr(1,2) held taken_kept [OF _ wr(4)] by (auto simp: zero_copy_up_def loans_related_def)
qed

lemma give_back_simulates:
  fixes w :: "('i, 'm) world"
  assumes ct: "zero_copy_contract api c lent held queue max_loans max_held capacity"
    and ports: "zero_copy_ports env c lent held w ph i sh s"
    and rel: "loans_related api lent held queue (ch_size c) (msgs, out, got) ps qs (iox w)" and k: "k < length out"
  shows "\<exists>u. zero_copy_call api env c (Give_Back k) (w, ps, qs) = Some (Status RMW_RET_OK, u) \<and>
    zero_copy_up api env c lent held queue (msgs, drop_nth k out, got) u"
proof -
  let ?a = "ps ! k"
  from ports have p: "publisher_ready (\<lambda>i. dom (lent i)) (ch_publisher_port c) (ch_publisher c) ph i w" "rp_can_loan_messages ph"
    "\<And>p x. map_of (pub_registry i) p = Some x \<Longrightarrow> smp_len x = ch_size c"
    by (auto simp: zero_copy_ports_def)
  from rel k have kp: "k < length ps" and dom: "dom (lent (iox w)) = set ps" and nn: "nullptr \<notin> set ps"
    and dj: "set ps \<inter> held (iox w) = {}" and q: "queue (iox w) = msgs" "\<forall>bs\<in>set msgs. length bs = ch_size c"
    by (auto simp: loans_related_def dest: list_all2_lengthD)
  have a: "?a \<noteq> nullptr" "?a \<in> dom (lent (iox w))" "?a \<notin> held (iox w)" using nth_mem [OF kp] nn dom dj by auto
  from publisher_return_loan_call [where a = ?a, OF p(1) zero_copy_contractD(1) [OF ct]] show ?thesis
  proof cases
    case 1
    with a(2) show ?thesis by simp
  next
    case (2 x reg w')
    note drop = zero_copy_contractD(6) [OF ct, of x "iox w", folded 2(7), unfolded 2(3)]
    have held: "held (iox w') = held (iox w)"
      using receive_contractD(6) [OF zero_copy_contractD(2) [OF ct], of x "iox w"] 2(3,7) a(3) by simp
    have "zero_copy_ports env c lent held w' ph (i\<lparr>pub_registry := reg\<rparr>) sh s"
      by (rule publisher_changed [OF ports 2(5,9)]) (use 2(6) p(3) held in \<open>auto split: if_splits\<close>)
    moreover have "loans_related api lent held queue (ch_size c) (msgs, drop_nth k out, got) (drop_nth k ps) qs (iox w')"
      by (rule loans_related_release [OF rel kp]) (use drop held q in auto)
    ultimately show ?thesis
      using loan_calls_simps(1) [OF p(1,2) a(1), of api] 2(4) by (auto simp: zero_copy_up_def)
  qed
qed

lemma payloads_kept_trans:
  "payloads_kept api A i j \<Longrightarrow> payloads_kept api B j l \<Longrightarrow> A \<subseteq> B \<Longrightarrow> payloads_kept api A i l"
  by (auto simp: payloads_kept_def)

lemma publish_loan_simulates:
  fixes w :: "('i, 'm) world"
  assumes ct: "zero_copy_contract api c lent held queue max_loans max_held capacity"
    and ports: "zero_copy_ports env c lent held w ph i sh s"
    and rel: "loans_related api lent held queue (ch_size c) (msgs, out, got) ps qs (iox w)" and k: "k < length out"
    and bs: "out ! k = Some bs" and room: "length msgs < capacity"
  shows "\<exists>u. zero_copy_call api env c (Publish_Loan k) (w, ps, qs) = Some (Status RMW_RET_OK, u) \<and>
    zero_copy_up api env c lent held queue (msgs @ [bs], drop_nth k out, got) u"
proof -
  let ?a = "ps ! k"
  from ports have p: "publisher_ready (\<lambda>i. dom (lent i)) (ch_publisher_port c) (ch_publisher c) ph i w" "rp_can_loan_messages ph"
    "\<And>p x. map_of (pub_registry i) p = Some x \<Longrightarrow> smp_len x = ch_size c" "the (pub_notifier i) = ch_notifier c"
    by (auto simp: zero_copy_ports_def)
  from rel k have kp: "k < length ps" and dom: "dom (lent (iox w)) = set ps" and nn: "nullptr \<notin> set ps"
    and q: "queue (iox w) = msgs" "\<forall>bs\<in>set msgs. length bs = ch_size c"
    and out: "list_all2 (buffer_at api lent (ch_size c) (iox w)) ps out"
    by (auto simp: loans_related_def dest: list_all2_lengthD)
  have a: "?a \<noteq> nullptr" "?a \<in> dom (lent (iox w))" using nth_mem [OF kp] nn dom by auto
  have content: "length bs = ch_size c" "read_bytes api ?a (ch_size c) (iox w) = bs"
    using list_all2_nthD [OF out kp] bs by (simp_all add: buffer_at_def)
  from publisher_publish_loan_ready [where a = ?a, OF p(1) zero_copy_contractD(1) [OF ct]] show ?thesis
  proof cases
    case 1
    with a(2) show ?thesis by simp
  next
    case (2 x reg r w')
    have x: "smp_data x \<in> dom (lent (iox w))" "payload_bytes api x (iox w) = bs"
      using 2(2,3) a(2) p(3) content(2) by (auto simp: payload_bytes_def)
    obtain n j where sent: "sample_send api x (iox w) = (Inr n, j)" "lent j = (lent (iox w))(?a := None)"
      "held j = held (iox w)" "queue j = msgs @ [bs]" "payloads_kept api (dom (lent (iox w)) \<union> held (iox w) - {?a}) (iox w) j"
      using zero_copy_contractD(5) [OF ct x(1)] room q(1) x(2) 2(3) by auto
    obtain m l where told: "notify api (ch_notifier c) None j = (Inr m, l)" "lent l = lent j" "held l = held j"
      "queue l = queue j" "payloads_kept api (dom (lent j) \<union> held j) j l"
      using zero_copy_contractD(7) [OF ct] by metis
    have w': "iox w' = l" "\<not> isl r" using 2(7) sent(1) told(1) p(4) by simp_all
    have "zero_copy_ports env c lent held w' ph (i\<lparr>pub_registry := reg\<rparr>) sh s"
      by (rule publisher_changed [OF ports 2(5,9)]) (use 2(6) p(3) w' sent(3) told(3) in \<open>auto split: if_splits\<close>)
    moreover have "payloads_kept api (dom (lent (iox w)) \<union> held (iox w) - {?a}) (iox w) (iox w')"
      unfolding w' by (rule payloads_kept_trans [OF sent(5) told(5)]) (use sent(2,3) in auto)
    then have "loans_related api lent held queue (ch_size c) (msgs @ [bs], drop_nth k out, got) (drop_nth k ps) qs (iox w')"
      by (rule loans_related_release [OF rel kp]) (use sent(2-4) told(2-4) w' q content in auto)
    ultimately show ?thesis
      using loan_calls_simps(2) [OF p(1,2) a(1), of api] 2(4) w'(2) by (cases r) (auto simp: zero_copy_up_def)
  qed
qed

lemma take_loan_simulates:
  fixes w :: "('i, 'm) world"
  assumes ct: "zero_copy_contract api c lent held queue max_loans max_held capacity"
    and ports: "zero_copy_ports env c lent held w ph i sh s"
    and rel: "loans_related api lent held queue (ch_size c) (msgs, out, got) ps qs (iox w)" and room: "length got < max_held"
  shows "\<exists>u. zero_copy_call api env c Take_Loan (w, ps, qs) = Some (Taken RMW_RET_OK (msgs \<noteq> []), u) \<and>
    zero_copy_up api env c lent held queue (tl msgs, out, if msgs = [] then got else got @ [hd msgs]) u"
proof -
  from ports have p: "subscription_ready held (ch_subscriber_port c) (ch_subscription c) sh s w" "rs_can_loan_messages sh"
    by (auto simp: zero_copy_ports_def)
  from rel have r: "dom (lent (iox w)) = set ps" "held (iox w) = set qs" "queue (iox w) = msgs" "\<forall>bs\<in>set msgs. length bs = ch_size c"
    "list_all2 (buffer_at api lent (ch_size c) (iox w)) ps out"
    "list_all2 (\<lambda>q bs. read_bytes api q (ch_size c) (iox w) = bs) qs got"
    by (simp_all add: loans_related_def)
  have "card (held (iox w)) < max_held"
    using rel room by (auto simp: loans_related_def distinct_card dest: list_all2_lengthD)
  then obtain x j where x: "receive api (ch_subscriber_port c) (iox w) = (Inr x, j)" "lent j = lent (iox w)" "queue j = tl msgs"
    "payloads_kept api (dom (lent (iox w)) \<union> held (iox w)) (iox w) j" "x = None \<longleftrightarrow> msgs = []"
    "\<And>y. x = Some y \<Longrightarrow> smp_data y \<notin> set ps \<and> payload_bytes api y j = hd msgs \<and> smp_len y = length (hd msgs)"
    using zero_copy_contractD(8) [OF ct, of "iox w"] r(1,3) by auto
  have kept: "list_all2 (buffer_at api lent (ch_size c) j) ps out" "list_all2 (\<lambda>q bs. read_bytes api q (ch_size c) j = bs) qs got"
    by (rule buffers_kept [OF r(5) x(4)], use r(1) x(2) in auto) (rule taken_kept [OF r(6) x(4)], simp add: r(2))
  note call = taken_loan_calls_simps(2) [OF p, of api False]
  show ?thesis
  proof (rule take_loan_call [OF p(1) zero_copy_contractD(2) [OF ct]], goal_cases)
    case 1
    with x(1) show ?case by simp
  next
    case (2 w')
    then have e: "x = None" "iox w' = j" "msgs = []" using x(1,5) by simp_all
    have "zero_copy_ports env c lent held w' ph i sh s"
      using ports 2(2,4) e(2) x(2) by (simp add: zero_copy_ports_def publisher_ready_def publisher_balanced_def)
    moreover have "loans_related api lent held queue (ch_size c) ([], out, got) ps qs j"
      using rel kept x(2,3) e 2(5) by (auto simp: loans_related_def)
    ultimately show ?case using call 2(3) e by (auto simp: zero_copy_up_def)
  next
    case (3 y reg w')
    then have e: "x = Some y" "iox w' = j" "msgs \<noteq> []" using x(1,5) by auto
    have "zero_copy_ports env c lent held w' ph i sh (s\<lparr>sub_registry := reg\<rparr>)"
      by (rule subscriber_changed [OF ports 3(3,4)]) (simp add: e(2) x(2))
    moreover have "read_bytes api (smp_data y) (ch_size c) j = hd msgs"
      using x(6) [OF e(1)] r(4) e(3) by (auto simp: payload_bytes_def)
    then have "loans_related api lent held queue (ch_size c) (tl msgs, out, got @ [hd msgs]) ps (qs @ [smp_data y]) j"
      using rel kept x(2,3) x(6) [OF e(1)] e 3(6-8) list.set_sel(2) [OF e(3)]
      by (auto simp: loans_related_def intro!: list_all2_appendI)
    ultimately show ?case using call 3(2) e by (auto simp: zero_copy_up_def)
  qed
qed

lemma return_loan_simulates:
  fixes w :: "('i, 'm) world"
  assumes ct: "zero_copy_contract api c lent held queue max_loans max_held capacity"
    and ports: "zero_copy_ports env c lent held w ph i sh s"
    and rel: "loans_related api lent held queue (ch_size c) (msgs, out, got) ps qs (iox w)" and k: "k < length got"
  shows "\<exists>u. zero_copy_call api env c (Return_Loan k) (w, ps, qs) = Some (Status RMW_RET_OK, u) \<and>
    zero_copy_up api env c lent held queue (msgs, out, drop_nth k got) u"
proof -
  let ?a = "qs ! k"
  from ports have p: "subscription_ready held (ch_subscriber_port c) (ch_subscription c) sh s w" "rs_can_loan_messages sh"
    by (auto simp: zero_copy_ports_def)
  from rel k have kp: "k < length qs" and qs: "held (iox w) = set qs" and nn: "nullptr \<notin> set qs"
    and dj: "dom (lent (iox w)) \<inter> set qs = {}"
    by (auto simp: loans_related_def dest: list_all2_lengthD)
  have a: "?a \<noteq> nullptr" "?a \<in> held (iox w)" "?a \<notin> dom (lent (iox w))" using nth_mem [OF kp] nn qs dj by auto
  from return_loan_call [where a = ?a, OF p(1) zero_copy_contractD(2) [OF ct]] show ?thesis
  proof cases
    case 1
    with a(2) show ?thesis by simp
  next
    case (2 x reg w')
    note drop = zero_copy_contractD(6) [OF ct, of x "iox w", folded 2(6), unfolded 2(3)]
    have "zero_copy_ports env c lent held w' ph i sh (s\<lparr>sub_registry := reg\<rparr>)"
      by (rule subscriber_changed [OF ports 2(5,8)]) (use drop a(3) in auto)
    moreover have "loans_related api lent held queue (ch_size c) (msgs, out, drop_nth k got) ps (drop_nth k qs) (iox w')"
      by (rule loans_related_return [OF rel kp]) (use drop 2(7) in auto)
    ultimately show ?thesis
      using taken_loan_calls_simps(1) [OF p a(1), of api] 2(4) by (auto simp: zero_copy_up_def)
  qed
qed

section \<open>Any sequence of calls\<close>

lemma zero_copy_call_simulates:
  assumes ct: "zero_copy_contract api c lent held queue max_loans max_held capacity"
    and up: "zero_copy_up api env c lent held queue a u" and may: "zero_copy_may (ch_size c) max_loans max_held capacity x a"
  shows "\<exists>u'. zero_copy_call api env c x u = Some (fst (zero_copy_step x a), u') \<and>
    zero_copy_up api env c lent held queue (snd (zero_copy_step x a)) u'"
proof -
  obtain msgs out got where a: "a = (msgs, out, got)" by (cases a)
  obtain w ps qs where u: "u = (w, ps, qs)" by (cases u)
  from up obtain ph i sh s where ports: "zero_copy_ports env c lent held w ph i sh s"
    and rel: "loans_related api lent held queue (ch_size c) (msgs, out, got) ps qs (iox w)"
    by (auto simp: zero_copy_up_def a u)
  show ?thesis
  proof (cases x)
    case Borrow
    with borrow_simulates [OF ct ports rel] may show ?thesis by (simp add: a u)
  next
    case (Fill k bs)
    with fill_simulates [OF ct ports rel] may show ?thesis by (simp add: a u)
  next
    case (Give_Back k)
    with give_back_simulates [OF ct ports rel] may show ?thesis by (simp add: a u)
  next
    case (Publish_Loan k)
    with publish_loan_simulates [OF ct ports rel] may show ?thesis by (auto simp: a u)
  next
    case Take_Loan
    with take_loan_simulates [OF ct ports rel] may show ?thesis by (cases msgs) (simp_all add: a u)
  next
    case (Read k)
    with may rel have "read_bytes api (qs ! k) (ch_size c) (iox w) = got ! k"
      by (auto simp: a u loans_related_def list_all2_conv_all_nth)
    with Read up show ?thesis by (simp add: a u)
  next
    case (Return_Loan k)
    with return_loan_simulates [OF ct ports rel] may show ?thesis by (simp add: a u)
  qed
qed

definition zero_copy_related ::
  "'i iox2 \<Rightarrow> 'm ros_env \<Rightarrow> 'm channel \<Rightarrow> ('i \<Rightarrow> ptr \<rightharpoonup> nat) \<Rightarrow> ('i \<Rightarrow> ptr set) \<Rightarrow> ('i \<Rightarrow> u8 list list) \<Rightarrow>
   nat \<Rightarrow> nat \<Rightarrow> nat \<Rightarrow> zero_copy_state \<Rightarrow> ('i, 'm) loan_user \<Rightarrow> bool" where
  "zero_copy_related api env c lent held queue max_loans max_held capacity a u \<longleftrightarrow>
     zero_copy_contract api c lent held queue max_loans max_held capacity \<and> zero_copy_up api env c lent held queue a u"

interpretation zero_copy: simulation "zero_copy_call api env c" zero_copy_step
    "zero_copy_may (ch_size c) max_loans max_held capacity"
    "zero_copy_related api env c lent held queue max_loans max_held capacity"
  for api :: "'i iox2" and env :: "'m ros_env" and c lent held queue max_loans max_held capacity
proof
  fix a x and u :: "('i, 'm) loan_user"
  assume rel: "zero_copy_related api env c lent held queue max_loans max_held capacity a u"
    and may: "zero_copy_may (ch_size c) max_loans max_held capacity x a"
  from rel have ct: "zero_copy_contract api c lent held queue max_loans max_held capacity"
    and up: "zero_copy_up api env c lent held queue a u" by (simp_all add: zero_copy_related_def)
  from zero_copy_call_simulates [OF ct up may] ct show "\<exists>u'. zero_copy_call api env c x u = Some (fst (zero_copy_step x a), u') \<and>
      zero_copy_related api env c lent held queue max_loans max_held capacity (snd (zero_copy_step x a)) u'"
    unfolding zero_copy_related_def by blast
qed

section \<open>On the middleware that transports\<close>

definition lv_lent :: "live \<Rightarrow> ptr \<rightharpoonup> nat" where
  "lv_lent i a = (if a \<in> set (lv_loans i) then Some (length (lv_memory i a)) else None)"

lemma lv_lent_dom: "dom (lv_lent i) = set (lv_loans i)"
  by (auto simp: lv_lent_def split: if_splits)

lemma live_zero_copy_contract:
  "zero_copy_contract live_api (live_channel pod) lv_lent (\<lambda>i. set (lv_held i)) lv_queue max_loans max_held capacity"
  unfolding zero_copy_contract_def lv_lent_dom
proof (intro conjI allI impI, goal_cases)
  case 1
  show ?case by (rule live_loan_contract)
next
  case 2
  show ?case by (rule live_receive_contract)
next
  case (3 n i)
  show ?case
    using fresh_notin [of "lv_loans i @ lv_held i"]
    by (auto simp: live_api_def lv_loan_def Let_def payloads_kept_def lv_lent_def fun_eq_iff simp del: fresh_notin)
next
  case (4 a n bs i)
  then show ?case
    by (auto simp: live_api_def lv_write_def Let_def payloads_kept_def lv_lent_def fun_eq_iff split: if_splits)
next
  case (8 i)
  show ?case
    using fresh_notin [of "lv_loans i @ lv_held i"]
    by (auto simp: live_api_def lv_receive_def Let_def payloads_kept_def payload_bytes_def lv_lent_def fun_eq_iff
        simp del: fresh_notin split: list.splits)
qed (auto simp: live_api_def lv_send_def lv_remove_def Let_def payloads_kept_def payload_bytes_def lv_lent_def fun_eq_iff)

lemma live_zero_copy_up:
  "zero_copy_up live_api live_env (live_channel True) lv_lent (\<lambda>i. set (lv_held i)) lv_queue ([], [], []) (live_world True, [], [])"
proof -
  have "publisher_ready (\<lambda>i. dom (lv_lent i)) 6 22 (publisher_handle 24 30 True) sim_publisher (live_world True)"
    unfolding lv_lent_dom using sim_publisher_wf
    by (simp add: publisher_ready_def publisher_balanced_def live_world_def sim_world_def sim_publisher_def live_start_def)
  moreover have "subscription_ready (\<lambda>i. set (lv_held i)) 7 26 (subscription_handle 28 32 True) sim_subscriber (live_world True)"
    using sim_subscriber_wf
    by (simp add: subscription_ready_def subscriber_balanced_def live_world_def sim_world_def sim_subscriber_def live_start_def)
  moreover have "message_size live_env 1 w = Some (8, w)" for w :: "(live, u8 list) world"
    by (simp add: message_size_def typesupport_handle_def live_env_def sim_env_def sim_members_def)
  ultimately have "zero_copy_ports live_env (live_channel True) lv_lent (\<lambda>i. set (lv_held i)) (live_world True)
      (publisher_handle 24 30 True) sim_publisher (subscription_handle 28 32 True) sim_subscriber"
    by (simp add: zero_copy_ports_def live_channel_def sim_publisher_def sim_subscriber_def)
  then show ?thesis
    by (auto simp: zero_copy_up_def loans_related_def lv_lent_def live_world_def live_start_def)
qed

section \<open>Properties\<close>

lemma zero_copy_up_out:
  assumes "zero_copy_up api env c lent held queue (msgs, out, got) (w, ps, qs)"
  shows "queue (iox w) = msgs \<and> dom (lent (iox w)) = set ps \<and> held (iox w) = set qs \<and>
    length ps = length out \<and> length qs = length got"
  using assms unfolding zero_copy_up_def loans_related_def by (auto dest: list_all2_lengthD)

text \<open>C8. The loans of a topic implement a queue and two collections of buffers. For every sequence of borrowing,
  writing, publishing and giving back on one side, and taking, reading and returning on the other, with
  any number of messages out on both sides up to the limits of the middleware: every call returns
  \<open>RMW_RET_OK\<close>, \<open>taken\<close> says whether a message was waiting, and what is read in a taken message is what was
  last written into the borrowed one it was published from, however its other messages and those of the
  subscription were used in between. The samples out are exactly the messages the program has, and with
  none left nothing is borrowed on either side.\<close>
theorem zero_copy_refines_queue:
  fixes u :: "('i, 'm) loan_user"
  assumes "zero_copy_contract api c lent held queue max_loans max_held capacity"
    and "zero_copy_up api env c lent held queue a u"
    and "permitted (zero_copy_may (ch_size c) max_loans max_held capacity) zero_copy_step ops a"
  shows "\<exists>results msgs out got w ps qs.
    run_machine zero_copy_step ops a = (results, msgs, out, got) \<and>
    run_calls (zero_copy_call api env c) ops u = Some (results, w, ps, qs) \<and>
    zero_copy_up api env c lent held queue (msgs, out, got) (w, ps, qs) \<and>
    queue (iox w) = msgs \<and> dom (lent (iox w)) = set ps \<and> held (iox w) = set qs \<and>
    length ps = length out \<and> length qs = length got"
proof -
  have "zero_copy_related api env c lent held queue max_loans max_held capacity a u"
    using assms by (simp add: zero_copy_related_def)
  from zero_copy.runs [OF this assms(3)] show ?thesis
    using zero_copy_up_out [of api env c lent held queue]
    by (cases "run_machine zero_copy_step ops a") (fastforce simp: zero_copy_related_def)
qed

text \<open>Two messages are borrowed, written and published in the other order; one more is given back.\<close>
theorem zero_copy_refines_queue_witness:
  "\<exists>u. run_calls (zero_copy_call live_api live_env (live_channel True))
      [Borrow, Borrow, Fill 0 [1, 1, 1, 1, 1, 1, 1, 1], Fill 1 [2, 2, 2, 2, 2, 2, 2, 2], Publish_Loan 1, Borrow, Take_Loan,
       Publish_Loan 0, Give_Back 0, Take_Loan, Take_Loan, Read 1, Read 0, Return_Loan 0, Read 0]
      (live_world True, [], []) =
    Some ([Status RMW_RET_OK, Status RMW_RET_OK, Done, Done, Status RMW_RET_OK, Status RMW_RET_OK, Taken RMW_RET_OK True,
       Status RMW_RET_OK, Status RMW_RET_OK, Taken RMW_RET_OK True, Taken RMW_RET_OK False,
       Bytes [1, 1, 1, 1, 1, 1, 1, 1], Bytes [2, 2, 2, 2, 2, 2, 2, 2], Status RMW_RET_OK, Bytes [1, 1, 1, 1, 1, 1, 1, 1]], u)"
proof -
  have "permitted (zero_copy_may (ch_size (live_channel True)) 2 3 2) zero_copy_step
      [Borrow, Borrow, Fill 0 [1, 1, 1, 1, 1, 1, 1, 1], Fill 1 [2, 2, 2, 2, 2, 2, 2, 2], Publish_Loan 1, Borrow, Take_Loan,
       Publish_Loan 0, Give_Back 0, Take_Loan, Take_Loan, Read 1, Read 0, Return_Loan 0, Read 0] ([], [], [])"
    by (simp add: live_channel_def drop_nth_def)
  from zero_copy_refines_queue [OF live_zero_copy_contract live_zero_copy_up this] show ?thesis
    by (auto simp: drop_nth_def)
qed

end
