(* ===== verification/Rmw_Service.thy ===== *)
theory Rmw_Service
  imports Rmw_Endpoint
begin

text \<open>
  \<open>rmw/client.cpp\<close> and \<open>rmw/service.cpp\<close>: clients and services. Their handles are created and
  destroyed; the exchange of requests and responses is not supported, and each such function checks
  its arguments and says so. \<open>service_handle\<close> is the interface of the two handles, under which
  creation and destruction are related once.
\<close>

section \<open>Type supports of services\<close>

definition ensure_valid_service_typesupport ::
  "'m ros_env \<Rightarrow> ptr \<Rightarrow> 'r \<Rightarrow> ('i, 'm) world \<Rightarrow> (('i, 'm) world \<Rightarrow> ('r \<times> ('i, 'm) world) option) \<Rightarrow>
   ('r \<times> ('i, 'm) world) option" where
  "ensure_valid_service_typesupport env type_support return_value w rest =
     (case typesupport_handle (service_fastrtps_c env type_support) w of
        (Some _, w) \<Rightarrow> rest w
      | (None, w) \<Rightarrow>
          let prev_error_string = error_string w; w = w\<lparr>errmsg := None\<rparr> in
          (case typesupport_handle (service_fastrtps_cpp env type_support) w of
             (Some _, w) \<Rightarrow> rest w
           | (None, w) \<Rightarrow>
               let msg = error_string w in
               fail return_value (''Invalid typesupport: '' @ prev_error_string @ [CHR 0x0A] @ msg)
                 (w\<lparr>errmsg := None\<rparr>)))"

section \<open>Clients\<close>

definition rmw_create_client ::
  "'m ros_env \<Rightarrow> ptr \<Rightarrow> ptr \<Rightarrow> ptr \<Rightarrow> rmw_qos_profile option \<Rightarrow> ('i, 'm) world \<Rightarrow>
   (ptr \<times> ('i, 'm) world) option" where
  "rmw_create_client env rmw_node type_support service_name qos w =
     ensure_not_null rmw_node ''rmw_node'' nullptr w (do {
       node \<leftarrow> load as_node rmw_node w;
       ensure_implementation (rn_identifier node) ''rmw_node->implementation_identifier'' nullptr w (
       ensure_not_null type_support ''type_support'' nullptr w (
       ensure_valid_service_typesupport env type_support nullptr w (\<lambda>w.
       ensure_not_null service_name ''service_name'' nullptr w (do {
         name \<leftarrow> load as_string service_name w;
         ensure_valid (validate_full_topic_name env) ''invalid topic name: '' name nullptr w (
         ensure_given qos ''qos'' nullptr w (\<lambda>qos.
         ensure_valid_qos qos nullptr w (
         case rmw_allocate env (\<lambda>g. ClientHandle \<lparr>rl_identifier = NullIdent, rl_service_name = g\<rparr>) w of
           (rmw_client, w) \<Rightarrow>
             if rmw_client = nullptr then fail nullptr ''failed to allocate memory for rmw_client_t'' w
             else do {
               handle \<leftarrow> load as_client rmw_client w;
               w \<leftarrow> store ClientHandle rmw_client
                     (handle\<lparr>rl_identifier := rmw_get_implementation_identifier\<rparr>) w;
               case allocate_copy env name w of
                 (Inl _, w) \<Rightarrow> do {
                   w \<leftarrow> rmw_free rmw_client w;
                   fail nullptr ''failed to allocate memory for topic name'' w }
               | (Inr name_ptr, w) \<Rightarrow> do {
                   handle \<leftarrow> load as_client rmw_client w;
                   w \<leftarrow> store ClientHandle rmw_client (handle\<lparr>rl_service_name := name_ptr\<rparr>) w;
                   Some (rmw_client, w) } }))) })))) })"

definition rmw_destroy_client :: "ptr \<Rightarrow> ptr \<Rightarrow> ('i, 'm) world \<Rightarrow> (rmw_ret \<times> ('i, 'm) world) option" where
  "rmw_destroy_client rmw_node rmw_client w =
     ensure_not_null rmw_node ''rmw_node'' RMW_RET_INVALID_ARGUMENT w (do {
       node \<leftarrow> load as_node rmw_node w;
       ensure_implementation (rn_identifier node) ''rmw_node->implementation_identifier''
         RMW_RET_INCORRECT_RMW_IMPLEMENTATION w (
       ensure_not_null rmw_client ''rmw_client'' RMW_RET_INVALID_ARGUMENT w (do {
         handle \<leftarrow> load as_client rmw_client w;
         ensure_implementation (rl_identifier handle) ''rmw_client->implementation_identifier''
           RMW_RET_INCORRECT_RMW_IMPLEMENTATION w (do {
           w \<leftarrow> (if rl_service_name handle \<noteq> nullptr
                 then do {
                   w \<leftarrow> deallocate (rl_service_name handle) w;
                   store ClientHandle rmw_client (handle\<lparr>rl_service_name := nullptr\<rparr>) w }
                 else Some w);
           w \<leftarrow> rmw_free rmw_client w;
           Some (RMW_RET_OK, w) }) })) })"

definition rmw_send_request ::
  "ptr \<Rightarrow> ptr \<Rightarrow> ptr \<Rightarrow> ('i, 'm) world \<Rightarrow> (rmw_ret \<times> ('i, 'm) world) option" where
  "rmw_send_request rmw_client ros_request sequence_id w =
     ensure_not_null rmw_client ''rmw_client'' RMW_RET_INVALID_ARGUMENT w (do {
       handle \<leftarrow> load as_client rmw_client w;
       ensure_implementation (rl_identifier handle) ''rmw_client->implementation_identifier''
         RMW_RET_INCORRECT_RMW_IMPLEMENTATION w (
       ensure_not_null ros_request ''ros_request'' RMW_RET_INVALID_ARGUMENT w (
       ensure_not_null sequence_id ''sequence_id'' RMW_RET_INVALID_ARGUMENT w (
         Some (RMW_RET_UNSUPPORTED, w)))) })"

definition rmw_take_response ::
  "ptr \<Rightarrow> ptr \<Rightarrow> ptr \<Rightarrow> ptr \<Rightarrow> ('i, 'm) world \<Rightarrow> (rmw_ret \<times> ('i, 'm) world) option" where
  "rmw_take_response rmw_client request_header ros_response taken w =
     ensure_not_null rmw_client ''rmw_client'' RMW_RET_INVALID_ARGUMENT w (do {
       handle \<leftarrow> load as_client rmw_client w;
       ensure_implementation (rl_identifier handle) ''rmw_client->implementation_identifier''
         RMW_RET_INCORRECT_RMW_IMPLEMENTATION w (
       ensure_not_null request_header ''request_header'' RMW_RET_INVALID_ARGUMENT w (
       ensure_not_null ros_response ''ros_response'' RMW_RET_INVALID_ARGUMENT w (
       ensure_not_null taken ''taken'' RMW_RET_INVALID_ARGUMENT w (
         Some (RMW_RET_UNSUPPORTED, w))))) })"

definition rmw_client_request_publisher_get_actual_qos ::
  "'m ros_env \<Rightarrow> ptr \<Rightarrow> rmw_qos_profile option \<Rightarrow> ('i, 'm) world \<Rightarrow>
   ((rmw_ret \<times> rmw_qos_profile option) \<times> ('i, 'm) world) option" where
  "rmw_client_request_publisher_get_actual_qos env rmw_client qos w =
     (let ret = \<lambda>r. (r, qos) in
      ensure_not_null rmw_client ''rmw_client'' (ret RMW_RET_INVALID_ARGUMENT) w (do {
        handle \<leftarrow> load as_client rmw_client w;
        ensure_implementation (rl_identifier handle) ''rmw_client->implementation_identifier''
          (ret RMW_RET_INCORRECT_RMW_IMPLEMENTATION) w (
        ensure_given qos ''qos'' (ret RMW_RET_INVALID_ARGUMENT) w (\<lambda>_.
          Some ((RMW_RET_OK, Some (qos_profile_services_default env)), w))) }))"

definition rmw_client_response_subscription_get_actual_qos ::
  "'m ros_env \<Rightarrow> ptr \<Rightarrow> rmw_qos_profile option \<Rightarrow> ('i, 'm) world \<Rightarrow>
   ((rmw_ret \<times> rmw_qos_profile option) \<times> ('i, 'm) world) option" where
  "rmw_client_response_subscription_get_actual_qos env rmw_client qos w =
     (let ret = \<lambda>r. (r, qos) in
      ensure_not_null rmw_client ''rmw_client'' (ret RMW_RET_INVALID_ARGUMENT) w (do {
        handle \<leftarrow> load as_client rmw_client w;
        ensure_implementation (rl_identifier handle) ''rmw_client->implementation_identifier''
          (ret RMW_RET_INCORRECT_RMW_IMPLEMENTATION) w (
        ensure_given qos ''qos'' (ret RMW_RET_INVALID_ARGUMENT) w (\<lambda>_.
          Some ((RMW_RET_OK, Some (qos_profile_services_default env)), w))) }))"

definition rmw_client_set_on_new_response_callback ::
  "ptr \<Rightarrow> ptr \<Rightarrow> ('i, 'm) world \<Rightarrow> (rmw_ret \<times> ('i, 'm) world) option" where
  "rmw_client_set_on_new_response_callback rmw_client user_data w =
     ensure_not_null rmw_client ''rmw_client'' RMW_RET_INVALID_ARGUMENT w (do {
       handle \<leftarrow> load as_client rmw_client w;
       ensure_implementation (rl_identifier handle) ''rmw_client->implementation_identifier''
         RMW_RET_INCORRECT_RMW_IMPLEMENTATION w (
       ensure_not_null user_data ''user_data'' RMW_RET_INVALID_ARGUMENT w (
         Some (RMW_RET_UNSUPPORTED, w))) })"

definition rmw_service_server_is_available ::
  "ptr \<Rightarrow> ptr \<Rightarrow> ptr \<Rightarrow> ('i, 'm) world \<Rightarrow> (rmw_ret \<times> ('i, 'm) world) option" where
  "rmw_service_server_is_available rmw_node rmw_client is_available w =
     ensure_not_null rmw_node ''rmw_node'' RMW_RET_INVALID_ARGUMENT w (do {
       node \<leftarrow> load as_node rmw_node w;
       ensure_implementation (rn_identifier node) ''rmw_node->implementation_identifier''
         RMW_RET_INCORRECT_RMW_IMPLEMENTATION w (
       ensure_not_null rmw_client ''rmw_client'' RMW_RET_INVALID_ARGUMENT w (do {
         handle \<leftarrow> load as_client rmw_client w;
         ensure_implementation (rl_identifier handle) ''rmw_client->implementation_identifier''
           RMW_RET_INCORRECT_RMW_IMPLEMENTATION w (
         ensure_not_null is_available ''is_available'' RMW_RET_INVALID_ARGUMENT w (
           Some (RMW_RET_UNSUPPORTED, w))) })) })"

section \<open>Services\<close>

text \<open>The message after a failed allocation speaks of a publisher, as the code does.\<close>

definition rmw_create_service ::
  "'m ros_env \<Rightarrow> ptr \<Rightarrow> ptr \<Rightarrow> ptr \<Rightarrow> rmw_qos_profile option \<Rightarrow> ('i, 'm) world \<Rightarrow>
   (ptr \<times> ('i, 'm) world) option" where
  "rmw_create_service env rmw_node type_support service_name qos w =
     ensure_not_null rmw_node ''rmw_node'' nullptr w (do {
       node \<leftarrow> load as_node rmw_node w;
       ensure_implementation (rn_identifier node) ''rmw_node->implementation_identifier'' nullptr w (
       ensure_not_null type_support ''type_support'' nullptr w (
       ensure_valid_service_typesupport env type_support nullptr w (\<lambda>w.
       ensure_not_null service_name ''service_name'' nullptr w (do {
         name \<leftarrow> load as_string service_name w;
         ensure_valid (validate_full_topic_name env) ''invalid topic name: '' name nullptr w (
         ensure_given qos ''qos'' nullptr w (\<lambda>qos.
         ensure_valid_qos qos nullptr w (
         case rmw_allocate env (\<lambda>g. ServiceHandle \<lparr>rv_identifier = NullIdent, rv_service_name = g\<rparr>) w of
           (rmw_service, w) \<Rightarrow>
             if rmw_service = nullptr then fail nullptr ''failed to allocate memory for rmw_publisher_t'' w
             else do {
               handle \<leftarrow> load as_service rmw_service w;
               w \<leftarrow> store ServiceHandle rmw_service
                     (handle\<lparr>rv_identifier := rmw_get_implementation_identifier\<rparr>) w;
               case allocate_copy env name w of
                 (Inl _, w) \<Rightarrow> do {
                   w \<leftarrow> rmw_free rmw_service w;
                   fail nullptr ''failed to allocate memory for topic name'' w }
               | (Inr name_ptr, w) \<Rightarrow> do {
                   handle \<leftarrow> load as_service rmw_service w;
                   w \<leftarrow> store ServiceHandle rmw_service (handle\<lparr>rv_service_name := name_ptr\<rparr>) w;
                   Some (rmw_service, w) } }))) })))) })"

definition rmw_destroy_service :: "ptr \<Rightarrow> ptr \<Rightarrow> ('i, 'm) world \<Rightarrow> (rmw_ret \<times> ('i, 'm) world) option" where
  "rmw_destroy_service rmw_node rmw_service w =
     ensure_not_null rmw_node ''rmw_node'' RMW_RET_INVALID_ARGUMENT w (do {
       node \<leftarrow> load as_node rmw_node w;
       ensure_implementation (rn_identifier node) ''rmw_node->implementation_identifier''
         RMW_RET_INCORRECT_RMW_IMPLEMENTATION w (
       ensure_not_null rmw_service ''rmw_service'' RMW_RET_INVALID_ARGUMENT w (do {
         handle \<leftarrow> load as_service rmw_service w;
         ensure_implementation (rv_identifier handle) ''rmw_service->implementation_identifier''
           RMW_RET_INCORRECT_RMW_IMPLEMENTATION w (do {
           w \<leftarrow> (if rv_service_name handle \<noteq> nullptr
                 then do {
                   w \<leftarrow> deallocate (rv_service_name handle) w;
                   store ServiceHandle rmw_service (handle\<lparr>rv_service_name := nullptr\<rparr>) w }
                 else Some w);
           w \<leftarrow> rmw_free rmw_service w;
           Some (RMW_RET_OK, w) }) })) })"

definition rmw_take_request ::
  "ptr \<Rightarrow> ptr \<Rightarrow> ptr \<Rightarrow> ptr \<Rightarrow> ('i, 'm) world \<Rightarrow> (rmw_ret \<times> ('i, 'm) world) option" where
  "rmw_take_request rmw_service request_header ros_request taken w =
     ensure_not_null rmw_service ''rmw_service'' RMW_RET_INVALID_ARGUMENT w (do {
       handle \<leftarrow> load as_service rmw_service w;
       ensure_implementation (rv_identifier handle) ''rmw_service->implementation_identifier''
         RMW_RET_INCORRECT_RMW_IMPLEMENTATION w (
       ensure_not_null request_header ''request_header'' RMW_RET_INVALID_ARGUMENT w (
       ensure_not_null ros_request ''ros_request'' RMW_RET_INVALID_ARGUMENT w (
       ensure_not_null taken ''taken'' RMW_RET_INVALID_ARGUMENT w (
         Some (RMW_RET_UNSUPPORTED, w))))) })"

definition rmw_send_response ::
  "ptr \<Rightarrow> ptr \<Rightarrow> ptr \<Rightarrow> ('i, 'm) world \<Rightarrow> (rmw_ret \<times> ('i, 'm) world) option" where
  "rmw_send_response rmw_service request_header ros_response w =
     ensure_not_null rmw_service ''rmw_service'' RMW_RET_INVALID_ARGUMENT w (do {
       handle \<leftarrow> load as_service rmw_service w;
       ensure_implementation (rv_identifier handle) ''rmw_service->implementation_identifier''
         RMW_RET_INCORRECT_RMW_IMPLEMENTATION w (
       ensure_not_null request_header ''request_header'' RMW_RET_INVALID_ARGUMENT w (
       ensure_not_null ros_response ''ros_response'' RMW_RET_INVALID_ARGUMENT w (
         Some (RMW_RET_UNSUPPORTED, w)))) })"

definition rmw_service_request_subscription_get_actual_qos ::
  "'m ros_env \<Rightarrow> ptr \<Rightarrow> rmw_qos_profile option \<Rightarrow> ('i, 'm) world \<Rightarrow>
   ((rmw_ret \<times> rmw_qos_profile option) \<times> ('i, 'm) world) option" where
  "rmw_service_request_subscription_get_actual_qos env rmw_service qos w =
     (let ret = \<lambda>r. (r, qos) in
      ensure_not_null rmw_service ''rmw_service'' (ret RMW_RET_INVALID_ARGUMENT) w (do {
        handle \<leftarrow> load as_service rmw_service w;
        ensure_implementation (rv_identifier handle) ''rmw_service->implementation_identifier''
          (ret RMW_RET_INCORRECT_RMW_IMPLEMENTATION) w (
        ensure_given qos ''qos'' (ret RMW_RET_INVALID_ARGUMENT) w (\<lambda>_.
          Some ((RMW_RET_OK, Some (qos_profile_services_default env)), w))) }))"

definition rmw_service_response_publisher_get_actual_qos ::
  "'m ros_env \<Rightarrow> ptr \<Rightarrow> rmw_qos_profile option \<Rightarrow> ('i, 'm) world \<Rightarrow>
   ((rmw_ret \<times> rmw_qos_profile option) \<times> ('i, 'm) world) option" where
  "rmw_service_response_publisher_get_actual_qos env rmw_service qos w =
     (let ret = \<lambda>r. (r, qos) in
      ensure_not_null rmw_service ''rmw_service'' (ret RMW_RET_INVALID_ARGUMENT) w (do {
        handle \<leftarrow> load as_service rmw_service w;
        ensure_implementation (rv_identifier handle) ''rmw_service->implementation_identifier''
          (ret RMW_RET_INCORRECT_RMW_IMPLEMENTATION) w (
        ensure_given qos ''qos'' (ret RMW_RET_INVALID_ARGUMENT) w (\<lambda>_.
          Some ((RMW_RET_OK, Some (qos_profile_services_default env)), w))) }))"

definition rmw_service_set_on_new_request_callback ::
  "ptr \<Rightarrow> ptr \<Rightarrow> ('i, 'm) world \<Rightarrow> (rmw_ret \<times> ('i, 'm) world) option" where
  "rmw_service_set_on_new_request_callback rmw_service user_data w =
     ensure_not_null rmw_service ''rmw_service'' RMW_RET_INVALID_ARGUMENT w (do {
       handle \<leftarrow> load as_service rmw_service w;
       ensure_implementation (rv_identifier handle) ''rmw_service->implementation_identifier''
         RMW_RET_INCORRECT_RMW_IMPLEMENTATION w (
       ensure_not_null user_data ''user_data'' RMW_RET_INVALID_ARGUMENT w (
         Some (RMW_RET_UNSUPPORTED, w))) })"

section \<open>The common shape\<close>

definition create_service_endpoint ::
  "'m ros_env \<Rightarrow> ('h \<Rightarrow> 'm obj) \<Rightarrow> ('m obj \<Rightarrow> 'h option) \<Rightarrow> (ptr \<Rightarrow> 'h) \<Rightarrow> (ident \<Rightarrow> 'h \<Rightarrow> 'h) \<Rightarrow>
   (ptr \<Rightarrow> 'h \<Rightarrow> 'h) \<Rightarrow> string \<Rightarrow> ptr \<Rightarrow> ptr \<Rightarrow> ptr \<Rightarrow> rmw_qos_profile option \<Rightarrow> ('i, 'm) world \<Rightarrow>
   (ptr \<times> ('i, 'm) world) option" where
  "create_service_endpoint env mk sel new set_ident set_name no_memory rmw_node type_support service_name qos w =
     ensure_not_null rmw_node ''rmw_node'' nullptr w (do {
       node \<leftarrow> load as_node rmw_node w;
       ensure_implementation (rn_identifier node) ''rmw_node->implementation_identifier'' nullptr w (
       ensure_not_null type_support ''type_support'' nullptr w (
       ensure_valid_service_typesupport env type_support nullptr w (\<lambda>w.
       ensure_not_null service_name ''service_name'' nullptr w (do {
         name \<leftarrow> load as_string service_name w;
         ensure_valid (validate_full_topic_name env) ''invalid topic name: '' name nullptr w (
         ensure_given qos ''qos'' nullptr w (\<lambda>qos.
         ensure_valid_qos qos nullptr w (
         case rmw_allocate env (\<lambda>g. mk (new g)) w of
           (p, w) \<Rightarrow>
             if p = nullptr then fail nullptr no_memory w
             else do {
               handle \<leftarrow> load sel p w;
               w \<leftarrow> store mk p (set_ident rmw_get_implementation_identifier handle) w;
               case allocate_copy env name w of
                 (Inl _, w) \<Rightarrow> do {
                   w \<leftarrow> rmw_free p w;
                   fail nullptr ''failed to allocate memory for topic name'' w }
               | (Inr name_ptr, w) \<Rightarrow> do {
                   handle \<leftarrow> load sel p w;
                   w \<leftarrow> store mk p (set_name name_ptr handle) w;
                   Some (p, w) } }))) })))) })"

definition destroy_service_endpoint ::
  "('h \<Rightarrow> 'm obj) \<Rightarrow> ('m obj \<Rightarrow> 'h option) \<Rightarrow> ('h \<Rightarrow> ident) \<Rightarrow> ('h \<Rightarrow> ptr) \<Rightarrow> (ptr \<Rightarrow> 'h \<Rightarrow> 'h) \<Rightarrow>
   string \<Rightarrow> string \<Rightarrow> ptr \<Rightarrow> ptr \<Rightarrow> ('i, 'm) world \<Rightarrow> (rmw_ret \<times> ('i, 'm) world) option" where
  "destroy_service_endpoint mk sel ident_of name_of set_name a1 a2 rmw_node p w =
     ensure_not_null rmw_node ''rmw_node'' RMW_RET_INVALID_ARGUMENT w (do {
       node \<leftarrow> load as_node rmw_node w;
       ensure_implementation (rn_identifier node) ''rmw_node->implementation_identifier''
         RMW_RET_INCORRECT_RMW_IMPLEMENTATION w (
       ensure_not_null p a1 RMW_RET_INVALID_ARGUMENT w (do {
         handle \<leftarrow> load sel p w;
         ensure_implementation (ident_of handle) a2 RMW_RET_INCORRECT_RMW_IMPLEMENTATION w (do {
           w \<leftarrow> (if name_of handle \<noteq> nullptr
                 then do {
                   w \<leftarrow> deallocate (name_of handle) w;
                   store mk p (set_name nullptr handle) w }
                 else Some w);
           w \<leftarrow> rmw_free p w;
           Some (RMW_RET_OK, w) }) })) })"

definition service_arguments_ok ::
  "'m ros_env \<Rightarrow> ptr \<Rightarrow> ptr \<Rightarrow> ptr \<Rightarrow> rmw_qos_profile \<Rightarrow> string \<Rightarrow> ('i, 'm) world \<Rightarrow> bool" where
  "service_arguments_ok env rmw_node ts service_name qos name w \<longleftrightarrow>
     (\<exists>n. heap w rmw_node = Some (NodeHandle n) \<and> rn_identifier n = Iox2Ident) \<and> ts \<noteq> nullptr \<and>
     ((\<exists>d. service_fastrtps_c env ts = Inr d) \<or> (\<exists>d. service_fastrtps_cpp env ts = Inr d)) \<and>
     heap w service_name = Some (CString name) \<and> validate_full_topic_name env name = Inr None \<and> qos_known qos"

lemma ensure_valid_service_typesupport_ok:
  "(\<exists>d. service_fastrtps_c env ts = Inr d) \<or> (\<exists>d. service_fastrtps_cpp env ts = Inr d) \<Longrightarrow>
   \<exists>w0. (\<forall>r rest. ensure_valid_service_typesupport env ts r w rest = rest w0) \<and>
     sys.more w0 = sys.more w \<and> iox w0 = iox w"
  by (cases w) (auto simp: ensure_valid_service_typesupport_def typesupport_handle_def
      split: sum.split option.split)

definition service_steps ::
  "'m ros_env \<Rightarrow> ('h \<Rightarrow> 'm obj) \<Rightarrow> ('m obj \<Rightarrow> 'h option) \<Rightarrow> (ident \<Rightarrow> 'h \<Rightarrow> 'h) \<Rightarrow> (ptr \<Rightarrow> 'h \<Rightarrow> 'h) \<Rightarrow> string \<Rightarrow> ptr \<Rightarrow>
   ('i, 'm) world \<Rightarrow> (ptr \<times> ('i, 'm) world) option" where
  "service_steps env mk sel set_ident set_name name p w = do {
     handle \<leftarrow> load sel p w;
     w \<leftarrow> store mk p (set_ident rmw_get_implementation_identifier handle) w;
     copy_into env name mk sel set_name p (rmw_free p) ''failed to allocate memory for topic name''
       (\<lambda>_ w. Some (p, w)) w }"

lemma create_service_endpoint_simp:
  fixes w :: "('i, 'm) world"
  assumes wf: "world_wf w" and args: "service_arguments_ok env rmw_node ts service_name qos name w"
  obtains w0 where "sys.more w0 = sys.more w" "iox w0 = iox w"
    "create_service_endpoint env mk sel new set_ident set_name m rmw_node ts service_name (Some qos) w =
       (case rmw_allocate env (\<lambda>g. mk (new g)) w0 of
          (p, w) \<Rightarrow> if p = nullptr then fail nullptr m w else service_steps env mk sel set_ident set_name name p w)"
proof -
  from args obtain n where n: "heap w rmw_node = Some (NodeHandle n)" "rn_identifier n = Iox2Ident"
    and tsn: "ts \<noteq> nullptr" "(\<exists>d. service_fastrtps_c env ts = Inr d) \<or> (\<exists>d. service_fastrtps_cpp env ts = Inr d)"
    and sn: "heap w service_name = Some (CString name)" and valid: "validate_full_topic_name env name = Inr None"
    and q: "qos_known qos"
    by (auto simp: service_arguments_ok_def)
  have nz: "rmw_node \<noteq> nullptr" "service_name \<noteq> nullptr" using wf n sn by (auto simp: world_wf_def)
  obtain w0 where w0: "\<And>r rest. ensure_valid_service_typesupport env ts r w rest =
      (rest w0 :: (ptr \<times> ('i, 'm) world) option)" "sys.more w0 = sys.more w" "iox w0 = iox w"
    using ensure_valid_service_typesupport_ok [OF tsn(2)] by blast
  have ld: "load as_node rmw_node w = Some n" "load as_string service_name w0 = Some name"
    using n sn world_more [OF w0(2)] by (simp_all add: load_def)
  have qos: "ensure_valid_qos qos nullptr w0 rest = rest" for rest :: "(ptr \<times> ('i, 'm) world) option"
    using q by (auto simp: ensure_valid_qos_def qos_known_def)
  have nm: "ensure_valid (validate_full_topic_name env) a name nullptr w0 rest = rest"
    for a and rest :: "(ptr \<times> ('i, 'm) world) option"
    using valid by (auto simp: ensure_valid_def)
  show thesis
    by (rule that [OF w0(2,3)])
      (unfold create_service_endpoint_def service_steps_def copy_into_def ld ensure_ok(1) [OF nz(1)] ensure_ok(1) [OF nz(2)]
        ensure_ok(1) [OF tsn(1)] ensure_ok(2) [OF n(2)] Option.bind.bind_lunit w0(1) ensure_given_Some qos nm, rule refl)
qed

locale service_handle = object_kind mk sel
  for mk :: "'h \<Rightarrow> 'm obj" and sel +
  fixes handle :: "ident \<Rightarrow> ptr \<Rightarrow> 'h" and ident_of :: "'h \<Rightarrow> ident" and name_of :: "'h \<Rightarrow> ptr"
    and set_ident :: "ident \<Rightarrow> 'h \<Rightarrow> 'h" and set_name :: "ptr \<Rightarrow> 'h \<Rightarrow> 'h"
  assumes ident_of: "ident_of (handle i s) = i" and name_of: "name_of (handle i s) = s"
    and set_ident: "set_ident j (handle i s) = handle j s"
    and set_name: "set_name t (handle i s) = handle i t"
begin

lemma create_cases:
  fixes w :: "('i, 'm) world"
  assumes wf: "world_wf w" and args: "service_arguments_ok env rmw_node ts service_name qos name w"
  obtains w' where
      "create_service_endpoint env mk sel (handle NullIdent) set_ident set_name m rmw_node ts service_name (Some qos) w =
         Some (nullptr, w')" "errmsg w' \<noteq> None" "heap w' = heap w" "world_wf w'" "iox w' = iox w"
  | p t w' where
      "create_service_endpoint env mk sel (handle NullIdent) set_ident set_name m rmw_node ts service_name (Some qos) w =
         Some (p, w')" "p \<noteq> nullptr" "t \<noteq> nullptr" "p \<noteq> t" "heap w p = None" "heap w t = None"
      "heap w' = (heap w)(p \<mapsto> mk (handle Iox2Ident t), t \<mapsto> CString name)" "world_wf w'" "iox w' = iox w"
proof -
  let ?create = "create_service_endpoint env mk sel (handle NullIdent) set_ident set_name m rmw_node ts service_name (Some qos) w"
  note none = that(1) and made = that(2)
  obtain w0 where w0: "sys.more w0 = sys.more w" "iox w0 = iox w"
    and def: "?create = (case rmw_allocate env (\<lambda>g. mk (handle NullIdent g)) w0 of
          (p, w) \<Rightarrow> if p = nullptr then fail nullptr m w else service_steps env mk sel set_ident set_name name p w)"
    by (rule create_service_endpoint_simp [OF wf args])
  have hw0: "heap w0 = heap w" and wf0: "world_wf w0"
    using world_more [OF w0(1)] world_wf_cong [of w0 w] wf by simp_all
  show thesis
  proof (rule rmw_allocate_cases [OF wf0, of env "\<lambda>g. mk (handle NullIdent g)"])
    fix w1 assume "rmw_allocate env (\<lambda>g. mk (handle NullIdent g)) w0 = (nullptr, w1)"
      "heap w1 = heap w0" "world_wf w1" "iox w1 = iox w0"
    then show thesis using hw0 w0(2) by (intro none [of "chain m w1"]) (simp_all add: def fail_def)
  next
    fix p g w1
    assume p: "rmw_allocate env (\<lambda>g. mk (handle NullIdent g)) w0 = (p, w1)"
      "p \<noteq> nullptr" "heap w0 p = None" "heap w1 = (heap w0)(p \<mapsto> mk (handle NullIdent g))"
      "world_wf w1" "iox w1 = iox w0"
    let ?w2 = "w1\<lparr>heap := (heap w1)(p \<mapsto> mk (handle Iox2Ident g))\<rparr>"
    have h1: "heap w1 p = Some (mk (handle NullIdent g))" and h2: "heap ?w2 p = Some (mk (handle Iox2Ident g))"
      using p(4) by simp_all
    have wf2: "world_wf ?w2" by (rule world_wf_upd [OF p(5)]) (simp add: h1)
    have steps: "?create = copy_into env name mk sel set_name p (rmw_free p) ''failed to allocate memory for topic name''
        (\<lambda>_ w. Some (p, w)) ?w2"
      using p(1,2) h1 by (simp add: def service_steps_def load_def store_def set_ident rmw_get_implementation_identifier_def)
    show thesis
    proof (rule copy_into_cases [OF object_kind_axioms wf2 h2, of env name set_name "rmw_free p"
          "''failed to allocate memory for topic name''" "\<lambda>_ w. Some (p, w)"], goal_cases)
      case (1 w3)
      then have "world_wf (w3\<lparr>heap := heap w\<rparr>)" using p(4) hw0 by (intro world_wf_sub) auto
      with 1 p hw0 w0(2) show ?case
        by (intro none [of "chain ''failed to allocate memory for topic name'' (w3\<lparr>heap := heap w\<rparr>)"])
          (simp_all add: steps rmw_free_simp fail_def fun_upd_idem)
    next
      case (2 t w3)
      have "heap w t = None" using 2(4) p(4) hw0 by (simp split: if_splits)
      with 2 p hw0 w0(2) show ?case by (intro made [of p w3 t]) (auto simp: steps set_name)
    qed
  qed
qed

lemma destroys:
  fixes w :: "('i, 'm) world"
  assumes wf: "world_wf w" and n: "heap w rmw_node = Some (NodeHandle n)" "rn_identifier n = Iox2Ident"
    and p: "heap w p = Some (mk (handle Iox2Ident t))" and t: "heap w t = Some (CString name)" "p \<noteq> t"
  shows "destroy_service_endpoint mk sel ident_of name_of set_name a1 a2 rmw_node p w =
    Some (RMW_RET_OK, w\<lparr>heap := (heap w)(t := None, p := None)\<rparr>)"
proof -
  have "rmw_node \<noteq> nullptr" "p \<noteq> nullptr" "t \<noteq> nullptr" using wf n p t by (auto simp: world_wf_def)
  with assms show ?thesis
    by (simp add: destroy_service_endpoint_def ensure_ok load_def deallocate_def rmw_free_def store_def
        ident_of name_of set_name fun_upd_twist)
qed

text \<open>A handle that was created is destroyed without a trace, and a creation that fails leaves none.\<close>

lemma create_destroys:
  fixes w :: "('i, 'm) world"
  assumes wf: "world_wf w" and args: "service_arguments_ok env rmw_node ts service_name qos name w"
  shows "\<exists>p w'. create_service_endpoint env mk sel (handle NullIdent) set_ident set_name m
      rmw_node ts service_name (Some qos) w = Some (p, w') \<and> world_wf w' \<and> iox w' = iox w \<and>
    (p = nullptr \<and> errmsg w' \<noteq> None \<and> heap w' = heap w \<or>
     p \<noteq> nullptr \<and> heap w p = None \<and>
     (\<exists>t. heap w t = None \<and> t \<noteq> p \<and> heap w' = (heap w)(p \<mapsto> mk (handle Iox2Ident t), t \<mapsto> CString name)) \<and>
     destroy_service_endpoint mk sel ident_of name_of set_name a1 a2 rmw_node p w' =
       Some (RMW_RET_OK, w'\<lparr>heap := heap w\<rparr>))"
proof -
  from args obtain n where n: "heap w rmw_node = Some (NodeHandle n)" "rn_identifier n = Iox2Ident"
    by (auto simp: service_arguments_ok_def)
  show ?thesis
  proof (rule create_cases [OF wf args, of m], goal_cases)
    case (1 w')
    then show ?case by auto
  next
    case (2 p t w')
    have "heap w' rmw_node = Some (NodeHandle n)" "heap w' p = Some (mk (handle Iox2Ident t))"
      "heap w' t = Some (CString name)"
      using 2 n by auto
    from destroys [OF 2(8) this(1) n(2) this(2,3) 2(4), of a1 a2]
    have "destroy_service_endpoint mk sel ident_of name_of set_name a1 a2 rmw_node p w' =
        Some (RMW_RET_OK, w'\<lparr>heap := heap w\<rparr>)"
      using 2 by (simp add: fun_upd_idem fun_upd_twist)
    with 2 show ?case by (intro exI [of _ p] exI [of _ w']) (auto intro!: exI [of _ t])
  qed
qed

end

definition client_handle :: "ident \<Rightarrow> ptr \<Rightarrow> rmw_client" where
  "client_handle i s = \<lparr>rl_identifier = i, rl_service_name = s\<rparr>"

definition server_handle :: "ident \<Rightarrow> ptr \<Rightarrow> rmw_service" where
  "server_handle i s = \<lparr>rv_identifier = i, rv_service_name = s\<rparr>"

interpretation client_endpoint: service_handle ClientHandle as_client client_handle rl_identifier
  rl_service_name "\<lambda>i h. h\<lparr>rl_identifier := i\<rparr>" "\<lambda>s h. h\<lparr>rl_service_name := s\<rparr>"
  by unfold_locales (simp_all add: client_handle_def)

interpretation service_endpoint: service_handle ServiceHandle as_service server_handle rv_identifier
  rv_service_name "\<lambda>i h. h\<lparr>rv_identifier := i\<rparr>" "\<lambda>s h. h\<lparr>rv_service_name := s\<rparr>"
  by unfold_locales (simp_all add: server_handle_def)

lemma client_endpoint:
  "rmw_create_client env rmw_node ts service_name qos w =
     create_service_endpoint env ClientHandle as_client (client_handle NullIdent)
       (\<lambda>i h. h\<lparr>rl_identifier := i\<rparr>) (\<lambda>s h. h\<lparr>rl_service_name := s\<rparr>)
       ''failed to allocate memory for rmw_client_t'' rmw_node ts service_name qos w"
  "rmw_destroy_client rmw_node p w =
     destroy_service_endpoint ClientHandle as_client rl_identifier rl_service_name
       (\<lambda>s h. h\<lparr>rl_service_name := s\<rparr>) ''rmw_client'' ''rmw_client->implementation_identifier'' rmw_node p w"
  unfolding rmw_create_client_def create_service_endpoint_def client_handle_def
    rmw_destroy_client_def destroy_service_endpoint_def by (rule refl)+

lemma service_endpoint:
  "rmw_create_service env rmw_node ts service_name qos w =
     create_service_endpoint env ServiceHandle as_service (server_handle NullIdent)
       (\<lambda>i h. h\<lparr>rv_identifier := i\<rparr>) (\<lambda>s h. h\<lparr>rv_service_name := s\<rparr>)
       ''failed to allocate memory for rmw_publisher_t'' rmw_node ts service_name qos w"
  "rmw_destroy_service rmw_node p w =
     destroy_service_endpoint ServiceHandle as_service rv_identifier rv_service_name
       (\<lambda>s h. h\<lparr>rv_service_name := s\<rparr>) ''rmw_service'' ''rmw_service->implementation_identifier'' rmw_node p w"
  unfolding rmw_create_service_def create_service_endpoint_def server_handle_def
    rmw_destroy_service_def destroy_service_endpoint_def by (rule refl)+

text \<open>C22. Creating a client or a service with valid arguments either gives a handle with its own copy of the
  name, in new memory, which the destroy function gives back entirely; or it fails, reports
  it and leaves the memory as it was. The middleware is not touched.\<close>
theorem client_service_create_destroy:
  fixes w :: "('i, 'm) world"
  assumes "world_wf w" and "service_arguments_ok env rmw_node ts service_name qos name w"
  shows "(\<exists>p w'. rmw_create_client env rmw_node ts service_name (Some qos) w = Some (p, w') \<and>
      world_wf w' \<and> iox w' = iox w \<and>
      (p = nullptr \<and> errmsg w' \<noteq> None \<and> heap w' = heap w \<or>
       p \<noteq> nullptr \<and> heap w p = None \<and>
       (\<exists>t. heap w t = None \<and> t \<noteq> p \<and>
          heap w' = (heap w)(p \<mapsto> ClientHandle (client_handle Iox2Ident t), t \<mapsto> CString name)) \<and>
       rmw_destroy_client rmw_node p w' = Some (RMW_RET_OK, w'\<lparr>heap := heap w\<rparr>))) \<and>
    (\<exists>p w'. rmw_create_service env rmw_node ts service_name (Some qos) w = Some (p, w') \<and>
      world_wf w' \<and> iox w' = iox w \<and>
      (p = nullptr \<and> errmsg w' \<noteq> None \<and> heap w' = heap w \<or>
       p \<noteq> nullptr \<and> heap w p = None \<and>
       (\<exists>t. heap w t = None \<and> t \<noteq> p \<and>
          heap w' = (heap w)(p \<mapsto> ServiceHandle (server_handle Iox2Ident t), t \<mapsto> CString name)) \<and>
       rmw_destroy_service rmw_node p w' = Some (RMW_RET_OK, w'\<lparr>heap := heap w\<rparr>)))"
  unfolding client_endpoint service_endpoint
  by (intro conjI client_endpoint.create_destroys [OF assms] service_endpoint.create_destroys [OF assms])

text \<open>A client and a service named like the sample topic, on the node of the sample process.\<close>
theorem client_service_create_destroy_witness:
  "(\<exists>p (w' :: (sim, u8 list) world). rmw_create_client sim_env 6 1 30 (Some sim_qos) sim_world = Some (p, w') \<and>
     world_wf w') \<and>
   (\<exists>p (w' :: (sim, u8 list) world). rmw_create_service sim_env 6 1 30 (Some sim_qos) sim_world = Some (p, w') \<and>
     world_wf w')"
proof -
  have "service_arguments_ok sim_env 6 1 30 sim_qos ''/chatter'' sim_world"
    by (simp add: service_arguments_ok_def sim_world_def sim_env_def sim_qos_def qos_known_def)
  from client_service_create_destroy [OF sim_world_wf this] show ?thesis by blast
qed

end
