(* ===== verification/Rmw_Gid.thy ===== *)
theory Rmw_Gid
  imports Rmw_Publish_Correct
begin

text \<open>
  The small files of the C interface: \<open>rmw/gid.cpp\<close> (the identity of a publisher as bytes),
  \<open>rmw/qos.cpp\<close>, \<open>rmw/event.cpp\<close>, \<open>rmw/feature.cpp\<close> and \<open>rmw/logging.cpp\<close>. An output argument is
  \<open>None\<close> for a null pointer, and otherwise the value it points to, which the call returns updated.
\<close>

section \<open>Global identifiers\<close>

record rmw_gid =
  gid_identifier :: ident
  gid_data :: "u8 list"

text \<open>Copying more bytes than the middleware's identifier has is \<open>None\<close>.\<close>

definition rmw_get_gid_for_publisher ::
  "'i iox2 \<Rightarrow> 'm ros_env \<Rightarrow> ptr \<Rightarrow> rmw_gid option \<Rightarrow> ('i, 'm) world \<Rightarrow>
   ((rmw_ret \<times> rmw_gid option) \<times> ('i, 'm) world) option" where
  "rmw_get_gid_for_publisher api env rmw_publisher rmw_gid w =
     (let ret = \<lambda>r. (r, rmw_gid) in
      ensure_not_null rmw_publisher ''rmw_publisher'' (ret RMW_RET_INVALID_ARGUMENT) w (do {
        handle \<leftarrow> load as_publisher rmw_publisher w;
        ensure_implementation (rp_identifier handle) ''rmw_publisher->implementation_identifier''
          (ret RMW_RET_INCORRECT_RMW_IMPLEMENTATION) w (
        ensure_given rmw_gid ''rmw_gid'' (ret RMW_RET_INVALID_ARGUMENT) w (\<lambda>gid.
          case unsafe_cast (rp_data handle) w of
            (Inl _, w) \<Rightarrow> fail (ret RMW_RET_ERROR) ''failed to retrieve Publisher'' w
          | (Inr publisher_impl, w) \<Rightarrow> do {
              impl \<leftarrow> load as_publisher_impl publisher_impl w;
              uid \<leftarrow> Publisher_unique_id api impl;
              case uid of
                Some bytes \<Rightarrow>
                  if gid_storage_size env \<le> length bytes
                  then Some ((RMW_RET_OK, Some \<lparr>gid_identifier = rmw_get_implementation_identifier,
                                gid_data = take (gid_storage_size env) bytes\<rparr>), w)
                  else None
              | None \<Rightarrow> fail (ret RMW_RET_ERROR) ''unable to retrieve UniquePortId for Publisher'' w })) }))"

definition rmw_get_gid_for_client ::
  "ptr \<Rightarrow> ptr \<Rightarrow> ('i, 'm) world \<Rightarrow> (rmw_ret \<times> ('i, 'm) world) option" where
  "rmw_get_gid_for_client rmw_client rmw_gid w =
     ensure_not_null rmw_client ''rmw_client'' RMW_RET_INVALID_ARGUMENT w (do {
       handle \<leftarrow> load as_client rmw_client w;
       ensure_implementation (rl_identifier handle) ''rmw_client->implementation_identifier''
         RMW_RET_INCORRECT_RMW_IMPLEMENTATION w (
       ensure_not_null rmw_gid ''rmw_gid'' RMW_RET_INVALID_ARGUMENT w (
         Some (RMW_RET_UNSUPPORTED, w))) })"

definition rmw_compare_gids_equal ::
  "'m ros_env \<Rightarrow> rmw_gid option \<Rightarrow> rmw_gid option \<Rightarrow> bool option \<Rightarrow> ('i, 'm) world \<Rightarrow>
   ((rmw_ret \<times> bool option) \<times> ('i, 'm) world) option" where
  "rmw_compare_gids_equal env lhs rhs result w =
     (let ret = \<lambda>r. (r, result) in
      ensure_given lhs ''lhs'' (ret RMW_RET_INVALID_ARGUMENT) w (\<lambda>l.
      ensure_given rhs ''rhs'' (ret RMW_RET_INVALID_ARGUMENT) w (\<lambda>r.
      ensure_given result ''result'' (ret RMW_RET_INVALID_ARGUMENT) w (\<lambda>_.
      ensure_implementation (gid_identifier l) ''lhs->implementation_identifier''
        (ret RMW_RET_INCORRECT_RMW_IMPLEMENTATION) w (
      ensure_implementation (gid_identifier r) ''rhs->implementation_identifier''
        (ret RMW_RET_INCORRECT_RMW_IMPLEMENTATION) w (
        Some ((RMW_RET_OK, Some (take (gid_storage_size env) (gid_data l) =
                                 take (gid_storage_size env) (gid_data r))), w)))))))"

section \<open>Quality of service\<close>

datatype rmw_qos_compatibility_type = QOS_COMPATIBILITY_OK | QOS_COMPATIBILITY_OTHER nat

text \<open>\<open>reason\<close> is the caller's buffer; it is written to whatever \<open>reason_size\<close> says.\<close>

definition rmw_qos_profile_check_compatible ::
  "rmw_qos_profile \<Rightarrow> rmw_qos_profile \<Rightarrow> rmw_qos_compatibility_type option \<Rightarrow> string option \<Rightarrow> nat \<Rightarrow>
   ('i, 'm) world \<Rightarrow>
   ((rmw_ret \<times> rmw_qos_compatibility_type option \<times> string option) \<times> ('i, 'm) world) option" where
  "rmw_qos_profile_check_compatible publisher_profile subscription_profile compatibility reason reason_size w =
     (let ret = \<lambda>r. (r, compatibility, reason) in
      ensure_given compatibility ''compatibility'' (ret RMW_RET_INVALID_ARGUMENT) w (\<lambda>_.
      ensure_given reason ''reason'' (ret RMW_RET_INVALID_ARGUMENT) w (\<lambda>buffer.
        if buffer = [] then None
        else Some ((RMW_RET_OK, Some QOS_COMPATIBILITY_OK, Some (buffer[0 := CHR 0x00])), w))))"

section \<open>Events\<close>

text \<open>Here a handle of another implementation counts as an invalid argument.\<close>

definition rmw_publisher_event_init :: "ptr \<Rightarrow> ('i, 'm) world \<Rightarrow> (rmw_ret \<times> ('i, 'm) world) option" where
  "rmw_publisher_event_init rmw_publisher w =
     ensure_not_null rmw_publisher ''rmw_publisher'' RMW_RET_INVALID_ARGUMENT w (do {
       handle \<leftarrow> load as_publisher rmw_publisher w;
       ensure_implementation (rp_identifier handle) ''rmw_publisher->implementation_identifier''
         RMW_RET_INVALID_ARGUMENT w (
         Some (RMW_RET_UNSUPPORTED, w)) })"

definition rmw_subscription_event_init :: "ptr \<Rightarrow> ('i, 'm) world \<Rightarrow> (rmw_ret \<times> ('i, 'm) world) option" where
  "rmw_subscription_event_init rmw_subscription w =
     ensure_not_null rmw_subscription ''rmw_subscription'' RMW_RET_INVALID_ARGUMENT w (do {
       handle \<leftarrow> load as_subscription rmw_subscription w;
       ensure_implementation (rs_identifier handle) ''rmw_subscription->implementation_identifier''
         RMW_RET_INVALID_ARGUMENT w (
         Some (RMW_RET_UNSUPPORTED, w)) })"

definition rmw_take_event :: "ptr \<Rightarrow> ptr \<Rightarrow> ('i, 'm) world \<Rightarrow> (rmw_ret \<times> ('i, 'm) world) option" where
  "rmw_take_event event_info taken w =
     ensure_not_null event_info ''event_info'' RMW_RET_INVALID_ARGUMENT w (
     ensure_not_null taken ''taken'' RMW_RET_INVALID_ARGUMENT w (
       Some (RMW_RET_UNSUPPORTED, w)))"

definition rmw_event_fini :: rmw_ret where
  "rmw_event_fini = RMW_RET_UNSUPPORTED"

definition rmw_event_set_callback :: "ptr \<Rightarrow> ('i, 'm) world \<Rightarrow> (rmw_ret \<times> ('i, 'm) world) option" where
  "rmw_event_set_callback user_data w =
     ensure_not_null user_data ''user_data'' RMW_RET_INVALID_ARGUMENT w (
       Some (RMW_RET_UNSUPPORTED, w))"

section \<open>Features and logging\<close>

definition rmw_feature_supported :: "nat \<Rightarrow> bool" where
  "rmw_feature_supported rmw_feature = False"

datatype rmw_log_severity = LOG_SEVERITY_DEBUG | LOG_SEVERITY_INFO | LOG_SEVERITY_WARN
  | LOG_SEVERITY_ERROR | LOG_SEVERITY_FATAL | LOG_SEVERITY_OTHER nat

fun rmw_set_log_severity ::
  "'i iox2 \<Rightarrow> rmw_log_severity \<Rightarrow> ('i, 'm) world \<Rightarrow> rmw_ret \<times> ('i, 'm) world" where
  "rmw_set_log_severity api LOG_SEVERITY_DEBUG w = (RMW_RET_OK, run_iox (set_log_level api Log_Debug) w)"
| "rmw_set_log_severity api LOG_SEVERITY_INFO w = (RMW_RET_OK, run_iox (set_log_level api Log_Info) w)"
| "rmw_set_log_severity api LOG_SEVERITY_WARN w = (RMW_RET_OK, run_iox (set_log_level api Log_Warn) w)"
| "rmw_set_log_severity api LOG_SEVERITY_ERROR w = (RMW_RET_OK, run_iox (set_log_level api Log_Error) w)"
| "rmw_set_log_severity api LOG_SEVERITY_FATAL w = (RMW_RET_OK, run_iox (set_log_level api Log_Fatal) w)"
| "rmw_set_log_severity api (LOG_SEVERITY_OTHER n) w = (RMW_RET_ERROR, w)"

section \<open>Properties\<close>

text \<open>A publisher that is up has an identifier.\<close>

lemma gid_of_publisher:
  assumes r: "publisher_ready loaned port p h i w" and u: "pub_unique_id i = Some u"
    and b: "port_id_bytes api u = Some bs" "length bs = gid_storage_size env"
  shows "rmw_get_gid_for_publisher api env p (Some g) w =
    Some ((RMW_RET_OK, Some \<lparr>gid_identifier = Iox2Ident, gid_data = bs\<rparr>), w)"
  using publisher_ready_loads [OF r] u b
  by (simp add: rmw_get_gid_for_publisher_def ensure_ok unsafe_cast_ok Publisher_unique_id_def
      rmw_get_implementation_identifier_def)

text \<open>C33. The identifier of a publisher identifies it: for two publishers that are up both calls succeed and
  change nothing else, and comparing the two identifiers says whether the middleware's ports are the
  same. The hypothesis on the middleware is that the identifiers of its ports are distinct and have
  the size the rmw package reserves.\<close>
theorem gid_identifies_publisher:
  assumes "publisher_ready loaned a p hp ip w" and "publisher_ready loaned b q hq iq w"
    and "pub_unique_id ip = Some u" and "pub_unique_id iq = Some v"
    and "\<forall>port. \<exists>bs. port_id_bytes api port = Some bs \<and> length bs = gid_storage_size env"
    and "port_id_bytes api u = port_id_bytes api v \<longrightarrow> u = v"
  shows "\<exists>l r. rmw_get_gid_for_publisher api env p (Some g) w = Some ((RMW_RET_OK, Some l), w) \<and>
    rmw_get_gid_for_publisher api env q (Some g) w = Some ((RMW_RET_OK, Some r), w) \<and>
    rmw_compare_gids_equal env (Some l) (Some r) (Some res) w = Some ((RMW_RET_OK, Some (u = v)), w)"
proof -
  obtain bs cs where b: "port_id_bytes api u = Some bs" "length bs = gid_storage_size env"
    and c: "port_id_bytes api v = Some cs" "length cs = gid_storage_size env"
    using assms(5) by metis
  from b c assms(6) have "bs = cs \<longleftrightarrow> u = v" by auto
  then show ?thesis
    using gid_of_publisher [OF assms(1,3) b] gid_of_publisher [OF assms(2,4) c] b(2) c(2)
    by (auto simp: rmw_compare_gids_equal_def ensure_ok)
qed

text \<open>The publisher of the sample process and a second one.\<close>
theorem gid_identifies_publisher_witness:
  "\<exists>(w :: (sim, u8 list) world) l r.
     rmw_get_gid_for_publisher sim_api sim_env 22 (Some \<lparr>gid_identifier = NullIdent, gid_data = []\<rparr>) w =
       Some ((RMW_RET_OK, Some l), w) \<and>
     rmw_get_gid_for_publisher sim_api sim_env 36 (Some \<lparr>gid_identifier = NullIdent, gid_data = []\<rparr>) w =
       Some ((RMW_RET_OK, Some r), w) \<and>
     rmw_compare_gids_equal sim_env (Some l) (Some r) (Some True) w = Some ((RMW_RET_OK, Some False), w)"
proof -
  let ?i = "sim_publisher\<lparr>pub_unique_id := Some 8, pub_publisher := Some 8\<rparr>"
  let ?w = "sim_world\<lparr>heap := (heap sim_world)(36 \<mapsto> PublisherHandle (publisher_handle 38 30 True),
              38 \<mapsto> PublisherObj ?i)\<rparr>"
  have p: "publisher_ready (\<lambda>i. set (sim_loans i)) 6 22 (publisher_handle 24 30 True) sim_publisher ?w"
    using sim_publisher_ready by (simp add: publisher_ready_def publisher_balanced_def publisher_handle_def)
  have q: "publisher_ready (\<lambda>i. set (sim_loans i)) 8 36 (publisher_handle 38 30 True) ?i ?w"
    by (simp add: publisher_ready_def publisher_balanced_def publisher_handle_def)
      (simp add: sim_publisher_def sim_start_def publisher_wf_def)
  have u: "pub_unique_id sim_publisher = Some 6" "pub_unique_id ?i = Some 8"
    by (simp_all add: sim_publisher_def)
  have b: "\<forall>port. \<exists>bs. port_id_bytes sim_api port = Some bs \<and> length bs = gid_storage_size sim_env"
    and d: "port_id_bytes sim_api 6 = port_id_bytes sim_api 8 \<longrightarrow> (6 :: nat) = 8"
    by (simp_all add: sim_api_def sim_env_def)
  from gid_identifies_publisher [OF p q u b d] show ?thesis by fastforce
qed

end
