(* ===== verification/Demo_Nodes.thy ===== *)
theory Demo_Nodes
  imports Rmw_Prelude
begin

text \<open>
  The talkers and listeners of \<open>rmw_iceoryx2_cxx_demo_nodes\<close>: what the callback of a talker's timer publishes and
  what a listener logs of it, on a client library that is a parameter.
\<close>

section \<open>The client library\<close>

text \<open>
  What the nodes use of rclcpp: creating a publisher or a subscription with its callback for a topic and a queue
  depth, borrowing a message, assigning to the borrowed message through the reference \<open>get\<close> returns, reading it
  through that reference, publishing it, and \<open>RCLCPP_DEBUG\<close> with a format and its arguments. \<open>None\<close> is an
  exception, which ends the program.
\<close>

record ('s, 'p, 'l, 'm, 'a) rclcpp =
  create_publisher :: "string \<Rightarrow> nat \<Rightarrow> 's \<Rightarrow> ('p \<times> 's) option"
  create_subscription :: "string \<Rightarrow> nat \<Rightarrow> ('m \<Rightarrow> 's \<Rightarrow> 's) \<Rightarrow> 's \<Rightarrow> ('p \<times> 's) option"
  borrow_loaned_message :: "'p \<Rightarrow> 's \<Rightarrow> ('l \<times> 's) option"
  assign_message :: "'l \<Rightarrow> ('m \<Rightarrow> 'm) \<Rightarrow> 's \<Rightarrow> 's"
  read_message :: "'l \<Rightarrow> 's \<Rightarrow> 'm"
  publish_loan :: "'p \<Rightarrow> 'l \<Rightarrow> 's \<Rightarrow> 's option"
  log_debug :: "string \<Rightarrow> 'a list \<Rightarrow> 's \<Rightarrow> 's"

text \<open>A library that does not throw: \<open>sent\<close> is what a publisher published, \<open>logged\<close> what was logged.\<close>

definition rclcpp_contract ::
  "('s, 'p, 'l, 'm, 'a) rclcpp \<Rightarrow> ('p \<Rightarrow> 's \<Rightarrow> 'm list) \<Rightarrow> ('s \<Rightarrow> (string \<times> 'a list) list) \<Rightarrow> bool" where
  "rclcpp_contract rc sent logged \<longleftrightarrow>
     (\<forall>topic depth s. \<exists>p s'. create_publisher rc topic depth s = Some (p, s') \<and> sent p s' = []) \<and>
     (\<forall>p s. \<exists>l s'. borrow_loaned_message rc p s = Some (l, s') \<and> sent p s' = sent p s) \<and>
     (\<forall>l f s. read_message rc l (assign_message rc l f s) = f (read_message rc l s)) \<and>
     (\<forall>p l f s. sent p (assign_message rc l f s) = sent p s) \<and>
     (\<forall>p l s. \<exists>s'. publish_loan rc p l s = Some s' \<and> sent p s' = sent p s @ [read_message rc l s]) \<and>
     (\<forall>l fmt args s. read_message rc l (log_debug rc fmt args s) = read_message rc l s) \<and>
     (\<forall>p fmt args s. sent p (log_debug rc fmt args s) = sent p s) \<and>
     (\<forall>fmt args s. logged (log_debug rc fmt args s) = logged s @ [(fmt, args)])"

lemma rclcpp_contractD:
  assumes "rclcpp_contract rc sent logged"
  shows "\<exists>p s'. create_publisher rc topic depth s = Some (p, s') \<and> sent p s' = []"
    and "\<exists>l s'. borrow_loaned_message rc p s = Some (l, s') \<and> sent p s' = sent p s"
    and "read_message rc l (assign_message rc l f s) = f (read_message rc l s)"
    and "sent p (assign_message rc l f s) = sent p s"
    and "\<exists>s'. publish_loan rc p l s = Some s' \<and> sent p s' = sent p s @ [read_message rc l s]"
    and "read_message rc l (log_debug rc fmt args s) = read_message rc l s"
    and "sent p (log_debug rc fmt args s) = sent p s"
    and "logged (log_debug rc fmt args s) = logged s @ [(fmt, args)]"
  using assms unfolding rclcpp_contract_def by simp_all

section \<open>The messages and what is logged of them\<close>

text \<open>
  \<open>msg/BasicTypes\<close>; the types of floating point numbers are parameters, signed fields are the words
  \<open>sint\<close> reads.
\<close>

record ('f, 'd) basic_types =
  bool_value :: bool
  byte_value :: u8
  char_value :: u8
  float32_value :: 'f
  float64_value :: 'd
  int8_value :: u8
  uint8_value :: u8
  int16_value :: "16 word"
  uint16_value :: "16 word"
  int32_value :: u32
  uint32_value :: u32
  int64_value :: u64
  uint64_value :: u64

text \<open>The assignments to the borrowed message; \<open>to_float\<close> and \<open>to_double\<close> are the conversions from \<open>size_t\<close>.\<close>

definition basic_types_assign ::
  "(u64 \<Rightarrow> 'f) \<Rightarrow> (u64 \<Rightarrow> 'd) \<Rightarrow> u64 \<Rightarrow> ('f, 'd) basic_types \<Rightarrow> ('f, 'd) basic_types" where
  "basic_types_assign to_float to_double count msg =
     msg\<lparr>bool_value := (count mod 2 \<noteq> 0), byte_value := ucast count, char_value := ucast (count mod 128),
         float32_value := to_float count, float64_value := to_double count,
         int8_value := ucast count, uint8_value := ucast count, int16_value := ucast count, uint16_value := ucast count,
         int32_value := ucast count, uint32_value := ucast count, int64_value := count, uint64_value := count\<rparr>"

record strings =
  string_value :: string

definition strings_assign :: "u64 \<Rightarrow> strings \<Rightarrow> strings" where
  "strings_assign count msg = msg\<lparr>string_value := ''Hello '' @ to_string (unat count)\<rparr>"

text \<open>
  What is logged of a basic message: the arguments after the promotions of a variadic call, so narrow integers
  arrive as \<open>int\<close> and a \<open>float\<close> as the \<open>double\<close> \<open>promote\<close> gives.
\<close>

datatype 'd log_arg = Log_int "32 word" | Log_unsigned u32 | Log_double 'd
  | Log_long u64 | Log_unsigned_long u64 | Log_string string

definition lines_format :: "string list \<Rightarrow> string" where
  "lines_format ls = concat (map (\<lambda>l. l @ [CHR 0x0A]) (butlast ls)) @ last ls"

definition basic_types_format :: string where
  "basic_types_format = lines_format
     [''Message content:'', ''  bool_value: %d'', ''  byte_value: %u'', ''  char_value: %u'',
      ''  float32_value: %.2f'', ''  float64_value: %.2f'', ''  int8_value: %d'', ''  uint8_value: %u'',
      ''  int16_value: %d'', ''  uint16_value: %u'', ''  int32_value: %d'', ''  uint32_value: %u'',
      ''  int64_value: %ld'', ''  uint64_value: %lu'']"

definition basic_types_args :: "('f \<Rightarrow> 'd) \<Rightarrow> ('f, 'd) basic_types \<Rightarrow> 'd log_arg list" where
  "basic_types_args promote msg =
     [Log_int (if bool_value msg then 1 else 0), Log_unsigned (ucast (byte_value msg)),
      Log_unsigned (ucast (char_value msg)), Log_double (promote (float32_value msg)), Log_double (float64_value msg),
      Log_int (scast (int8_value msg)), Log_int (ucast (uint8_value msg)), Log_int (scast (int16_value msg)),
      Log_int (ucast (uint16_value msg)), Log_int (int32_value msg), Log_unsigned (uint32_value msg),
      Log_long (int64_value msg), Log_unsigned_long (uint64_value msg)]"

section \<open>The talkers\<close>

record 'p talker =
  m_publisher :: 'p
  m_count :: u64

text \<open>The constructors, and the callbacks \<open>publish\<close> the timers run every two seconds.\<close>

definition BasicTypesTalkerNode_ctor :: "('s, 'p, 'l, ('f, 'd) basic_types, 'd log_arg) rclcpp \<Rightarrow> 's \<Rightarrow> ('p talker \<times> 's) option" where
  "BasicTypesTalkerNode_ctor rc s =
     do { (publisher, s) \<leftarrow> create_publisher rc ''basic_types'' 10 s;
          Some (\<lparr>m_publisher = publisher, m_count = 0\<rparr>, s) }"

definition BasicTypesTalkerNode_publish ::
  "('s, 'p, 'l, ('f, 'd) basic_types, 'd log_arg) rclcpp \<Rightarrow> ('f \<Rightarrow> 'd) \<Rightarrow> (u64 \<Rightarrow> 'f) \<Rightarrow> (u64 \<Rightarrow> 'd) \<Rightarrow> 'p talker \<Rightarrow> 's \<Rightarrow> ('p talker \<times> 's) option" where
  "BasicTypesTalkerNode_publish rc promote to_float to_double this s =
     do { (loan, s) \<leftarrow> borrow_loaned_message rc (m_publisher this) s;
          let s = assign_message rc loan (basic_types_assign to_float to_double (m_count this)) s;
          let s = log_debug rc ''Publishing message'' [] s;
          let s = log_debug rc basic_types_format (basic_types_args promote (read_message rc loan s)) s;
          s \<leftarrow> publish_loan rc (m_publisher this) loan s;
          Some (this\<lparr>m_count := m_count this + 1\<rparr>, s) }"

definition StringsTalkerNode_ctor :: "('s, 'p, 'l, strings, 'a) rclcpp \<Rightarrow> 's \<Rightarrow> ('p talker \<times> 's) option" where
  "StringsTalkerNode_ctor rc s =
     do { (publisher, s) \<leftarrow> create_publisher rc ''strings'' 10 s;
          Some (\<lparr>m_publisher = publisher, m_count = 0\<rparr>, s) }"

definition StringsTalkerNode_publish ::
  "('s, 'p, 'l, strings, 'a) rclcpp \<Rightarrow> 'p talker \<Rightarrow> 's \<Rightarrow> ('p talker \<times> 's) option" where
  "StringsTalkerNode_publish rc this s =
     do { (loan, s) \<leftarrow> borrow_loaned_message rc (m_publisher this) s;
          let s = assign_message rc loan (strings_assign (m_count this)) s;
          s \<leftarrow> publish_loan rc (m_publisher this) loan s;
          Some (this\<lparr>m_count := m_count this + 1\<rparr>, s) }"

section \<open>The listeners\<close>

record 'p listener =
  m_subscription :: 'p

text \<open>\<open>c_str\<close> ends where the first null character is.\<close>

definition c_str :: "string \<Rightarrow> string" where
  "c_str s = takeWhile (\<lambda>c. c \<noteq> CHR 0x00) s"

definition BasicTypesListenerNode_on_msg ::
  "('f \<Rightarrow> 'd) \<Rightarrow> ('s, 'p, 'l, ('f, 'd) basic_types, 'd log_arg) rclcpp \<Rightarrow> ('f, 'd) basic_types \<Rightarrow> 's \<Rightarrow> 's" where
  "BasicTypesListenerNode_on_msg promote rc msg s =
     log_debug rc basic_types_format (basic_types_args promote msg) (log_debug rc ''Got message'' [] s)"

definition BasicTypesListenerNode_ctor ::
  "('f \<Rightarrow> 'd) \<Rightarrow> ('s, 'p, 'l, ('f, 'd) basic_types, 'd log_arg) rclcpp \<Rightarrow> 's \<Rightarrow> ('p listener \<times> 's) option" where
  "BasicTypesListenerNode_ctor promote rc s =
     do { (subscription, s) \<leftarrow> create_subscription rc ''basic_types'' 10 (BasicTypesListenerNode_on_msg promote rc) s;
          Some (\<lparr>m_subscription = subscription\<rparr>, s) }"

definition StringsListenerNode_on_msg ::
  "('s, 'p, 'l, strings, 'd log_arg) rclcpp \<Rightarrow> strings \<Rightarrow> 's \<Rightarrow> 's" where
  "StringsListenerNode_on_msg rc msg s =
     log_debug rc (lines_format [''Message content:'', ''%s'']) [Log_string (c_str (string_value msg))]
       (log_debug rc ''Got message'' [] s)"

definition StringsListenerNode_ctor ::
  "('s, 'p, 'l, strings, 'd log_arg) rclcpp \<Rightarrow> 's \<Rightarrow> ('p listener \<times> 's) option" where
  "StringsListenerNode_ctor rc s =
     do { (subscription, s) \<leftarrow> create_subscription rc ''strings'' 10 (StringsListenerNode_on_msg rc) s;
          Some (\<lparr>m_subscription = subscription\<rparr>, s) }"

section \<open>Ticks of a timer\<close>

fun ticks :: "('p talker \<Rightarrow> 's \<Rightarrow> ('p talker \<times> 's) option) \<Rightarrow> nat \<Rightarrow> 'p talker \<Rightarrow> 's \<Rightarrow> ('p talker \<times> 's) option" where
  "ticks tick 0 this s = Some (this, s)"
| "ticks tick (Suc n) this s = do { (this, s) \<leftarrow> tick this s; ticks tick n this s }"

text \<open>The messages of \<open>n\<close> ticks from a count on, which wraps around.\<close>

definition counted :: "(u64 \<Rightarrow> 'm) \<Rightarrow> u64 \<Rightarrow> nat \<Rightarrow> 'm list" where
  "counted message count n = map (\<lambda>k. message (count + of_nat k)) [0..<n]"

lemma counted_simps:
  "counted message count 0 = []"
  "counted message count (Suc n) = message count # counted message (count + 1) n"
proof -
  have upt: "[0..<Suc n] = 0 # map Suc [0..<n]" by (simp only: upt_conv_Cons map_Suc_upt zero_less_Suc)
  show "counted message count (Suc n) = message count # counted message (count + 1) n"
    unfolding counted_def upt by (simp add: add.assoc)
qed (simp add: counted_def)

lemma counted_distinct:
  assumes "inj message"
  shows "distinct (counted message count n) \<longleftrightarrow> n \<le> 2 ^ 64"
proof -
  have "distinct (counted message count n) \<longleftrightarrow> inj_on (\<lambda>k. message (count + of_nat k)) {0..<n}"
    by (simp add: counted_def distinct_map)
  also have "\<dots> \<longleftrightarrow> inj_on (\<lambda>k. of_nat k :: u64) {0..<n}"
    by (simp only: inj_on_def inj_eq [OF assms] add_left_cancel)
  also have "\<dots> \<longleftrightarrow> n \<le> 2 ^ 64"
  proof
    assume inj: "inj_on (\<lambda>k. of_nat k :: u64) {0..<n}"
    show "n \<le> 2 ^ 64"
    proof (rule ccontr)
      assume "\<not> n \<le> 2 ^ 64"
      then have "(0::nat) = 2 ^ 64" by (intro inj_onD [OF inj]) auto
      then show False by simp
    qed
  qed (auto simp: inj_on_def word_of_nat_eq_iff take_bit_nat_def)
  finally show ?thesis .
qed

text \<open>A talker that publishes one message per tick, made from its count.\<close>

locale counting_talker =
  fixes tick :: "'p talker \<Rightarrow> 's \<Rightarrow> ('p talker \<times> 's) option"
    and message :: "u64 \<Rightarrow> 'm" and sent :: "'p \<Rightarrow> 's \<Rightarrow> 'm list" and works :: bool
  assumes tick: "works \<Longrightarrow> \<exists>s'. tick this s = Some (this\<lparr>m_count := m_count this + 1\<rparr>, s') \<and>
    sent (m_publisher this) s' = sent (m_publisher this) s @ [message (m_count this)]"
begin

lemma ticks_publish:
  "works \<Longrightarrow> \<exists>s'. ticks tick n this s = Some (this\<lparr>m_count := m_count this + of_nat n\<rparr>, s') \<and>
     sent (m_publisher this) s' = sent (m_publisher this) s @ counted message (m_count this) n"
proof (induction n arbitrary: this s)
  case 0
  then show ?case by (simp add: counted_simps)
next
  case (Suc n)
  obtain s1 where s1: "tick this s = Some (this\<lparr>m_count := m_count this + 1\<rparr>, s1)"
    "sent (m_publisher this) s1 = sent (m_publisher this) s @ [message (m_count this)]"
    using tick [OF Suc.prems] by blast
  from Suc.IH [OF Suc.prems, of "this\<lparr>m_count := m_count this + 1\<rparr>" s1] s1 show ?case
    by (auto simp: counted_simps algebra_simps)
qed

end

text \<open>All fields are assigned, so what the borrowed message held does not matter.\<close>

definition basic_types_of :: "(u64 \<Rightarrow> 'f) \<Rightarrow> (u64 \<Rightarrow> 'd) \<Rightarrow> u64 \<Rightarrow> ('f, 'd) basic_types" where
  "basic_types_of to_float to_double count = basic_types_assign to_float to_double count undefined"

lemma basic_types_assigned: "basic_types_assign to_float to_double count msg = basic_types_of to_float to_double count"
  by (simp add: basic_types_of_def basic_types_assign_def)

definition strings_of :: "u64 \<Rightarrow> strings" where
  "strings_of count = strings_assign count undefined"

lemma strings_assigned: "strings_assign count msg = strings_of count"
  by (simp add: strings_of_def strings_assign_def)

lemma loan_cycle:
  assumes c: "rclcpp_contract rc sent logged"
    and logs: "\<And>l s. read_message rc l (logs l s) = read_message rc l s" "\<And>l s. sent p (logs l s) = sent p s"
  shows "\<exists>l s1 s2. borrow_loaned_message rc p s = Some (l, s1) \<and>
    publish_loan rc p l (logs l (assign_message rc l f s1)) = Some s2 \<and>
    sent p s2 = sent p s @ [f (read_message rc l s1)]"
proof -
  obtain l s1 where l: "borrow_loaned_message rc p s = Some (l, s1)" "sent p s1 = sent p s"
    using rclcpp_contractD(2) [OF c] by blast
  let ?s = "logs l (assign_message rc l f s1)"
  obtain s2 where "publish_loan rc p l ?s = Some s2" "sent p s2 = sent p ?s @ [read_message rc l ?s]"
    using rclcpp_contractD(5) [OF c] by blast
  with l show ?thesis by (simp add: logs rclcpp_contractD(3,4) [OF c])
qed

interpretation basic_talker: counting_talker "BasicTypesTalkerNode_publish rc promote to_float to_double" "basic_types_of to_float to_double" sent
    "rclcpp_contract rc sent logged"
  for rc :: "('s, 'p, 'l, ('f, 'd) basic_types, 'd log_arg) rclcpp" and promote to_float to_double sent logged
proof
  fix this :: "'p talker" and s :: 's
  assume c: "rclcpp_contract rc sent logged"
  from loan_cycle [OF c, where p = "m_publisher this" and s = s and f = "basic_types_assign to_float to_double (m_count this)"
      and logs = "\<lambda>l s. let s = log_debug rc ''Publishing message'' [] s in
        log_debug rc basic_types_format (basic_types_args promote (read_message rc l s)) s"]
  show "\<exists>s'. BasicTypesTalkerNode_publish rc promote to_float to_double this s = Some (this\<lparr>m_count := m_count this + 1\<rparr>, s') \<and>
      sent (m_publisher this) s' = sent (m_publisher this) s @ [basic_types_of to_float to_double (m_count this)]"
    by (auto simp: BasicTypesTalkerNode_publish_def basic_types_assigned Let_def rclcpp_contractD(6,7) [OF c])
qed

interpretation strings_talker: counting_talker "StringsTalkerNode_publish rc"
    strings_of sent "rclcpp_contract rc sent logged"
  for rc :: "('s, 'p, 'l, strings, 'a) rclcpp" and sent logged
proof
  fix this :: "'p talker" and s :: 's
  assume c: "rclcpp_contract rc sent logged"
  from loan_cycle [OF c, where p = "m_publisher this" and s = s and f = "strings_assign (m_count this)" and logs = "\<lambda>l s. s"]
  show "\<exists>s'. StringsTalkerNode_publish rc this s = Some (this\<lparr>m_count := m_count this + 1\<rparr>, s') \<and>
      sent (m_publisher this) s' = sent (m_publisher this) s @ [strings_of (m_count this)]"
    by (auto simp: StringsTalkerNode_publish_def strings_assigned)
qed

section \<open>The values of the fields\<close>

lemma unat_cast: "unat (ucast c :: 'b :: len word) = unat c mod 2 ^ LENGTH('b)" for c :: "'a :: len word"
  by (simp add: unsigned_ucast_eq take_bit_eq_mod)

lemma sint_cast: "sint (ucast c :: 'b :: len word) = signed_take_bit (LENGTH('b) - Suc 0) (int (unat c))"
  for c :: "'a :: len word"
  by (simp add: signed_ucast_eq)

lemma sint_wide: "sint c = signed_take_bit 63 (int (unat c))" for c :: u64
  using sint_cast [of c, where 'b = 64] by simp

text \<open>Every field but the two widest forgets the high bits of the count, the signed ones read in two's complement.\<close>

lemma basic_types_values:
  fixes c :: u64
  shows "bool_value (basic_types_of to_float to_double c) \<longleftrightarrow> odd (unat c)"
  "unat (byte_value (basic_types_of to_float to_double c)) = unat c mod 2 ^ 8"
  "unat (char_value (basic_types_of to_float to_double c)) = unat c mod 128"
  "sint (int8_value (basic_types_of to_float to_double c)) = signed_take_bit 7 (int (unat c))"
  "unat (uint8_value (basic_types_of to_float to_double c)) = unat c mod 2 ^ 8"
    "unat (uint16_value (basic_types_of to_float to_double c)) = unat c mod 2 ^ 16"
  "sint (int16_value (basic_types_of to_float to_double c)) = signed_take_bit 15 (int (unat c))"
  "unat (uint32_value (basic_types_of to_float to_double c)) = unat c mod 2 ^ 32"
  "sint (int32_value (basic_types_of to_float to_double c)) = signed_take_bit 31 (int (unat c))"
  "unat (uint64_value (basic_types_of to_float to_double c)) = unat c"
  "sint (int64_value (basic_types_of to_float to_double c)) = signed_take_bit 63 (int (unat c))"
proof -
  have "c mod 2 \<noteq> 0 \<longleftrightarrow> odd (unat c)"
    by (simp add: word_unat_eq_iff unat_mod odd_iff_mod_2_eq_one)
  then show
    "bool_value (basic_types_of to_float to_double c) \<longleftrightarrow> odd (unat c)"
    "unat (byte_value (basic_types_of to_float to_double c)) = unat c mod 2 ^ 8"
    "unat (char_value (basic_types_of to_float to_double c)) = unat c mod 128"
    "sint (int8_value (basic_types_of to_float to_double c)) = signed_take_bit 7 (int (unat c))"
    "unat (uint8_value (basic_types_of to_float to_double c)) = unat c mod 2 ^ 8"
    "unat (uint16_value (basic_types_of to_float to_double c)) = unat c mod 2 ^ 16"
    "sint (int16_value (basic_types_of to_float to_double c)) = signed_take_bit 15 (int (unat c))"
    "unat (uint32_value (basic_types_of to_float to_double c)) = unat c mod 2 ^ 32"
    "sint (int32_value (basic_types_of to_float to_double c)) = signed_take_bit 31 (int (unat c))"
    "unat (uint64_value (basic_types_of to_float to_double c)) = unat c"
    "sint (int64_value (basic_types_of to_float to_double c)) = signed_take_bit 63 (int (unat c))"
    by (simp_all add: basic_types_of_def basic_types_assign_def unat_cast sint_cast sint_wide unat_mod)
qed

lemma inj_basic_types: "inj (basic_types_of to_float to_double)"
  using basic_types_values(10) by (metis injI word_unat_eq_iff)

lemma strings_value: "string_value (strings_of c) = ''Hello '' @ to_string (unat c)"
  by (simp add: strings_of_def strings_assign_def)

lemma inj_strings: "inj strings_of"
  using strings_value by (metis injI same_append_eq to_string_inject word_unat_eq_iff)

section \<open>What a listener logs\<close>

definition basic_types_log :: "('f \<Rightarrow> 'd) \<Rightarrow> ('f, 'd) basic_types \<Rightarrow> (string \<times> 'd log_arg list) list" where
  "basic_types_log promote msg = [(''Got message'', []), (basic_types_format, basic_types_args promote msg)]"

definition strings_log :: "strings \<Rightarrow> (string \<times> 'd log_arg list) list" where
  "strings_log msg =
     [(''Got message'', []), (''Message content:'' @ CHR 0x0A # ''%s'', [Log_string (c_str (string_value msg))])]"

text \<open>The callback runs once for every message.\<close>

lemma basic_listener_log:
  "rclcpp_contract rc sent logged \<Longrightarrow>
   logged (fold (BasicTypesListenerNode_on_msg promote rc) ms s) = logged s @ concat (map (basic_types_log promote) ms)"
  by (induction ms arbitrary: s) (simp_all add: BasicTypesListenerNode_on_msg_def basic_types_log_def rclcpp_contractD(8))

lemma strings_listener_log:
  "rclcpp_contract rc sent logged \<Longrightarrow>
   logged (fold (StringsListenerNode_on_msg rc) ms s) = logged s @ concat (map strings_log ms)"
  by (induction ms arbitrary: s)
    (simp_all add: StringsListenerNode_on_msg_def strings_log_def lines_format_def rclcpp_contractD(8))

lemma null_notin_to_string: "CHR 0x00 \<notin> set (to_string n)"
  using to_string_digits [of n] by (auto simp: is_digit_def)

lemma hello_c_str: "c_str (string_value (strings_of c)) = ''Hello '' @ to_string (unat c)"
  using null_notin_to_string [of "unat c"] by (auto simp: c_str_def strings_value takeWhile_eq_all_conv)

section \<open>A client library that publishes to a list\<close>

text \<open>Its state: what was published, the one message that can be borrowed, and the log.\<close>

definition list_rclcpp :: "('m list \<times> 'm \<times> (string \<times> 'a list) list, unit, unit, 'm, 'a) rclcpp" where
  "list_rclcpp =
     \<lparr>create_publisher = (\<lambda>topic depth (ms, m, ls). Some ((), [], m, ls)),
      create_subscription = (\<lambda>topic depth on_msg s. Some ((), s)), borrow_loaned_message = (\<lambda>p s. Some ((), s)),
      assign_message = (\<lambda>l f (ms, m, ls). (ms, f m, ls)), read_message = (\<lambda>l (ms, m, ls). m),
      publish_loan = (\<lambda>p l (ms, m, ls). Some (ms @ [m], m, ls)),
      log_debug = (\<lambda>fmt args (ms, m, ls). (ms, m, ls @ [(fmt, args)]))\<rparr>"

lemma list_rclcpp_contract: "rclcpp_contract list_rclcpp (\<lambda>p. fst) (\<lambda>s. snd (snd s))"
  by (simp add: rclcpp_contract_def list_rclcpp_def split_beta)

section \<open>Properties\<close>

text \<open>C40. A demo talker publishes one message for each tick of its timer, in order: from the constructor on, \<open>n\<close> ticks
  publish the messages of the counts \<open>0\<close> to \<open>n - 1\<close>, whatever the borrowed messages held before, and the
  messages are all different exactly up to \<open>2 ^ 64\<close> of them, where the counter wraps around. The numbers of a basic
  message are the count modulo the width of their field, \<open>char_value\<close> modulo 128, the signed ones in two's
  complement. A listener logs \<open>Hello\<close> and the count for each message of the strings talker it gets.\<close>
theorem talkers_publish_counts:
  fixes to_float :: "u64 \<Rightarrow> 'f" and to_double :: "u64 \<Rightarrow> 'd"
  assumes "rclcpp_contract basic_rc basic_sent basic_logged" and "rclcpp_contract strings_rc strings_sent strings_logged"
  shows "(\<exists>this s1 s2. BasicTypesTalkerNode_ctor basic_rc s = Some (this, s1) \<and>
      ticks (BasicTypesTalkerNode_publish basic_rc promote to_float to_double) n this s1 = Some (this\<lparr>m_count := of_nat n\<rparr>, s2) \<and>
      basic_sent (m_publisher this) s2 = counted (basic_types_of to_float to_double) 0 n \<and>
      (distinct (basic_sent (m_publisher this) s2) \<longleftrightarrow> n \<le> 2 ^ 64)) \<and>
    (let msg = basic_types_of to_float to_double c in
      (bool_value msg \<longleftrightarrow> odd (unat c)) \<and> unat (char_value msg) = unat c mod 128 \<and>
      unat (uint8_value msg) = unat c mod 2 ^ 8 \<and> sint (int8_value msg) = signed_take_bit 7 (int (unat c)) \<and>
      unat (uint16_value msg) = unat c mod 2 ^ 16 \<and> sint (int16_value msg) = signed_take_bit 15 (int (unat c)) \<and>
      unat (uint32_value msg) = unat c mod 2 ^ 32 \<and> sint (int32_value msg) = signed_take_bit 31 (int (unat c))) \<and>
    (\<exists>this s1 s2. StringsTalkerNode_ctor strings_rc u = Some (this, s1) \<and>
      ticks (StringsTalkerNode_publish strings_rc) n this s1 = Some (this\<lparr>m_count := of_nat n\<rparr>, s2) \<and>
      strings_sent (m_publisher this) s2 = counted strings_of 0 n \<and>
      (distinct (strings_sent (m_publisher this) s2) \<longleftrightarrow> n \<le> 2 ^ 64)) \<and>
    strings_logged (fold (StringsListenerNode_on_msg strings_rc) (counted strings_of 0 n) v) = strings_logged v @
      concat (counted (\<lambda>k. [(''Got message'', []),
        (''Message content:'' @ CHR 0x0A # ''%s'', [Log_string (''Hello '' @ to_string (unat k))])]) 0 n)"
proof (intro conjI)
  obtain p s1 where p: "create_publisher basic_rc ''basic_types'' 10 s = Some (p, s1)" "basic_sent p s1 = []"
    using rclcpp_contractD(1) [OF assms(1)] by blast
  with basic_talker.ticks_publish [OF assms(1), of promote to_float to_double n "\<lparr>m_publisher = p, m_count = 0\<rparr>" s1]
  show "\<exists>this s1 s2. BasicTypesTalkerNode_ctor basic_rc s = Some (this, s1) \<and>
      ticks (BasicTypesTalkerNode_publish basic_rc promote to_float to_double) n this s1 = Some (this\<lparr>m_count := of_nat n\<rparr>, s2) \<and>
      basic_sent (m_publisher this) s2 = counted (basic_types_of to_float to_double) 0 n \<and>
      (distinct (basic_sent (m_publisher this) s2) \<longleftrightarrow> n \<le> 2 ^ 64)"
    by (auto simp: BasicTypesTalkerNode_ctor_def counted_distinct [OF inj_basic_types])
next
  obtain p s1 where p: "create_publisher strings_rc ''strings'' 10 u = Some (p, s1)" "strings_sent p s1 = []"
    using rclcpp_contractD(1) [OF assms(2)] by blast
  with strings_talker.ticks_publish [OF assms(2), of n "\<lparr>m_publisher = p, m_count = 0\<rparr>" s1]
  show "\<exists>this s1 s2. StringsTalkerNode_ctor strings_rc u = Some (this, s1) \<and>
      ticks (StringsTalkerNode_publish strings_rc) n this s1 = Some (this\<lparr>m_count := of_nat n\<rparr>, s2) \<and>
      strings_sent (m_publisher this) s2 = counted strings_of 0 n \<and>
      (distinct (strings_sent (m_publisher this) s2) \<longleftrightarrow> n \<le> 2 ^ 64)"
    by (auto simp: StringsTalkerNode_ctor_def counted_distinct [OF inj_strings])
qed (simp_all add: Let_def basic_types_values strings_listener_log [OF assms(2)] counted_def o_def strings_log_def hello_c_str)

text \<open>Three ticks, and what a listener logs of them.\<close>
theorem talkers_publish_counts_witness:
  "(\<exists>this s. StringsTalkerNode_ctor list_rclcpp ([], \<lparr>string_value = ''old''\<rparr>, [] :: (string \<times> nat log_arg list) list) = Some (this, s) \<and>
      map_option (map string_value \<circ> fst \<circ> snd) (ticks (StringsTalkerNode_publish list_rclcpp) 3 this s) =
        Some [''Hello 0'', ''Hello 1'', ''Hello 2'']) \<and>
   sint (int8_value (basic_types_of id id (200 :: u64))) = - 56"
proof -
  have three: "map string_value (counted strings_of 0 3) = [''Hello 0'', ''Hello 1'', ''Hello 2'']"
    by (simp add: counted_def upt_conv_Cons strings_value to_string.simps digit_def char_of_def bit_0)
  note counts = talkers_publish_counts [OF list_rclcpp_contract list_rclcpp_contract,
      where promote = id and to_float = id and to_double = id and n = 3 and c = 200 and
        u = "([], \<lparr>string_value = ''old''\<rparr>, [] :: (string \<times> nat log_arg list) list)"]
  have "sint (int8_value (basic_types_of id id (200 :: u64))) = - 56"
    using counts by (simp add: Let_def signed_take_bit_eq_take_bit_shift take_bit_eq_mod)
  with counts three show ?thesis by fastforce
qed

end
