(* ===== verification/Spec2Isabelle.thy ===== *)
theory Spec2Isabelle
  imports Rmw_Graph Rmw_Topic Rmw_Signals Rmw_Zero_Copy Rmw_Service Rmw_Gid Demo_Nodes
begin

text \<open>
  A model of \<open>rmw_iceoryx2_cxx\<close>, the ROS 2 middleware implementation on top of iceoryx2
  (\<open>src/rmw_iceoryx2_cxx\<close>), with the theorems that make it correct. File names below are relative to
  \<open>include/rmw_iceoryx2_cxx/\<close> and \<open>src/\<close> of that package.

  \<^bold>\<open>The program.\<close> ROS calls the C functions of \<open>rmw/*.cpp\<close>. Each checks its arguments with the macros
  of \<open>impl/common/ensure.hpp\<close>, follows the handle it is given to a C++ object of \<open>impl/runtime\<close>, and calls
  a method of it; the methods call iceoryx2. A context (\<open>context.cpp\<close>) and every node (\<open>node.cpp\<close>) own
  an \<open>Iceoryx2\<close> instance pair (\<open>impl/middleware/iceoryx2\<close>), through which services and ports are made
  under the names of \<open>impl/common/names.cpp\<close>. Publishers and subscribers keep the samples they have
  loaned in a \<open>SampleRegistry\<close>. A wait set keeps one listener per service it was asked about, stages a
  mapping from listeners to the positions in the caller's arrays before each wait, attaches the mapped
  listeners for its duration and reports the positions whose listener fired. Errors travel as values,
  and the text of the cause in the error message of the thread.

  \<^bold>\<open>The state.\<close> \<open>Rmw_Prelude.sys\<close> is the error message of the thread and the state \<open>iox\<close> of the iceoryx2
  runtime, of any type. \<open>Rmw_Heap.world\<close> extends it with the memory of the process: a map from
  addresses to whole objects (handles of the C interface, objects of \<open>impl/runtime\<close>, strings, messages,
  byte buffers), the next free address and the number of requests made to the allocator. An operation
  gives \<open>None\<close> where the code has undefined behaviour or terminates the process (an access through a
  wrong or freed pointer, an empty optional), and otherwise its result and the new state. A theorem that
  an operation is \<open>Some\<close> therefore says that it returns and does none of this. Numbers that can wrap
  are words: the 32-bit guard condition ids, the 64-bit instance id, the 32-bit serialized size.

  \<^bold>\<open>Parameters.\<close> The libraries are arguments of the definitions. \<open>Iox2_Api.iox2\<close> has one field for each
  function of iceoryx2 the code calls, over the runtime's state; \<open>Ros_Env.ros_env\<close> has the type supports,
  the name validators and the allocator, which may fail at any request; \<open>Rmw_Graph.graph_lib\<close> has
  two functions of rcutils. What a theorem needs of them is a hypothesis stated as a contract: a loan
  is new and ends when it is sent or dropped (\<open>loan_contract\<close>), a received sample likewise
  (\<open>receive_contract\<close>), a guard attaches until it is dropped (\<open>guard_contract\<close>), a wait reports the
  attachments whose listener has a notification and draining consumes them (\<open>delivery_contract\<close>,
  \<open>event_contract\<close>), sent payloads arrive at a subscriber in order (\<open>channel_contract\<close>), samples do not overlap
  (\<open>zero_copy_contract\<close>), a listener hears of the service it was created for, and nothing sent before
  (\<open>listening_contract\<close>), and notifying reaches the listeners that exist then on the service of a topic or of a
  guard condition (\<open>topic_contract\<close>, \<open>signals_contract\<close>). \<open>Sim_Middleware\<close> and \<open>Live_Middleware\<close> are small concrete
  middlewares that meet them, the second with a queue, payload memory and pending notifications; every
  theorem with hypotheses has a witness that applies it to one of them.

  \<^bold>\<open>Theories.\<close>
  \<^item> \<open>Rmw_Prelude\<close>: status codes, identifiers, the error enumerations of \<open>error.hpp\<close>, the error message
    and \<open>RMW_IOX2_CHAIN_ERROR_MSG\<close> (\<open>chain\<close>), calls of the runtime, decimal numerals, lists.
  \<^item> \<open>Iox2_Api\<close>, \<open>Ros_Env\<close>, \<open>Sim_Middleware\<close>, \<open>Live_Middleware\<close>: the parameters, their contracts and the
    concrete instances.
  \<^item> \<open>Simulation\<close>: sequences of calls against an abstract machine. The locale \<open>simulation\<close> lifts what holds of
    one call to every permitted sequence; it is interpreted on a channel, on loans, on a topic and on signals.
  \<^item> \<open>Names\<close>, \<open>Graph_Names\<close>: the name schemes and the parsers of \<open>rmw/graph.cpp\<close>. Names of different
    entities differ, and parsing inverts naming.
  \<^item> \<open>Ordered_Set\<close>: \<open>std::set\<close> as a strictly sorted list.
  \<^item> \<open>Creation\<close>: \<open>create.hpp\<close>, construction in two phases. The locale \<open>fallible_class\<close> is its interface: a
    constructor returns, with a well-formed object or an error and its message. It is
    interpreted for each class in that class's theory.
  \<^item> \<open>Iceoryx2_Handle\<close>, \<open>Context\<close>, \<open>Guard_Condition\<close>, \<open>Node\<close>, \<open>Publisher\<close>, \<open>Subscriber\<close>, \<open>Sample_Registry\<close>,
    \<open>Introspection\<close>: the classes of \<open>impl/\<close>, each a record with its constructor, methods and destructor.
    The registry's entries are exactly the samples the port has out, whatever was called.
  \<^item> \<open>Waitset\<close>, \<open>Waitset_Correct\<close>, \<open>Wait_Liveness\<close>, \<open>Wait_Delivery\<close>: \<open>impl/runtime/waitset\<close>. The locale \<open>name_store\<close> states
    what mapping needs of the listener storage. Mapping refines an abstract list of entries; a wait
    returns what follows from the answers of iceoryx2 (\<open>wait_outcome\<close>) and detaches every guard; what is pending is
    reported, and on a middleware that does not fail exactly that.
  \<^item> \<open>Rmw_Heap\<close>: handles, objects, \<open>allocator.hpp\<close>, \<open>ensure.hpp\<close>, and the locale \<open>object_kind\<close> under which
    reading and writing are proved once for every kind of object. \<open>create_impl\<close> is the tail the create
    functions share, with its cases.
  \<^item> \<open>Rmw_Init\<close>: \<open>rmw/init.cpp\<close>. The three calls on a context refine a three-state automaton; its life
    gives the memory back, but for what the code leaks.
  \<^item> \<open>Rmw_Node\<close>, \<open>Rmw_Guard_Condition\<close>: \<open>rmw/node.cpp\<close> and \<open>rmw/guard_condition.cpp\<close>.
  \<^item> \<open>Rmw_Endpoint\<close>: what the creation of publishers and subscriptions shares (locale
    \<open>endpoint_handle\<close>).
  \<^item> \<open>Rmw_Serialize\<close>: \<open>rmw/serialize.cpp\<close>, with its round trip.
  \<^item> \<open>Rmw_Publisher\<close>, \<open>Rmw_Publish_Correct\<close>: \<open>rmw/publisher.cpp\<close>. What is sent, the ledger of loans under
    any sequence of calls, loans settled once, creation and destruction.
  \<^item> \<open>Rmw_Subscription\<close>, \<open>Rmw_Take_Correct\<close>: \<open>rmw/subscription.cpp\<close>, likewise for taking.
  \<^item> \<open>Rmw_Channel\<close>: publishing and taking together refine a queue of messages, for types that are copied and
    for types that are serialized, in any interleaving.
  \<^item> \<open>Rmw_Zero_Copy\<close>: borrowing, writing, publishing, taking, reading and returning loans refine a queue and two
    collections of buffers that do not interfere, in any order and with several loans out at once.
  \<^item> \<open>Rmw_Waitset\<close>, \<open>Rmw_Wait_Correct\<close>, \<open>Rmw_Wait_Delivery\<close>, \<open>Wait_Frame\<close>, \<open>Wait_Listening\<close>: \<open>rmw/waitset.cpp\<close>.
    The protocol of \<open>rmw_wait\<close> on the arrays; which entries survive and which notifications it consumes; what it
    leaves alone; which listeners it creates.
  \<^item> \<open>Rmw_Topic\<close>: publisher, subscription and wait set together refine a queue with a flag, which is there from
    the first wait on.
  \<^item> \<open>Rmw_Signals\<close>: guard conditions and a wait set together refine a row of flags, for waits that ask for any of
    them; a flag is there from the first wait on that asks for it.
  \<^item> \<open>Graph\<close>, \<open>Rmw_Graph\<close>: \<open>rmw/graph.cpp\<close>. What the queries report and which of them cannot be used.
  \<^item> \<open>Rmw_Service\<close>: \<open>rmw/client.cpp\<close> and \<open>rmw/service.cpp\<close> (locale \<open>service_handle\<close>).
  \<^item> \<open>Rmw_Gid\<close>: \<open>rmw/gid.cpp\<close>, \<open>qos.cpp\<close>, \<open>event.cpp\<close>, \<open>feature.cpp\<close>, \<open>logging.cpp\<close>.
  \<^item> \<open>Demo_Nodes\<close>: the callbacks of the nodes of \<open>src/rmw_iceoryx2_cxx_demo_nodes\<close>, on a client library that is a
    parameter (\<open>rclcpp\<close>). The locale \<open>counting_talker\<close> is what both talkers do at a tick.

  \<^bold>\<open>Bounds.\<close> There is no fuel: every loop of the code runs over a finite array, list or set, and is a
  structural recursion.

  \<^bold>\<open>Where the code falls short.\<close> Some theorems state behaviour the code hardly intends, because it is
  what the code does: the handle of a wait set and the name copies of endpoints and contexts are never
  freed; a loan stays out when (de)serialization throws; of two subscriptions to one topic in a wait
  only the first is reported; a wait consumes the notifications of all messages of a topic while a take
  removes one, and after a timeout the arrays are left as they were; what is published or triggered before the
  first wait that names it is not reported; a message type with wide strings counts as self-contained; a zero-initialised \<open>rmw_names_and_types_t\<close> cannot be passed to the
  queries.

  \<^bold>\<open>Not modelled.\<close> Concurrency: operations run one at a time, so the atomicity of the id counter has no
  content here, and an action of another process is a change of \<open>iox\<close>. The log macros. The creation lock,
  which restricts who may name a constructor. Object layout: an object is stored whole, and the bytes of a message
  are given by the functions \<open>msg_bytes\<close> and \<open>msg_write\<close> of \<open>ros_env\<close>. Arguments a function does not use are left out
  where it only answers that it is not supported. The \<open>main\<close> functions of the demo nodes, which set options
  and spin. Tests and scripts are not part of the library.
\<close>

end
